theory Spec2Isabelle
  imports
    Main
    "HOL-Library.Char_ord"
    "HOL-Library.List_Lexorder"
    "HOL-Library.Sublist"
    "HOL-Library.Multiset"
begin

section \<open>The rule engine of organize (src/organize/cli.py)\<close>

text \<open>
  The engine of \<^verbatim>\<open>cli.py\<close> is three functions: \<^verbatim>\<open>all_pathes\<close> lists the candidate
  paths of a rule, \<^verbatim>\<open>find_jobs\<close> keeps the candidates that every filter of the rule
  accepts and sorts them, \<^verbatim>\<open>execute_rules\<close> runs the actions of every job. Filters and
  actions are objects of classes that live in other modules; the engine only calls their
  methods \<^verbatim>\<open>matches\<close>, \<^verbatim>\<open>parse\<close> and \<^verbatim>\<open>run\<close>. The file system is reached through
  \<^verbatim>\<open>pathlib\<close>.

  The embedding makes every effect explicit. The world (the file system and whatever else
  an action may change) is a value of an arbitrary type \<open>'w\<close>. Every call that can raise
  returns a sum whose left injection is the exception. Every call the engine makes on a
  filter or an action, and every line it prints or logs, is recorded in a list of events,
  in the order in which the calls happen.
\<close>

subsection \<open>Paths, exceptions, directory entries\<close>

text \<open>
  A \<^verbatim>\<open>pathlib.Path\<close> is the list of its parts: \<^verbatim>\<open>Path('/a/b.txt')\<close> has the parts
  \<^verbatim>\<open>('/', 'a', 'b.txt')\<close>. Python orders POSIX paths by comparing these part lists,
  which is the lexicographic order on lists of strings.
\<close>

type_synonym path = "string list"

text \<open>
  An exception is known by its class, written as the name of the class. Two classes matter
  to what follows, \<^verbatim>\<open>StopIteration\<close> and \<^verbatim>\<open>PermissionError\<close>; each of the two names
  stands for every instance of the class, those of its subclasses included.
\<close>

type_synonym exn = string

text \<open>
  What an exception raised inside the body of a generator is when it leaves the generator.
  In Python 3.7 and later a \<^verbatim>\<open>StopIteration\<close> raised there is replaced by a
  \<^verbatim>\<open>RuntimeError\<close> (PEP 479); every other exception leaves as it is.
\<close>

definition in_generator :: "exn \<Rightarrow> exn" where
  "in_generator e = (if e = ''StopIteration'' then ''RuntimeError'' else e)"

text \<open>
  What \<^verbatim>\<open>execute_rules\<close> can end with: the \<^verbatim>\<open>IndexError\<close> of its own \<^verbatim>\<open>x[0]\<close>, or an
  exception that a filter, an action or pathlib raised and the engine let through.
\<close>

datatype error = IndexError | Raised exn

datatype entry_kind = RegularFile | Directory

text \<open>
  The pathlib operations the engine relies on, each reading the world: the home directory
  of a user (empty name: the current user), \<^verbatim>\<open>Path.is_dir\<close>, the entries of a directory
  with their kinds, and \<^verbatim>\<open>Path.resolve\<close>. \<^verbatim>\<open>Path.is_dir\<close> answers false for a path
  that does not exist, and raises when the path cannot be examined for another reason, such
  as a parent directory that may not be searched.
\<close>

record 'w pathlib =
  gethomedir :: "'w \<Rightarrow> string \<Rightarrow> exn + path"
  is_dir :: "'w \<Rightarrow> path \<Rightarrow> exn + bool"
  scandir :: "'w \<Rightarrow> path \<Rightarrow> exn + (string \<times> entry_kind) list"
  resolve :: "'w \<Rightarrow> path \<Rightarrow> exn + path"

subsection \<open>Filters, actions, rules, jobs\<close>

text \<open>
  A filter object. \<open>fid\<close> is the identity of the object, so that an event can say which
  filter was called. Modelled from the spec: the filter classes are not part of
  \<^verbatim>\<open>cli.py\<close>; section 4.3 of the specification says that \<^verbatim>\<open>matches\<close> has no side effect
  and that \<^verbatim>\<open>parse\<close> only reads, so both read the world and return a value or raise.
\<close>

record ('w, 'b) filter_obj =
  fid :: nat
  matches :: "'w \<Rightarrow> path \<Rightarrow> exn + bool"
  parse :: "'w \<Rightarrow> path \<Rightarrow> exn + 'b"

text \<open>
  An action object. \<^verbatim>\<open>run(path, file_attributes, simulate)\<close> may change the world, and
  returns a new path, \<^verbatim>\<open>None\<close>, or raises; the world it leaves is returned in each case.
  The engine hands the same attribute object to every action of a chain. Modelled from the
  spec: the action classes are not part of \<^verbatim>\<open>cli.py\<close>; the glossary of the specification
  says that the attributes are shared read-only across the chain, so they are passed as a
  value.
\<close>

record ('w, 'b) action_obj =
  aid :: nat
  run :: "path \<Rightarrow> 'b \<Rightarrow> bool \<Rightarrow> 'w \<Rightarrow> (exn + path option) \<times> 'w"

text \<open>
  A rule, as the configuration gives it. Each folder stands for \<^verbatim>\<open>Path(folder)\<close>, the
  parts of the configured string.
\<close>

record ('w, 'b) rule =
  folders :: "path list"
  filters :: "('w, 'b) filter_obj list"
  actions :: "('w, 'b) action_obj list"

text \<open>
  The named tuple \<^verbatim>\<open>Job(path, filters, actions)\<close>. Its last two fields are written
  \<open>job_filters\<close> and \<open>job_actions\<close> to keep them apart from the fields of a rule.
\<close>

record ('w, 'b) job =
  path :: path
  job_filters :: "('w, 'b) filter_obj list"
  job_actions :: "('w, 'b) action_obj list"

subsection \<open>Events\<close>

text \<open>
  One event for each call on a filter or an action, with its arguments and, last, what
  the call returned or raised; and one for each call of \<^verbatim>\<open>print\<close>, of
  \<^verbatim>\<open>logger.debug(jobs)\<close> (the jobs given by their paths and the identities of their
  filters and actions) and of \<^verbatim>\<open>logger.info('File %s', path)\<close>.
\<close>

datatype 'b event =
    Matches nat path "exn + bool"
  | Parse nat path "exn + 'b"
  | Run nat path 'b bool "exn + path option"
  | Print string
  | LogDebug "(path \<times> nat list \<times> nat list) list"
  | LogInfo path

subsection \<open>all_pathes\<close>

text \<open>
  \<^verbatim>\<open>fnmatch\<close> for patterns made of literal characters, \<^verbatim>\<open>*\<close> and \<^verbatim>\<open>?\<close> (the pattern
  of the engine, \<^verbatim>\<open>'*.*'\<close>, has no bracket expression). pathlib matches a pattern against
  the whole name of an entry, and does not treat a leading dot specially.
\<close>

fun fnmatch :: "string \<Rightarrow> string \<Rightarrow> bool" where
  "fnmatch [] [] = True"
| "fnmatch (c # cs) [] = False"
| "fnmatch [] (q # qs) = (q = CHR ''*'' \<and> fnmatch [] qs)"
| "fnmatch (c # cs) (q # qs) =
     (if q = CHR ''*'' then fnmatch (c # cs) qs \<or> fnmatch cs (q # qs)
      else (q = CHR ''?'' \<or> q = c) \<and> fnmatch cs qs)"

text \<open>
  \<^verbatim>\<open>Path.expanduser\<close>: a path whose first part starts with a tilde has that part replaced
  by the home directory of the user named after the tilde. (An absolute path has the
  root as its first part, so it is never expanded.)
\<close>

definition expanduser :: "'w pathlib \<Rightarrow> 'w \<Rightarrow> path \<Rightarrow> exn + path" where
  "expanduser lib w p =
     (case p of
        [] \<Rightarrow> Inr []
      | part # rest \<Rightarrow>
          if take 1 part = ''~''
          then (case gethomedir lib w (drop 1 part) of
                  Inl e \<Rightarrow> Inl e
                | Inr home \<Rightarrow> Inr (home @ rest))
          else Inr p)"

text \<open>
  \<^verbatim>\<open>Path.glob\<close> with a pattern of one component, as pathlib has it up to Python 3.11.
  \<^verbatim>\<open>is_dir\<close> is asked first, and a path that is not a directory yields nothing. Then the
  directory is listed once, and every entry whose name matches is yielded as the
  directory's path extended by that name; the kind of the entry is not looked at. The
  listing is inside \<^verbatim>\<open>try: ... except PermissionError: return\<close>, so a directory that may
  not be listed yields nothing as well, without an exception. The call of \<^verbatim>\<open>is_dir\<close> is
  outside that handler. \<^verbatim>\<open>glob\<close> is a generator.
\<close>

definition glob :: "'w pathlib \<Rightarrow> 'w \<Rightarrow> path \<Rightarrow> string \<Rightarrow> exn + path list" where
  "glob lib w parent pat =
     (case is_dir lib w parent of
        Inl e \<Rightarrow> Inl (in_generator e)
      | Inr dir \<Rightarrow>
          if dir
          then (case scandir lib w parent of
                  Inl e \<Rightarrow> if e = ''PermissionError'' then Inr [] else Inl (in_generator e)
                | Inr entries \<Rightarrow>
                    Inr [parent @ [name]. (name, kind) \<leftarrow> entries, fnmatch name pat])
          else Inr [])"

text \<open>
  \<^verbatim>\<open>all_pathes\<close> is a generator: the folders are expanded and listed one after the other,
  each only when the consumer has used up the paths of the folder before. The model is
  the list of what each folder yields, paths or the exception raised on reaching it. What
  \<^verbatim>\<open>expanduser\<close> or \<^verbatim>\<open>glob\<close> raises there leaves the generator as
  \<^const>\<open>in_generator\<close> gives it.
\<close>

definition all_pathes :: "'w pathlib \<Rightarrow> 'w \<Rightarrow> ('w, 'b) rule \<Rightarrow> (exn + path list) list" where
  "all_pathes lib w r =
     map (\<lambda>folder. case expanduser lib w folder of
                      Inl e \<Rightarrow> Inl (in_generator e)
                    | Inr d \<Rightarrow>
                        (case glob lib w d ''*.*'' of
                           Inl e \<Rightarrow> Inl (in_generator e)
                         | Inr ps \<Rightarrow> Inr ps))
         (folders r)"

subsection \<open>find_jobs\<close>

text \<open>
  \<^verbatim>\<open>all(f.matches(path) for f in rule.filters)\<close>: the filters are asked from left to
  right, and the first one that answers false, or raises, ends the evaluation. The calls
  of \<^verbatim>\<open>matches\<close> are made inside a generator expression, so what a filter raises reaches
  \<^verbatim>\<open>find_jobs\<close> as \<^const>\<open>in_generator\<close> gives it; the event records what the filter
  itself raised.
\<close>

fun all_matches :: "'w \<Rightarrow> ('w, 'b) filter_obj list \<Rightarrow> path \<Rightarrow> (error + bool) \<times> 'b event list" where
  "all_matches w [] p = (Inr True, [])"
| "all_matches w (f # fs) p =
     (case matches f w p of
        Inl e \<Rightarrow> (Inl (Raised (in_generator e)), [Matches (fid f) p (Inl e)])
      | Inr ok \<Rightarrow>
          if ok then (case all_matches w fs p of
                        (res, t) \<Rightarrow> (res, Matches (fid f) p (Inr True) # t))
          else (Inr False, [Matches (fid f) p (Inr False)]))"

definition Job :: "path \<Rightarrow> ('w, 'b) filter_obj list \<Rightarrow> ('w, 'b) action_obj list \<Rightarrow> ('w, 'b) job" where
  "Job p fs as = \<lparr>path = p, job_filters = fs, job_actions = as\<rparr>"

text \<open>The inner loop of \<^verbatim>\<open>find_jobs\<close> over the paths that one folder yields.\<close>

fun find_jobs_paths ::
  "'w \<Rightarrow> ('w, 'b) rule \<Rightarrow> path list \<Rightarrow> ('w, 'b) job list \<Rightarrow> (error + ('w, 'b) job list) \<times> 'b event list"
where
  "find_jobs_paths w r [] result = (Inr result, [])"
| "find_jobs_paths w r (p # ps) result =
     (case all_matches w (filters r) p of
        (Inl e, t) \<Rightarrow> (Inl e, t)
      | (Inr ok, t) \<Rightarrow>
          (case find_jobs_paths w r ps
                  (if ok then result @ [Job p (filters r) (actions r)] else result) of
             (res, t') \<Rightarrow> (res, t @ t')))"

text \<open>The same loop over everything the generator yields for one rule.\<close>

fun find_jobs_folders ::
  "'w \<Rightarrow> ('w, 'b) rule \<Rightarrow> (exn + path list) list \<Rightarrow> ('w, 'b) job list
     \<Rightarrow> (error + ('w, 'b) job list) \<times> 'b event list"
where
  "find_jobs_folders w r [] result = (Inr result, [])"
| "find_jobs_folders w r (c # cs) result =
     (case c of
        Inl e \<Rightarrow> (Inl (Raised e), [])
      | Inr ps \<Rightarrow>
          (case find_jobs_paths w r ps result of
             (Inl e, t) \<Rightarrow> (Inl e, t)
           | (Inr result', t) \<Rightarrow>
               (case find_jobs_folders w r cs result' of (res, t') \<Rightarrow> (res, t @ t'))))"

text \<open>The outer loop over the rules.\<close>

fun find_jobs_rules ::
  "'w pathlib \<Rightarrow> 'w \<Rightarrow> ('w, 'b) rule list \<Rightarrow> ('w, 'b) job list
     \<Rightarrow> (error + ('w, 'b) job list) \<times> 'b event list"
where
  "find_jobs_rules lib w [] result = (Inr result, [])"
| "find_jobs_rules lib w (r # rs) result =
     (case find_jobs_folders w r (all_pathes lib w r) result of
        (Inl e, t) \<Rightarrow> (Inl e, t)
      | (Inr result', t) \<Rightarrow>
          (case find_jobs_rules lib w rs result' of (res, t') \<Rightarrow> (res, t @ t')))"

text \<open>
  \<^verbatim>\<open>sorted(result, key=lambda j: j.path)\<close> is a stable sort on the path, as is
  \<^const>\<open>sort_key\<close>.
\<close>

definition find_jobs ::
  "'w pathlib \<Rightarrow> 'w \<Rightarrow> ('w, 'b) rule list \<Rightarrow> (error + ('w, 'b) job list) \<times> 'b event list"
where
  "find_jobs lib w rules =
     (case find_jobs_rules lib w rules [] of
        (Inl e, t) \<Rightarrow> (Inl e, t)
      | (Inr result, t) \<Rightarrow> (Inr (sort_key path result), t))"

subsection \<open>execute_rules\<close>

text \<open>The local function \<^verbatim>\<open>first\<close>: \<^verbatim>\<open>x[0]\<close> raises on the empty list.\<close>

definition first :: "'a list \<Rightarrow> error + 'a" where
  "first x = (if x = [] then Inl IndexError else Inr (hd x))"

text \<open>
  The loop over the actions of one job. \<open>cur\<close> is the local variable
  \<^verbatim>\<open>current_path\<close>; its value when the loop ends is returned with the world and the
  events, although \<^verbatim>\<open>execute_rules\<close> itself drops it.
\<close>

fun run_actions ::
  "bool \<Rightarrow> 'b \<Rightarrow> ('w, 'b) action_obj list \<Rightarrow> path \<Rightarrow> 'w \<Rightarrow> (error + path) \<times> 'w \<times> 'b event list"
where
  "run_actions simulate fa [] cur w = (Inr cur, w, [])"
| "run_actions simulate fa (a # as) cur w =
     (case run a cur fa simulate w of
        (Inl e, w') \<Rightarrow> (Inl (Raised e), w', [Run (aid a) cur fa simulate (Inl e)])
      | (Inr new_path, w') \<Rightarrow>
          (case run_actions simulate fa as
                  (case new_path of None \<Rightarrow> cur | Some np \<Rightarrow> np) w' of
             (res, w'', t) \<Rightarrow>
               (res, w'', Run (aid a) cur fa simulate (Inr new_path) # t)))"

text \<open>The body of the loop over the jobs.\<close>

definition run_job ::
  "'w pathlib \<Rightarrow> bool \<Rightarrow> ('w, 'b) job \<Rightarrow> 'w \<Rightarrow> (error + path) \<times> 'w \<times> 'b event list"
where
  "run_job lib simulate j w =
     (case first (job_filters j) of
        Inl e \<Rightarrow> (Inl e, w, [LogInfo (path j)])
      | Inr f \<Rightarrow>
          (case parse f w (path j) of
             Inl e \<Rightarrow>
               (Inl (Raised e), w, [LogInfo (path j), Parse (fid f) (path j) (Inl e)])
           | Inr fa \<Rightarrow>
               (case resolve lib w (path j) of
                  Inl e \<Rightarrow>
                    (Inl (Raised e), w, [LogInfo (path j), Parse (fid f) (path j) (Inr fa)])
                | Inr cur \<Rightarrow>
                    (case run_actions simulate fa (job_actions j) cur w of
                       (res, w', t) \<Rightarrow>
                         (res, w', LogInfo (path j) # Parse (fid f) (path j) (Inr fa) # t)))))"

fun run_jobs ::
  "'w pathlib \<Rightarrow> bool \<Rightarrow> ('w, 'b) job list \<Rightarrow> 'w \<Rightarrow> (error + unit) \<times> 'w \<times> 'b event list"
where
  "run_jobs lib simulate [] w = (Inr (), w, [])"
| "run_jobs lib simulate (j # js) w =
     (case run_job lib simulate j w of
        (Inl e, w', t) \<Rightarrow> (Inl e, w', t)
      | (Inr final, w', t) \<Rightarrow>
          (case run_jobs lib simulate js w' of (res, w'', t') \<Rightarrow> (res, w'', t @ t')))"

definition job_repr :: "('w, 'b) job \<Rightarrow> path \<times> nat list \<times> nat list" where
  "job_repr j = (path j, map fid (job_filters j), map aid (job_actions j))"

definition execute_rules ::
  "'w pathlib \<Rightarrow> ('w, 'b) rule list \<Rightarrow> bool \<Rightarrow> 'w \<Rightarrow> (error + unit) \<times> 'w \<times> 'b event list"
where
  "execute_rules lib rules simulate w =
     (case find_jobs lib w rules of
        (Inl e, t) \<Rightarrow> (Inl e, w, t)
      | (Inr jobs, t) \<Rightarrow>
          if jobs = [] then (Inr (), w, t @ [Print ''Nothing to do.''])
          else (case run_jobs lib simulate jobs w of
                  (res, w', t') \<Rightarrow> (res, w', t @ LogDebug (map job_repr jobs) # t')))"

subsection \<open>Reading a list of events\<close>

text \<open>The calls of \<^verbatim>\<open>run\<close> in a list of events, in order.\<close>

primrec runs :: "'b event list \<Rightarrow> (nat \<times> path \<times> 'b \<times> bool \<times> (exn + path option)) list" where
  "runs [] = []"
| "runs (ev # t) =
     (case ev of Run a p fa s out \<Rightarrow> (a, p, fa, s, out) # runs t | _ \<Rightarrow> runs t)"

text \<open>The calls of \<^verbatim>\<open>parse\<close>.\<close>

primrec parses :: "'b event list \<Rightarrow> (nat \<times> path \<times> (exn + 'b)) list" where
  "parses [] = []"
| "parses (ev # t) = (case ev of Parse i p res \<Rightarrow> (i, p, res) # parses t | _ \<Rightarrow> parses t)"

text \<open>
  What was printed or logged. The module sets the level of logging to \<^verbatim>\<open>INFO\<close>
  (\<^verbatim>\<open>logging.basicConfig(level=logging.INFO)\<close>), so the call of \<^verbatim>\<open>logger.debug\<close> writes
  nothing: the output is what \<^verbatim>\<open>print\<close> and \<^verbatim>\<open>logger.info\<close> wrote.
\<close>

primrec printed :: "'b event list \<Rightarrow> 'b event list" where
  "printed [] = []"
| "printed (ev # t) =
     (case ev of
        Print s \<Rightarrow> ev # printed t
      | LogInfo p \<Rightarrow> ev # printed t
      | _ \<Rightarrow> printed t)"

text \<open>
  The path each call of \<^verbatim>\<open>run\<close> was given, and the path each returned (\<open>None\<close> for
  a call that returned \<^verbatim>\<open>None\<close> or raised).
\<close>

definition run_inputs :: "'b event list \<Rightarrow> path list" where
  "run_inputs t = map (\<lambda>(a, p, fa, s, out). p) (runs t)"

definition run_returns :: "'b event list \<Rightarrow> path option list" where
  "run_returns t =
     map (\<lambda>(a, p, fa, s, out). case out of Inl e \<Rightarrow> None | Inr np \<Rightarrow> np) (runs t)"

text \<open>
  A call without its arguments' details: which method of which object was called (for a
  filter, on which path).
\<close>

datatype call = MatchesCall nat path | ParseCall nat path | RunCall nat

primrec calls :: "'b event list \<Rightarrow> call list" where
  "calls [] = []"
| "calls (ev # t) =
     (case ev of
        Matches i p res \<Rightarrow> MatchesCall i p # calls t
      | Parse i p res \<Rightarrow> ParseCall i p # calls t
      | Run a p fa s out \<Rightarrow> RunCall a # calls t
      | _ \<Rightarrow> calls t)"

subsection \<open>Notions used to state the properties\<close>

text \<open>Every path that \<^verbatim>\<open>all_pathes\<close> yields for a rule, over all its folders.\<close>

definition enumerated :: "'w pathlib \<Rightarrow> 'w \<Rightarrow> ('w, 'b) rule \<Rightarrow> path list" where
  "enumerated lib w r =
     concat (map (\<lambda>c. case c of Inl e \<Rightarrow> [] | Inr ps \<Rightarrow> ps) (all_pathes lib w r))"

text \<open>Every filter of the list returns true for the path.\<close>

definition accepts :: "'w \<Rightarrow> ('w, 'b) filter_obj list \<Rightarrow> path \<Rightarrow> bool" where
  "accepts w fs p = list_all (\<lambda>f. matches f w p = Inr True) fs"

text \<open>The jobs of a rule among given paths: one for each accepted path, in order.\<close>

definition jobs_of :: "'w \<Rightarrow> ('w, 'b) rule \<Rightarrow> path list \<Rightarrow> ('w, 'b) job list" where
  "jobs_of w r ps = map (\<lambda>p. Job p (filters r) (actions r)) (filter (accepts w (filters r)) ps)"

text \<open>
  Path chaining as the specification words it: the current path before each action of a
  chain and after the last, from the path the chain starts with and what each action
  returns. A returned path replaces the current path; \<open>None\<close> leaves it.
\<close>

primrec chain :: "path \<Rightarrow> path option list \<Rightarrow> path list" where
  "chain cur [] = [cur]"
| "chain cur (out # outs) = cur # chain (case out of None \<Rightarrow> cur | Some np \<Rightarrow> np) outs"

text \<open>The calls that a job asks for: \<^verbatim>\<open>parse\<close> on its first filter, then each action.\<close>

definition job_calls :: "('w, 'b) job \<Rightarrow> call list" where
  "job_calls j =
     (case job_filters j of
        [] \<Rightarrow> []
      | f # fs \<Rightarrow> ParseCall (fid f) (path j) # map (\<lambda>a. RunCall (aid a)) (job_actions j))"

text \<open>
  The calls that a run of \<^verbatim>\<open>execute_rules\<close> in a given world asks for when nothing
  raises after discovery: those of discovery, then those of each job in order. The
  simulate flag plays no part in it.
\<close>

definition planned_calls :: "'w pathlib \<Rightarrow> 'w \<Rightarrow> ('w, 'b) rule list \<Rightarrow> call list" where
  "planned_calls lib w rules =
     (case find_jobs lib w rules of
        (Inl e, tf) \<Rightarrow> calls tf
      | (Inr jobs, tf) \<Rightarrow> calls tf @ concat (map job_calls jobs))"

text \<open>
  A world that is reached from another by calls of \<^verbatim>\<open>run\<close> alone, on actions of a given
  set and with a given simulate flag.
\<close>

inductive mutated_by :: "('w, 'b) action_obj set \<Rightarrow> bool \<Rightarrow> 'w \<Rightarrow> 'w \<Rightarrow> bool"
  for A :: "('w, 'b) action_obj set" and simulate :: bool
where
  unchanged: "mutated_by A simulate w w"
| after_run:
    "mutated_by A simulate w w1 \<Longrightarrow> a \<in> A \<Longrightarrow> run a p fa simulate w1 = (out, w2)
       \<Longrightarrow> mutated_by A simulate w w2"

subsection \<open>A small concrete installation\<close>

text \<open>
  A world for trying the engine on: the file system is the list of the entries below
  \<^verbatim>\<open>/data\<close>, each a path with its kind, and \<^verbatim>\<open>/home\<close> is a symbolic link to
  \<^verbatim>\<open>/data\<close>. The directory \<^verbatim>\<open>/root\<close> may be neither listed nor searched by the user who
  runs the engine: \<^verbatim>\<open>is_dir\<close> answers true for \<^verbatim>\<open>/root\<close> itself, listing it raises
  \<^verbatim>\<open>PermissionError\<close>, and so does examining any path below it. The attributes of a file
  are a list of pairs.
\<close>

type_synonym demo_world = "(path \<times> entry_kind) list"

type_synonym demo_attrs = "(string \<times> string) list"

definition canon :: "path \<Rightarrow> path" where
  "canon p = (if take 2 p = [''/'', ''home''] then [''/'', ''data''] @ drop 2 p else p)"

text \<open>
  The directories: the root, \<^verbatim>\<open>/data\<close> (also reached as \<^verbatim>\<open>/home\<close>), \<^verbatim>\<open>/root\<close>, and
  the entries of kind \<^const>\<open>Directory\<close>.
\<close>

definition is_directory :: "demo_world \<Rightarrow> path \<Rightarrow> bool" where
  "is_directory w d =
     (d = [''/''] \<or> canon d = [''/'', ''data''] \<or> d = [''/'', ''root''] \<or>
      (canon d, Directory) \<in> set w)"

definition demo_lib :: "demo_world pathlib" where
  "demo_lib =
     \<lparr>gethomedir =
        (\<lambda>w user. if user = [] then Inr [''/'', ''home''] else Inl ''RuntimeError''),
      is_dir =
        (\<lambda>w d. if take 2 d = [''/'', ''root''] \<and> 2 < length d then Inl ''PermissionError''
               else Inr (is_directory w d)),
      scandir =
        (\<lambda>w d. if take 2 d = [''/'', ''root''] then Inl ''PermissionError''
               else if d = [''/'']
               then Inr [(''data'', Directory), (''home'', Directory), (''root'', Directory)]
               else if is_directory w d
               then Inr [(last q, k). (q, k) \<leftarrow> w, q \<noteq> [] \<and> butlast q = canon d]
               else if (canon d, RegularFile) \<in> set w then Inl ''NotADirectoryError''
               else Inl ''FileNotFoundError''),
      resolve = (\<lambda>w p. Inr (canon p))\<rparr>"

definition demo_world :: demo_world where
  "demo_world =
     [([''/'', ''data'', ''a.txt''], RegularFile),
      ([''/'', ''data'', ''b.jpg''], RegularFile),
      ([''/'', ''data'', ''x.d''], Directory),
      ([''/'', ''data'', ''README''], RegularFile),
      ([''/'', ''data'', ''x.d'', ''c.txt''], RegularFile)]"

text \<open>A filter on the end of the file name; its attributes are the extension.\<close>

definition has_ext :: "nat \<Rightarrow> string \<Rightarrow> (demo_world, demo_attrs) filter_obj" where
  "has_ext i ext =
     \<lparr>fid = i,
      matches = (\<lambda>w p. Inr (p \<noteq> [] \<and> drop (length (last p) - length ext) (last p) = ext)),
      parse = (\<lambda>w p. Inr [(''ext'', ext)])\<rparr>"

text \<open>
  A filter that always returns false, one that cannot read any file, and one that runs an
  iterator past its end.
\<close>

definition never :: "nat \<Rightarrow> (demo_world, demo_attrs) filter_obj" where
  "never i = \<lparr>fid = i, matches = (\<lambda>w p. Inr False), parse = (\<lambda>w p. Inr [])\<rparr>"

definition unreadable :: "nat \<Rightarrow> (demo_world, demo_attrs) filter_obj" where
  "unreadable i = \<lparr>fid = i, matches = (\<lambda>w p. Inl ''OSError''), parse = (\<lambda>w p. Inl ''OSError'')\<rparr>"

definition exhausted :: "nat \<Rightarrow> (demo_world, demo_attrs) filter_obj" where
  "exhausted i = \<lparr>fid = i, matches = (\<lambda>w p. Inl ''StopIteration''), parse = (\<lambda>w p. Inr [])\<rparr>"

text \<open>A filter that accepts every file and cannot extract its attributes.\<close>

definition opaque :: "nat \<Rightarrow> (demo_world, demo_attrs) filter_obj" where
  "opaque i = \<lparr>fid = i, matches = (\<lambda>w p. Inr True), parse = (\<lambda>w p. Inl ''ValueError'')\<rparr>"

text \<open>
  Actions: one that moves the file into a directory (and only says where to when
  simulating), one that only reports, and one that is refused by the file system unless
  it is simulated.
\<close>

definition move_to :: "nat \<Rightarrow> path \<Rightarrow> (demo_world, demo_attrs) action_obj" where
  "move_to i dest =
     \<lparr>aid = i,
      run = (\<lambda>p fa simulate w.
               (Inr (Some (dest @ [last p])),
                if simulate then w
                else map (\<lambda>(q, k). if q = p then (dest @ [last p], k) else (q, k)) w))\<rparr>"

definition echo :: "nat \<Rightarrow> (demo_world, demo_attrs) action_obj" where
  "echo i = \<lparr>aid = i, run = (\<lambda>p fa simulate w. (Inr None, w))\<rparr>"

definition fragile :: "nat \<Rightarrow> (demo_world, demo_attrs) action_obj" where
  "fragile i =
     \<lparr>aid = i,
      run = (\<lambda>p fa simulate w.
               if simulate then (Inr None, w) else (Inl ''PermissionError'', w))\<rparr>"

text \<open>Rules over the home directory.\<close>

definition txt_rule :: "(demo_world, demo_attrs) rule" where
  "txt_rule =
     \<lparr>folders = [[''~'']], filters = [has_ext 1 ''.txt''],
      actions = [move_to 1 [''/'', ''out''], echo 2, move_to 3 [''/'', ''arch'']]\<rparr>"

definition jpg_rule :: "(demo_world, demo_attrs) rule" where
  "jpg_rule =
     \<lparr>folders = [[''~'']], filters = [has_ext 2 ''.jpg''],
      actions = [echo 3, fragile 4, echo 5]\<rparr>"

definition a_rule :: "(demo_world, demo_attrs) rule" where
  "a_rule =
     \<lparr>folders = [[''~'']], filters = [has_ext 3 ''t'', has_ext 4 ''a.txt''],
      actions = [echo 6, echo 8]\<rparr>"

definition bare_rule :: "(demo_world, demo_attrs) rule" where
  "bare_rule = \<lparr>folders = [[''~'']], filters = [], actions = [echo 7]\<rparr>"

text \<open>
  Rules over other folders: one that may not be listed, one that cannot be examined
  (after the home directory), and one that is a regular file.
\<close>

definition root_rule :: "(demo_world, demo_attrs) rule" where
  "root_rule = \<lparr>folders = [[''/'', ''root'']], filters = [], actions = []\<rparr>"

definition sub_rule :: "(demo_world, demo_attrs) rule" where
  "sub_rule =
     \<lparr>folders = [[''~''], [''/'', ''root'', ''sub'']], filters = [has_ext 9 ''.jpg''],
      actions = [echo 10]\<rparr>"

definition file_rule :: "(demo_world, demo_attrs) rule" where
  "file_rule = \<lparr>folders = [[''~'', ''a.txt'']], filters = [], actions = []\<rparr>"

text \<open>Rules with a filter that raises.\<close>

definition blind_rule :: "(demo_world, demo_attrs) rule" where
  "blind_rule =
     \<lparr>folders = [[''~'']], filters = [has_ext 7 ''.jpg'', unreadable 5], actions = []\<rparr>"

definition spent_rule :: "(demo_world, demo_attrs) rule" where
  "spent_rule = \<lparr>folders = [[''~'']], filters = [exhausted 8], actions = []\<rparr>"

definition opaque_rule :: "(demo_world, demo_attrs) rule" where
  "opaque_rule = \<lparr>folders = [[''~'']], filters = [opaque 6], actions = [echo 9]\<rparr>"

section \<open>Lemmas\<close>

subsection \<open>The pattern of all_pathes\<close>

lemma fnmatch_star [simp]: "fnmatch name ''*'' = True"
  by (induction name) auto

lemma fnmatch_dot_star: "fnmatch name ''.*'' = (\<exists>rest. name = CHR ''.'' # rest)"
  by (cases name) auto

lemma fnmatch_star_dot_star: "fnmatch name ''*.*'' = (CHR ''.'' \<in> set name)"
proof (induction name)
  case Nil
  show ?case by simp
next
  case (Cons c cs)
  have "fnmatch (c # cs) ''*.*'' = (fnmatch (c # cs) ''.*'' \<or> fnmatch cs ''*.*'')"
    by simp
  also have "\<dots> = (c = CHR ''.'' \<or> CHR ''.'' \<in> set cs)"
    using Cons.IH by (simp add: fnmatch_dot_star)
  finally show ?case by auto
qed

subsection \<open>Events are read part by part\<close>

lemma runs_append [simp]: "runs (t @ t') = runs t @ runs t'"
  by (induction t) (auto split: event.splits)

lemma parses_append [simp]: "parses (t @ t') = parses t @ parses t'"
  by (induction t) (auto split: event.splits)

lemma printed_append [simp]: "printed (t @ t') = printed t @ printed t'"
  by (induction t) (auto split: event.splits)

lemma calls_append [simp]: "calls (t @ t') = calls t @ calls t'"
  by (induction t) (auto split: event.splits)

subsection \<open>What find_jobs returns\<close>

lemma jobs_of_Nil [simp]: "jobs_of w r [] = []"
  by (simp add: jobs_of_def)

lemma jobs_of_Cons:
  "jobs_of w r (p # ps) =
     (if accepts w (filters r) p then [Job p (filters r) (actions r)] else []) @ jobs_of w r ps"
  by (simp add: jobs_of_def)

lemma jobs_of_append [simp]: "jobs_of w r (ps @ qs) = jobs_of w r ps @ jobs_of w r qs"
  by (simp add: jobs_of_def)

lemma accepts_iff: "accepts w fs p = (\<forall>f\<in>set fs. matches f w p = Inr True)"
  by (simp add: accepts_def list_all_iff)

lemma in_jobs_of:
  "(j \<in> set (jobs_of w r ps)) =
     (\<exists>p\<in>set ps. accepts w (filters r) p \<and> j = Job p (filters r) (actions r))"
  by (auto simp: jobs_of_def)

lemma Job_eq [simp]: "(Job p fs as = Job p' fs' as') = (p = p' \<and> fs = fs' \<and> as = as')"
  by (auto simp: Job_def)

lemma Job_sel [simp]:
  "path (Job p fs as) = p" "job_filters (Job p fs as) = fs" "job_actions (Job p fs as) = as"
  by (simp_all add: Job_def)

lemma all_matches_Inr: "all_matches w fs p = (Inr ok, t) \<Longrightarrow> ok = accepts w fs p"
  by (induction fs arbitrary: t) (auto simp: accepts_def split: sum.splits if_splits prod.splits)

lemma find_jobs_paths_Inr:
  "find_jobs_paths w r ps result = (Inr res, t) \<Longrightarrow> res = result @ jobs_of w r ps"
proof (induction ps arbitrary: result t)
  case Nil
  then show ?case by simp
next
  case (Cons p ps)
  from Cons.prems obtain ok t1 t2 where
    a: "all_matches w (filters r) p = (Inr ok, t1)" and
    b: "find_jobs_paths w r ps
          (if ok then result @ [Job p (filters r) (actions r)] else result) = (Inr res, t2)"
    by (auto split: sum.splits prod.splits)
  from all_matches_Inr [OF a] Cons.IH [OF b] show ?case
    by (simp add: jobs_of_Cons)
qed

lemma find_jobs_folders_Inr:
  "find_jobs_folders w r cs result = (Inr res, t) \<Longrightarrow>
     (\<forall>c\<in>set cs. \<exists>ps. c = Inr ps) \<and>
     res = result @ jobs_of w r (concat (map (\<lambda>c. case c of Inl e \<Rightarrow> [] | Inr ps \<Rightarrow> ps) cs))"
proof (induction cs arbitrary: result t)
  case Nil
  then show ?case by simp
next
  case (Cons c cs)
  from Cons.prems obtain ps mid t1 t2 where
    c: "c = Inr ps" and
    a: "find_jobs_paths w r ps result = (Inr mid, t1)" and
    b: "find_jobs_folders w r cs mid = (Inr res, t2)"
    by (auto split: sum.splits prod.splits)
  from find_jobs_paths_Inr [OF a] Cons.IH [OF b] c show ?case
    by simp
qed

lemma find_jobs_rules_Inr:
  "find_jobs_rules lib w rs result = (Inr res, t) \<Longrightarrow>
     (\<forall>r\<in>set rs. \<forall>c\<in>set (all_pathes lib w r). \<exists>ps. c = Inr ps) \<and>
     res = result @ concat (map (\<lambda>r. jobs_of w r (enumerated lib w r)) rs)"
proof (induction rs arbitrary: result t)
  case Nil
  then show ?case by simp
next
  case (Cons r rs)
  from Cons.prems obtain mid t1 t2 where
    a: "find_jobs_folders w r (all_pathes lib w r) result = (Inr mid, t1)" and
    b: "find_jobs_rules lib w rs mid = (Inr res, t2)"
    by (auto split: sum.splits prod.splits)
  have "mid = result @ jobs_of w r (enumerated lib w r)"
    using find_jobs_folders_Inr [OF a] by (simp add: enumerated_def)
  with Cons.IH [OF b] find_jobs_folders_Inr [OF a] show ?case by simp
qed

lemma find_jobs_Inr:
  "find_jobs lib w rules = (Inr jobs, t) \<Longrightarrow>
     jobs = sort_key path (concat (map (\<lambda>r. jobs_of w r (enumerated lib w r)) rules))"
  by (auto simp: find_jobs_def split: sum.splits prod.splits dest!: find_jobs_rules_Inr)

lemma find_jobs_Inr_chunks:
  "find_jobs lib w rules = (Inr jobs, t) \<Longrightarrow> r \<in> set rules \<Longrightarrow> c \<in> set (all_pathes lib w r)
     \<Longrightarrow> \<exists>ps. c = Inr ps"
  by (auto simp: find_jobs_def split: sum.splits prod.splits dest!: find_jobs_rules_Inr)

lemma in_find_jobs:
  assumes "find_jobs lib w rules = (Inr jobs, t)"
  shows "(j \<in> set jobs) =
           (\<exists>r\<in>set rules. \<exists>p\<in>set (enumerated lib w r).
              accepts w (filters r) p \<and> j = Job p (filters r) (actions r))"
  using find_jobs_Inr [OF assms] by (auto simp: in_jobs_of)

text \<open>The events of find_jobs are calls of matches only.\<close>

lemma all_matches_events:
  "all_matches w fs p = (res, t) \<Longrightarrow> runs t = [] \<and> parses t = [] \<and> printed t = []"
  by (induction fs arbitrary: res t) (auto split: sum.splits if_splits prod.splits)

lemma find_jobs_paths_events:
  "find_jobs_paths w r ps result = (res, t) \<Longrightarrow> runs t = [] \<and> parses t = [] \<and> printed t = []"
proof (induction ps arbitrary: result res t)
  case Nil
  then show ?case by simp
next
  case (Cons p ps)
  obtain r1 t1 where a: "all_matches w (filters r) p = (r1, t1)"
    by (cases "all_matches w (filters r) p")
  show ?case
  proof (cases r1)
    case (Inl e)
    with a Cons.prems all_matches_events [OF a] show ?thesis by auto
  next
    case (Inr ok)
    obtain r2 t2 where b: "find_jobs_paths w r ps
          (if ok then result @ [Job p (filters r) (actions r)] else result) = (r2, t2)"
      by (cases "find_jobs_paths w r ps
          (if ok then result @ [Job p (filters r) (actions r)] else result)")
    from a b Inr Cons.prems have "t = t1 @ t2" by simp
    with all_matches_events [OF a] Cons.IH [OF b] show ?thesis by simp
  qed
qed

lemma find_jobs_folders_events:
  "find_jobs_folders w r cs result = (res, t) \<Longrightarrow> runs t = [] \<and> parses t = [] \<and> printed t = []"
proof (induction cs arbitrary: result res t)
  case Nil
  then show ?case by simp
next
  case (Cons c cs)
  show ?case
  proof (cases c)
    case (Inl e)
    with Cons.prems show ?thesis by auto
  next
    case (Inr ps)
    obtain r1 t1 where a: "find_jobs_paths w r ps result = (r1, t1)"
      by (cases "find_jobs_paths w r ps result")
    show ?thesis
    proof (cases r1)
      case (Inl e)
      with a Inr Cons.prems find_jobs_paths_events [OF a] show ?thesis by auto
    next
      case (Inr mid)
      obtain r2 t2 where b: "find_jobs_folders w r cs mid = (r2, t2)"
        by (cases "find_jobs_folders w r cs mid")
      from a b Inr \<open>c = Inr ps\<close> Cons.prems have "t = t1 @ t2" by simp
      with find_jobs_paths_events [OF a] Cons.IH [OF b] show ?thesis by simp
    qed
  qed
qed

lemma find_jobs_rules_events:
  "find_jobs_rules lib w rs result = (res, t) \<Longrightarrow> runs t = [] \<and> parses t = [] \<and> printed t = []"
proof (induction rs arbitrary: result res t)
  case Nil
  then show ?case by simp
next
  case (Cons r rs)
  obtain r1 t1 where a: "find_jobs_folders w r (all_pathes lib w r) result = (r1, t1)"
    by (cases "find_jobs_folders w r (all_pathes lib w r) result")
  show ?case
  proof (cases r1)
    case (Inl e)
    with a Cons.prems find_jobs_folders_events [OF a] show ?thesis by auto
  next
    case (Inr mid)
    obtain r2 t2 where b: "find_jobs_rules lib w rs mid = (r2, t2)"
      by (cases "find_jobs_rules lib w rs mid")
    from a b Inr Cons.prems have "t = t1 @ t2" by simp
    with find_jobs_folders_events [OF a] Cons.IH [OF b] show ?thesis by simp
  qed
qed

lemma find_jobs_events:
  "find_jobs lib w rules = (res, t) \<Longrightarrow> runs t = [] \<and> parses t = [] \<and> printed t = []"
  by (auto simp: find_jobs_def split: sum.splits prod.splits dest: find_jobs_rules_events)

subsection \<open>The order of the jobs\<close>

lemma mset_concat_map_cong:
  "mset xs = mset ys \<Longrightarrow> mset (concat (map g xs)) = mset (concat (map g ys))"
proof -
  assume a: "mset xs = mset ys"
  have "\<And>zs. mset (concat (map g zs)) = (\<Sum>z\<in>#mset zs. mset (g z))"
    by (simp add: mset_concat sum_mset_sum_list [symmetric] image_mset.compositionality comp_def)
  with a show ?thesis by simp
qed

lemma sorted_paths_of_find_jobs:
  "find_jobs lib w rules = (Inr jobs, t) \<Longrightarrow> sorted (map path jobs)"
  by (drule find_jobs_Inr) simp

subsection \<open>What all_pathes yields\<close>

lemma in_generator_idem [simp]: "in_generator (in_generator e) = in_generator e"
  by (simp add: in_generator_def)

lemma glob_dotted:
  "glob lib w d ''*.*'' =
     (case is_dir lib w d of
        Inl e \<Rightarrow> Inl (in_generator e)
      | Inr dir \<Rightarrow>
          if dir
          then (case scandir lib w d of
                  Inl e \<Rightarrow> if e = ''PermissionError'' then Inr [] else Inl (in_generator e)
                | Inr entries \<Rightarrow>
                    Inr [d @ [name]. (name, kind) \<leftarrow> entries, CHR ''.'' \<in> set name])
          else Inr [])"
  by (simp add: glob_def fnmatch_star_dot_star split: sum.splits)

lemma in_dotted:
  "(p \<in> set [d @ [name]. (name, kind) \<leftarrow> entries, CHR ''.'' \<in> set name]) =
     (\<exists>name kind. (name, kind) \<in> set entries \<and> CHR ''.'' \<in> set name \<and> p = d @ [name])"
  by (induction entries) auto

lemma in_folder_paths:
  "(p \<in> set (case (case expanduser lib w folder of
                      Inl e \<Rightarrow> Inl (in_generator e)
                    | Inr d \<Rightarrow>
                        (case glob lib w d ''*.*'' of
                           Inl e \<Rightarrow> Inl (in_generator e)
                         | Inr ps \<Rightarrow> Inr ps)) of
                 Inl e \<Rightarrow> []
               | Inr ps \<Rightarrow> ps)) =
     (\<exists>d entries name kind.
        expanduser lib w folder = Inr d \<and> is_dir lib w d = Inr True \<and>
        scandir lib w d = Inr entries \<and>
        (name, kind) \<in> set entries \<and> CHR ''.'' \<in> set name \<and> p = d @ [name])"
proof (cases "expanduser lib w folder")
  case (Inl e)
  then show ?thesis by simp
next
  case (Inr d)
  show ?thesis
  proof (cases "is_dir lib w d")
    case (Inl e)
    with Inr show ?thesis by (simp add: glob_dotted)
  next
    case dir: (Inr dir)
    show ?thesis
    proof (cases dir)
      case False
      with Inr dir show ?thesis by (simp add: glob_dotted)
    next
      case True
      show ?thesis
      proof (cases "scandir lib w d")
        case (Inl e)
        with Inr dir True show ?thesis by (simp add: glob_dotted)
      next
        case entries: (Inr entries)
        have "glob lib w d ''*.*'' =
                Inr [d @ [name]. (name, kind) \<leftarrow> entries, CHR ''.'' \<in> set name]"
          using dir True entries by (simp add: glob_dotted)
        with Inr dir True entries show ?thesis
          by (simp only: sum.case in_dotted) simp
      qed
    qed
  qed
qed

lemma in_enumerated:
  "(p \<in> set (enumerated lib w r)) =
     (\<exists>folder\<in>set (folders r). \<exists>d entries name kind.
        expanduser lib w folder = Inr d \<and> is_dir lib w d = Inr True \<and>
        scandir lib w d = Inr entries \<and>
        (name, kind) \<in> set entries \<and> CHR ''.'' \<in> set name \<and> p = d @ [name])"
proof -
  have "set (enumerated lib w r) =
          (\<Union>folder\<in>set (folders r).
             set (case (case expanduser lib w folder of
                          Inl e \<Rightarrow> Inl (in_generator e)
                        | Inr d \<Rightarrow>
                            (case glob lib w d ''*.*'' of
                               Inl e \<Rightarrow> Inl (in_generator e)
                             | Inr ps \<Rightarrow> Inr ps)) of
                    Inl e \<Rightarrow> []
                  | Inr ps \<Rightarrow> ps))"
    by (simp only: enumerated_def all_pathes_def set_concat set_map image_image)
  then show ?thesis
    by (simp only: UN_iff in_folder_paths)
qed

subsection \<open>The chain of actions\<close>

lemma chain_not_Nil [simp]: "chain cur outs \<noteq> []"
  by (cases outs) simp_all

lemma last_chain: "last (chain cur outs) = last (cur # map the (filter (\<lambda>out. out \<noteq> None) outs))"
  by (induction outs arbitrary: cur) (auto split: option.splits)

lemma run_inputs_simps [simp]:
  "run_inputs [] = []"
  "run_inputs (Run a p fa s out # t) = p # run_inputs t"
  by (simp_all add: run_inputs_def)

lemma run_returns_simps [simp]:
  "run_returns [] = []"
  "run_returns (Run a p fa s (Inl e) # t) = None # run_returns t"
  "run_returns (Run a p fa s (Inr np) # t) = np # run_returns t"
  by (simp_all add: run_returns_def)

lemma run_actions_chain:
  "run_actions simulate fa as cur w = (res, w', t) \<Longrightarrow>
     run_inputs t = butlast (chain cur (run_returns t)) \<and>
     prefix (map fst (runs t)) (map aid as) \<and>
     (\<forall>final. res = Inr final \<longrightarrow>
        final = last (chain cur (run_returns t)) \<and> map fst (runs t) = map aid as)"
proof (induction as arbitrary: cur w res w' t)
  case Nil
  then show ?case by auto
next
  case (Cons a as)
  obtain out w1 where r: "run a cur fa simulate w = (out, w1)"
    by (cases "run a cur fa simulate w")
  show ?case
  proof (cases out)
    case (Inl e)
    with r Cons.prems show ?thesis by auto
  next
    case (Inr np)
    let ?cur = "case np of None \<Rightarrow> cur | Some q \<Rightarrow> q"
    obtain res2 w2 t2 where rec: "run_actions simulate fa as ?cur w1 = (res2, w2, t2)"
      by (cases "run_actions simulate fa as ?cur w1")
    from r Inr rec Cons.prems have eq: "res = res2" "t = Run (aid a) cur fa simulate (Inr np) # t2"
      by simp_all
    from Cons.IH [OF rec] eq show ?thesis by simp
  qed
qed

lemma run_actions_events:
  "run_actions simulate fa as cur w = (res, w', t) \<Longrightarrow>
     parses t = [] \<and> printed t = [] \<and>
     (\<forall>(a, p, b, s, out)\<in>set (runs t). b = fa \<and> s = simulate) \<and>
     prefix (calls t) (map (\<lambda>a. RunCall (aid a)) as) \<and>
     (\<forall>final. res = Inr final \<longrightarrow> calls t = map (\<lambda>a. RunCall (aid a)) as)"
proof (induction as arbitrary: cur w res w' t)
  case Nil
  then show ?case by auto
next
  case (Cons a as)
  obtain out w1 where r: "run a cur fa simulate w = (out, w1)"
    by (cases "run a cur fa simulate w")
  show ?case
  proof (cases out)
    case (Inl e)
    with r Cons.prems show ?thesis by auto
  next
    case (Inr np)
    let ?cur = "case np of None \<Rightarrow> cur | Some q \<Rightarrow> q"
    obtain res2 w2 t2 where rec: "run_actions simulate fa as ?cur w1 = (res2, w2, t2)"
      by (cases "run_actions simulate fa as ?cur w1")
    from r Inr rec Cons.prems have eq: "res = res2" "t = Run (aid a) cur fa simulate (Inr np) # t2"
      by simp_all
    from Cons.IH [OF rec] eq show ?thesis by simp
  qed
qed

lemma run_actions_mutated:
  "run_actions simulate fa as cur w = (res, w', t) \<Longrightarrow> set as \<subseteq> A \<Longrightarrow>
     mutated_by A simulate w0 w \<Longrightarrow> mutated_by A simulate w0 w'"
proof (induction as arbitrary: cur w res w' t)
  case Nil
  then show ?case by simp
next
  case (Cons a as)
  obtain out w1 where r: "run a cur fa simulate w = (out, w1)"
    by (cases "run a cur fa simulate w")
  from Cons.prems(2) have a: "a \<in> A" and as: "set as \<subseteq> A" by simp_all
  have m1: "mutated_by A simulate w0 w1"
    by (rule mutated_by.after_run [OF Cons.prems(3) a r])
  show ?case
  proof (cases out)
    case (Inl e)
    with r Cons.prems(1) m1 show ?thesis by simp
  next
    case (Inr np)
    let ?cur = "case np of None \<Rightarrow> cur | Some q \<Rightarrow> q"
    obtain res2 w2 t2 where rec: "run_actions simulate fa as ?cur w1 = (res2, w2, t2)"
      by (cases "run_actions simulate fa as ?cur w1")
    from r Inr rec Cons.prems(1) have "w' = w2" by simp
    with Cons.IH [OF rec as m1] show ?thesis by simp
  qed
qed

subsection \<open>One job\<close>

text \<open>The four ways in which the body of the loop over the jobs can go.\<close>

lemma run_job_cases:
  assumes "run_job lib simulate j w = (res, w', t)"
  obtains
    (no_filter) "job_filters j = []" "res = Inl IndexError" "w' = w" "t = [LogInfo (path j)]"
  | (parse_raises) f fs e where "job_filters j = f # fs" "parse f w (path j) = Inl e"
      "res = Inl (Raised e)" "w' = w" "t = [LogInfo (path j), Parse (fid f) (path j) (Inl e)]"
  | (resolve_raises) f fs fa e where "job_filters j = f # fs" "parse f w (path j) = Inr fa"
      "resolve lib w (path j) = Inl e" "res = Inl (Raised e)" "w' = w"
      "t = [LogInfo (path j), Parse (fid f) (path j) (Inr fa)]"
  | (actions_run) f fs fa cur t2 where "job_filters j = f # fs" "parse f w (path j) = Inr fa"
      "resolve lib w (path j) = Inr cur"
      "run_actions simulate fa (job_actions j) cur w = (res, w', t2)"
      "t = LogInfo (path j) # Parse (fid f) (path j) (Inr fa) # t2"
proof (cases "job_filters j")
  case Nil
  with assms have "res = Inl IndexError" "w' = w" "t = [LogInfo (path j)]"
    by (simp_all add: run_job_def first_def)
  with Nil show ?thesis by (rule no_filter)
next
  case (Cons f fs)
  show ?thesis
  proof (cases "parse f w (path j)")
    case (Inl e)
    with Cons assms have "res = Inl (Raised e)" "w' = w"
      "t = [LogInfo (path j), Parse (fid f) (path j) (Inl e)]"
      by (simp_all add: run_job_def first_def)
    with Cons Inl show ?thesis by (rule parse_raises)
  next
    case fa: (Inr fa)
    show ?thesis
    proof (cases "resolve lib w (path j)")
      case (Inl e)
      with Cons fa assms have "res = Inl (Raised e)" "w' = w"
        "t = [LogInfo (path j), Parse (fid f) (path j) (Inr fa)]"
        by (simp_all add: run_job_def first_def)
      with Cons fa Inl show ?thesis by (rule resolve_raises)
    next
      case (Inr cur)
      obtain res2 w2 t2 where r: "run_actions simulate fa (job_actions j) cur w = (res2, w2, t2)"
        by (cases "run_actions simulate fa (job_actions j) cur w")
      with Cons fa Inr assms have "res = res2" "w' = w2"
        "t = LogInfo (path j) # Parse (fid f) (path j) (Inr fa) # t2"
        by (simp_all add: run_job_def first_def)
      with Cons fa Inr r show ?thesis by (auto intro: actions_run)
    qed
  qed
qed

lemma run_job_parses:
  assumes "run_job lib simulate j w = (res, w', t)"
  shows "parses t =
           (case job_filters j of [] \<Rightarrow> [] | f # fs \<Rightarrow> [(fid f, path j, parse f w (path j))])"
  using assms
proof (cases rule: run_job_cases)
  case (actions_run f fs fa cur t2)
  with run_actions_events [OF actions_run(4)] show ?thesis by simp
qed simp_all

lemma run_job_bundle:
  assumes "run_job lib simulate j w = (res, w', t)"
  shows "\<forall>(a, p, fa, s, out)\<in>set (runs t).
           s = simulate \<and> (\<exists>f fs. job_filters j = f # fs \<and> parse f w (path j) = Inr fa)"
  using assms
proof (cases rule: run_job_cases)
  case (actions_run f fs fa cur t2)
  with run_actions_events [OF actions_run(4)] show ?thesis by auto
qed simp_all

lemma run_jobs_parses:
  "run_jobs lib simulate js w = (res, w', t) \<Longrightarrow>
     \<forall>(i, p, r)\<in>set (parses t). \<exists>j\<in>set js. \<exists>f fs. job_filters j = f # fs \<and> i = fid f \<and> p = path j"
proof (induction js arbitrary: w res w' t)
  case Nil
  then show ?case by simp
next
  case (Cons j js)
  obtain r1 w1 t1 where a: "run_job lib simulate j w = (r1, w1, t1)"
    by (cases "run_job lib simulate j w")
  have p1: "\<forall>(i, p, r)\<in>set (parses t1). \<exists>f fs. job_filters j = f # fs \<and> i = fid f \<and> p = path j"
  proof (cases "job_filters j")
    case Nil
    with run_job_parses [OF a] show ?thesis by simp
  next
    case (Cons f fs)
    with run_job_parses [OF a] show ?thesis by simp
  qed
  show ?case
  proof (cases r1)
    case (Inl e)
    with a Cons.prems have "t = t1" by simp
    with p1 show ?thesis by auto
  next
    case (Inr final)
    obtain r2 w2 t2 where b: "run_jobs lib simulate js w1 = (r2, w2, t2)"
      by (cases "run_jobs lib simulate js w1")
    with a Inr Cons.prems have "t = t1 @ t2" by simp
    with p1 Cons.IH [OF b] show ?thesis by auto
  qed
qed

lemma execute_rules_cases:
  assumes "execute_rules lib rules simulate w = (res, w', t)"
  obtains
    (discovery_raises) e where "find_jobs lib w rules = (Inl e, t)" "res = Inl e" "w' = w"
  | (no_jobs) tf where "find_jobs lib w rules = (Inr [], tf)" "res = Inr ()" "w' = w"
      "t = tf @ [Print ''Nothing to do.'']"
  | (jobs_run) jobs tf t2 where "find_jobs lib w rules = (Inr jobs, tf)" "jobs \<noteq> []"
      "run_jobs lib simulate jobs w = (res, w', t2)"
      "t = tf @ LogDebug (map job_repr jobs) # t2"
proof -
  obtain r1 tf where a: "find_jobs lib w rules = (r1, tf)"
    by (cases "find_jobs lib w rules")
  show ?thesis
  proof (cases r1)
    case (Inl e)
    with a assms have e: "res = Inl e" "w' = w" "t = tf" by (simp_all add: execute_rules_def)
    from a Inl e have "find_jobs lib w rules = (Inl e, t)" by simp
    then show ?thesis using e(1,2) by (rule discovery_raises)
  next
    case (Inr jobs)
    show ?thesis
    proof (cases "jobs = []")
      case True
      with a Inr assms have e: "res = Inr ()" "w' = w" "t = tf @ [Print ''Nothing to do.'']"
        by (simp_all add: execute_rules_def)
      from a Inr True have "find_jobs lib w rules = (Inr [], tf)" by simp
      then show ?thesis using e by (rule no_jobs)
    next
      case False
      obtain r2 w2 t2 where b: "run_jobs lib simulate jobs w = (r2, w2, t2)"
        by (cases "run_jobs lib simulate jobs w")
      with a Inr False assms have e: "res = r2" "w' = w2"
        "t = tf @ LogDebug (map job_repr jobs) # t2"
        by (simp_all add: execute_rules_def)
      from a Inr have "find_jobs lib w rules = (Inr jobs, tf)" by simp
      moreover from b e have "run_jobs lib simulate jobs w = (res, w', t2)" by simp
      ultimately show ?thesis using False e(3) by (auto intro: jobs_run)
    qed
  qed
qed

subsection \<open>The calls, the output and the world of a run\<close>

lemma run_job_calls:
  assumes "run_job lib simulate j w = (res, w', t)"
  shows "prefix (calls t) (job_calls j) \<and> (\<forall>final. res = Inr final \<longrightarrow> calls t = job_calls j) \<and>
         printed t = [LogInfo (path j)]"
  using assms
proof (cases rule: run_job_cases)
  case (actions_run f fs fa cur t2)
  with run_actions_events [OF actions_run(4)] show ?thesis by (simp add: job_calls_def)
qed (simp_all add: job_calls_def)

lemma run_job_mutated:
  assumes "run_job lib simulate j w = (res, w', t)" and "set (job_actions j) \<subseteq> A"
    and "mutated_by A simulate w0 w"
  shows "mutated_by A simulate w0 w'"
  using assms(1)
proof (cases rule: run_job_cases)
  case (actions_run f fs fa cur t2)
  from run_actions_mutated [OF actions_run(4) assms(2,3)] show ?thesis .
qed (simp_all add: assms(3))

lemma run_jobs_flags:
  "run_jobs lib simulate js w = (res, w', t) \<Longrightarrow> \<forall>(a, p, fa, s, out)\<in>set (runs t). s = simulate"
proof (induction js arbitrary: w res w' t)
  case Nil
  then show ?case by simp
next
  case (Cons j js)
  obtain r1 w1 t1 where a: "run_job lib simulate j w = (r1, w1, t1)"
    by (cases "run_job lib simulate j w")
  from run_job_bundle [OF a] have f1: "\<forall>(a, p, fa, s, out)\<in>set (runs t1). s = simulate"
    by fast
  show ?case
  proof (cases r1)
    case (Inl e)
    with a Cons.prems have "t = t1" by simp
    with f1 show ?thesis by simp
  next
    case (Inr final)
    obtain r2 w2 t2 where b: "run_jobs lib simulate js w1 = (r2, w2, t2)"
      by (cases "run_jobs lib simulate js w1")
    with a Inr Cons.prems have "t = t1 @ t2" by simp
    with f1 Cons.IH [OF b] show ?thesis by auto
  qed
qed

lemma run_jobs_calls:
  "run_jobs lib simulate js w = (res, w', t) \<Longrightarrow>
     prefix (calls t) (concat (map job_calls js)) \<and>
     prefix (printed t) (map LogInfo (map path js)) \<and>
     (res = Inr () \<longrightarrow>
        calls t = concat (map job_calls js) \<and> printed t = map LogInfo (map path js))"
proof (induction js arbitrary: w res w' t)
  case Nil
  then show ?case by simp
next
  case (Cons j js)
  obtain r1 w1 t1 where a: "run_job lib simulate j w = (r1, w1, t1)"
    by (cases "run_job lib simulate j w")
  note c1 = run_job_calls [OF a]
  show ?case
  proof (cases r1)
    case (Inl e)
    with a Cons.prems have "t = t1" "res = Inl e" by simp_all
    with c1 show ?thesis by (auto intro: prefix_order.trans)
  next
    case (Inr final)
    obtain r2 w2 t2 where b: "run_jobs lib simulate js w1 = (r2, w2, t2)"
      by (cases "run_jobs lib simulate js w1")
    with a Inr Cons.prems have "t = t1 @ t2" "res = r2" by simp_all
    with c1 Inr Cons.IH [OF b] show ?thesis by simp
  qed
qed

lemma run_jobs_mutated:
  "run_jobs lib simulate js w = (res, w', t) \<Longrightarrow> \<forall>j\<in>set js. set (job_actions j) \<subseteq> A \<Longrightarrow>
     mutated_by A simulate w0 w \<Longrightarrow> mutated_by A simulate w0 w'"
proof (induction js arbitrary: w res w' t)
  case Nil
  then show ?case by simp
next
  case (Cons j js)
  obtain r1 w1 t1 where a: "run_job lib simulate j w = (r1, w1, t1)"
    by (cases "run_job lib simulate j w")
  from Cons.prems(2) have sub: "set (job_actions j) \<subseteq> A" "\<forall>j\<in>set js. set (job_actions j) \<subseteq> A"
    by simp_all
  note m1 = run_job_mutated [OF a sub(1) Cons.prems(3)]
  show ?case
  proof (cases r1)
    case (Inl e)
    with a Cons.prems(1) have "w' = w1" by simp
    with m1 show ?thesis by simp
  next
    case (Inr final)
    obtain r2 w2 t2 where b: "run_jobs lib simulate js w1 = (r2, w2, t2)"
      by (cases "run_jobs lib simulate js w1")
    with a Inr Cons.prems(1) have "w' = w2" by simp
    with Cons.IH [OF b sub(2) m1] show ?thesis by simp
  qed
qed

lemma find_jobs_actions:
  assumes "find_jobs lib w rules = (Inr jobs, t)" and "j \<in> set jobs"
  shows "set (job_actions j) \<subseteq> (\<Union>r\<in>set rules. set (actions r))"
  using assms(2) unfolding in_find_jobs [OF assms(1)] by auto

lemma execute_rules_planned:
  assumes "execute_rules lib rules simulate w = (res, w', t)"
  shows "prefix (calls t) (planned_calls lib w rules) \<and>
         (res = Inr () \<longrightarrow> calls t = planned_calls lib w rules)"
  using assms
proof (cases rule: execute_rules_cases)
  case (discovery_raises e)
  then show ?thesis by (simp add: planned_calls_def)
next
  case (no_jobs tf)
  then show ?thesis by (simp add: planned_calls_def)
next
  case (jobs_run jobs tf t2)
  with run_jobs_calls [OF jobs_run(3)] show ?thesis by (simp add: planned_calls_def)
qed

subsection \<open>Jobs for the same path\<close>

lemma filter_path_jobs_of:
  assumes "p \<in> set ps" and "accepts w (filters r) p"
  shows "\<exists>A B. filter (\<lambda>j. path j = p) (jobs_of w r ps) = A @ Job p (filters r) (actions r) # B"
proof -
  from assms(1) obtain e1 e2 where ps: "ps = e1 @ p # e2"
    by (auto dest: split_list)
  have "filter (\<lambda>j. path j = p) (jobs_of w r ps) =
          filter (\<lambda>j. path j = p) (jobs_of w r e1) @ Job p (filters r) (actions r) #
          filter (\<lambda>j. path j = p) (jobs_of w r e2)"
    using assms(2) by (simp add: ps jobs_of_Cons)
  then show ?thesis by blast
qed

lemma find_jobs_same_path:
  assumes fj: "find_jobs lib w rules = (Inr jobs, tf)"
  shows "filter (\<lambda>j. path j = p) jobs =
           filter (\<lambda>j. path j = p) (concat (map (\<lambda>r. jobs_of w r (enumerated lib w r)) rules))"
  unfolding find_jobs_Inr [OF fj] by (rule sort_key_stable)

lemma two_rules_split:
  assumes "i < k" and "k < length rules"
  shows "\<exists>xs ys zs. rules = xs @ rules ! i # ys @ rules ! k # zs"
proof -
  from assms have i: "i < length rules" by simp
  have 1: "rules = take i rules @ rules ! i # drop (Suc i) rules"
    by (rule id_take_nth_drop [OF i])
  let ?rest = "drop (Suc i) rules"
  from assms have k: "k - Suc i < length ?rest" by simp
  have 2: "?rest = take (k - Suc i) ?rest @ ?rest ! (k - Suc i) # drop (Suc (k - Suc i)) ?rest"
    by (rule id_take_nth_drop [OF k])
  from assms have 3: "?rest ! (k - Suc i) = rules ! k" by simp
  from 1 2 3 show ?thesis by metis
qed

lemma filter_split:
  "filter P xs = A @ a # B \<Longrightarrow> \<exists>X Z. xs = X @ a # Z \<and> filter P X = A \<and> filter P Z = B"
proof (induction xs arbitrary: A)
  case Nil
  then show ?case by simp
next
  case (Cons x xs)
  show ?case
  proof (cases "P x")
    case False
    with Cons.prems have "filter P xs = A @ a # B" by simp
    from Cons.IH [OF this] obtain X Z where
      "xs = X @ a # Z" "filter P X = A" "filter P Z = B" by blast
    with False have "x # xs = (x # X) @ a # Z \<and> filter P (x # X) = A \<and> filter P Z = B"
      by simp
    then show ?thesis by blast
  next
    case True
    show ?thesis
    proof (cases A)
      case Nil
      with True Cons.prems have "x # xs = [] @ a # xs \<and> filter P [] = A \<and> filter P xs = B"
        by simp
      then show ?thesis by blast
    next
      case A: (Cons a0 A')
      with True Cons.prems have x: "x = a0" and "filter P xs = A' @ a # B" by simp_all
      from Cons.IH [OF this(2)] obtain X Z where
        "xs = X @ a # Z" "filter P X = A'" "filter P Z = B" by blast
      with True x A have "x # xs = (x # X) @ a # Z \<and> filter P (x # X) = A \<and> filter P Z = B"
        by simp
      then show ?thesis by blast
    qed
  qed
qed

lemma filter_split_two:
  assumes "filter P xs = A @ a # B @ b # C"
  shows "\<exists>X Y Z. xs = X @ a # Y @ b # Z"
proof -
  from filter_split [OF assms] obtain X Z where
    xs: "xs = X @ a # Z" and z: "filter P Z = B @ b # C" by blast
  from filter_split [OF z] obtain Y Z' where "Z = Y @ b # Z'" by blast
  with xs show ?thesis by blast
qed

subsection \<open>Where a run stops\<close>

lemma run_jobs_Inr_filters:
  "run_jobs lib simulate js w = (Inr u, w', t) \<Longrightarrow> \<forall>j\<in>set js. job_filters j \<noteq> []"
proof (induction js arbitrary: w w' t)
  case Nil
  then show ?case by simp
next
  case (Cons j js)
  obtain r1 w1 t1 where a: "run_job lib simulate j w = (r1, w1, t1)"
    by (cases "run_job lib simulate j w")
  show ?case
  proof (cases r1)
    case (Inl e)
    with a Cons.prems show ?thesis by simp
  next
    case (Inr final)
    obtain r2 w2 t2 where b: "run_jobs lib simulate js w1 = (r2, w2, t2)"
      by (cases "run_jobs lib simulate js w1")
    with a Inr Cons.prems have r2: "r2 = Inr u" by simp
    from a Inr have "job_filters j \<noteq> []"
      by (auto simp: run_job_def first_def split: if_splits)
    with Cons.IH [OF b [unfolded r2]] show ?thesis by simp
  qed
qed


lemma run_actions_append:
  "run_actions simulate fa (as1 @ as2) cur w =
     (case run_actions simulate fa as1 cur w of
        (Inl e, w1, t1) \<Rightarrow> (Inl e, w1, t1)
      | (Inr c1, w1, t1) \<Rightarrow>
          (case run_actions simulate fa as2 c1 w1 of (res, w2, t2) \<Rightarrow> (res, w2, t1 @ t2)))"
proof (induction as1 arbitrary: cur w)
  case Nil
  show ?case by (simp split: prod.splits)
next
  case (Cons a as1)
  obtain out w1 where r: "run a cur fa simulate w = (out, w1)"
    by (cases "run a cur fa simulate w")
  show ?case
  proof (cases out)
    case (Inl e)
    with r show ?thesis by simp
  next
    case (Inr np)
    with r Cons.IH show ?thesis
      by (simp split: prod.splits sum.splits)
  qed
qed

lemma run_jobs_append:
  "run_jobs lib simulate (js1 @ js2) w =
     (case run_jobs lib simulate js1 w of
        (Inl e, w1, t1) \<Rightarrow> (Inl e, w1, t1)
      | (Inr u, w1, t1) \<Rightarrow>
          (case run_jobs lib simulate js2 w1 of (res, w2, t2) \<Rightarrow> (res, w2, t1 @ t2)))"
proof (induction js1 arbitrary: w)
  case Nil
  show ?case by (simp split: prod.splits)
next
  case (Cons j js1)
  obtain r1 w1 t1 where a: "run_job lib simulate j w = (r1, w1, t1)"
    by (cases "run_job lib simulate j w")
  show ?case
  proof (cases r1)
    case (Inl e)
    with a show ?thesis by simp
  next
    case (Inr final)
    with a Cons.IH show ?thesis
      by (simp split: prod.splits sum.splits)
  qed
qed

lemma all_matches_raises:
  "\<forall>h\<in>set fs1. matches h w p = Inr True \<Longrightarrow> matches g w p = Inl e \<Longrightarrow>
     all_matches w (fs1 @ g # fs2) p =
       (Inl (Raised (in_generator e)),
        map (\<lambda>h. Matches (fid h) p (Inr True)) fs1 @ [Matches (fid g) p (Inl e)])"
  by (induction fs1) (auto split: prod.splits)

lemma find_jobs_paths_asked:
  "find_jobs_paths w r ps result = (Inr res, t) \<Longrightarrow> p \<in> set ps \<Longrightarrow>
     \<exists>ok. fst (all_matches w (filters r) p) = Inr ok"
proof (induction ps arbitrary: result t)
  case Nil
  then show ?case by simp
next
  case (Cons q ps)
  from Cons.prems(1) obtain ok t1 t2 where
    a: "all_matches w (filters r) q = (Inr ok, t1)" and
    b: "find_jobs_paths w r ps
          (if ok then result @ [Job q (filters r) (actions r)] else result) = (Inr res, t2)"
    by (auto split: sum.splits prod.splits)
  show ?case
  proof (cases "p = q")
    case True
    with a show ?thesis by simp
  next
    case False
    with Cons.prems(2) have "p \<in> set ps" by simp
    from Cons.IH [OF b this] show ?thesis .
  qed
qed

lemma find_jobs_folders_asked:
  "find_jobs_folders w r cs result = (Inr res, t) \<Longrightarrow> Inr ps \<in> set cs \<Longrightarrow> p \<in> set ps \<Longrightarrow>
     \<exists>ok. fst (all_matches w (filters r) p) = Inr ok"
proof (induction cs arbitrary: result t)
  case Nil
  then show ?case by simp
next
  case (Cons c cs)
  from Cons.prems(1) obtain qs mid t1 t2 where
    c: "c = Inr qs" and
    a: "find_jobs_paths w r qs result = (Inr mid, t1)" and
    b: "find_jobs_folders w r cs mid = (Inr res, t2)"
    by (auto split: sum.splits prod.splits)
  show ?case
  proof (cases "Inr ps = c")
    case True
    with c Cons.prems(3) have "p \<in> set qs" by simp
    from find_jobs_paths_asked [OF a this] show ?thesis .
  next
    case False
    with Cons.prems(2) have "Inr ps \<in> set cs" by simp
    from Cons.IH [OF b this Cons.prems(3)] show ?thesis .
  qed
qed

lemma find_jobs_rules_asked:
  "find_jobs_rules lib w rs result = (Inr res, t) \<Longrightarrow> r \<in> set rs \<Longrightarrow>
     Inr ps \<in> set (all_pathes lib w r) \<Longrightarrow> p \<in> set ps \<Longrightarrow>
     \<exists>ok. fst (all_matches w (filters r) p) = Inr ok"
proof (induction rs arbitrary: result t)
  case Nil
  then show ?case by simp
next
  case (Cons r' rs)
  from Cons.prems(1) obtain mid t1 t2 where
    a: "find_jobs_folders w r' (all_pathes lib w r') result = (Inr mid, t1)" and
    b: "find_jobs_rules lib w rs mid = (Inr res, t2)"
    by (auto split: sum.splits prod.splits)
  show ?case
  proof (cases "r = r'")
    case True
    with find_jobs_folders_asked [OF a] Cons.prems(3,4) show ?thesis by blast
  next
    case False
    with Cons.prems(2) have "r \<in> set rs" by simp
    from Cons.IH [OF b this Cons.prems(3,4)] show ?thesis .
  qed
qed

lemma in_enumerated_chunk:
  "p \<in> set (enumerated lib w r) \<Longrightarrow> \<exists>ps. Inr ps \<in> set (all_pathes lib w r) \<and> p \<in> set ps"
  by (auto simp: enumerated_def split: sum.splits)

lemma find_jobs_asked:
  assumes "find_jobs lib w rules = (Inr jobs, t)" and "r \<in> set rules"
    and "p \<in> set (enumerated lib w r)"
  shows "\<exists>ok. fst (all_matches w (filters r) p) = Inr ok"
proof -
  from assms(1) obtain res where a: "find_jobs_rules lib w rules [] = (Inr res, t)"
    by (auto simp: find_jobs_def split: sum.splits prod.splits)
  from in_enumerated_chunk [OF assms(3)] obtain ps where
    "Inr ps \<in> set (all_pathes lib w r)" "p \<in> set ps" by blast
  from find_jobs_rules_asked [OF a assms(2) this] show ?thesis .
qed

lemma find_jobs_total:
  "(\<exists>jobs t. find_jobs lib w rules = (Inr jobs, t)) \<or> (\<exists>err t. find_jobs lib w rules = (Inl err, t))"
  by (cases "find_jobs lib w rules") (metis sum.exhaust)

subsection \<open>Where discovery stops\<close>

text \<open>
  Whether the loops of \<^verbatim>\<open>find_jobs\<close> end normally, and the events they leave, do not
  depend on the jobs collected so far.
\<close>

lemma find_jobs_paths_acc:
  "find_jobs_paths w r ps acc =
     (case find_jobs_paths w r ps [] of
        (Inl e, t) \<Rightarrow> (Inl e, t)
      | (Inr js, t) \<Rightarrow> (Inr (acc @ js), t))"
proof (induction ps arbitrary: acc)
  case Nil
  show ?case by simp
next
  case (Cons p ps)
  obtain r1 t1 where a: "all_matches w (filters r) p = (r1, t1)"
    by (cases "all_matches w (filters r) p")
  show ?case
  proof (cases r1)
    case (Inl e)
    with a show ?thesis by simp
  next
    case (Inr ok)
    let ?J = "Job p (filters r) (actions r)"
    note 1 = Cons.IH [of "if ok then acc @ [?J] else acc"]
    note 2 = Cons.IH [of "if ok then [] @ [?J] else []"]
    obtain r0 t0 where b: "find_jobs_paths w r ps [] = (r0, t0)"
      by (cases "find_jobs_paths w r ps []")
    show ?thesis
    proof (cases r0)
      case (Inl e)
      with a Inr b 1 2 show ?thesis by simp
    next
      case js: (Inr js)
      with a Inr b 1 2 show ?thesis by simp
    qed
  qed
qed

lemma find_jobs_paths_append:
  "find_jobs_paths w r (ps1 @ ps2) acc =
     (case find_jobs_paths w r ps1 acc of
        (Inl e, t) \<Rightarrow> (Inl e, t)
      | (Inr mid, t) \<Rightarrow>
          (case find_jobs_paths w r ps2 mid of (res, t') \<Rightarrow> (res, t @ t')))"
proof (induction ps1 arbitrary: acc)
  case Nil
  show ?case by (simp split: prod.splits)
next
  case (Cons p ps1)
  obtain r1 t1 where a: "all_matches w (filters r) p = (r1, t1)"
    by (cases "all_matches w (filters r) p")
  show ?case
  proof (cases r1)
    case (Inl e)
    with a show ?thesis by simp
  next
    case (Inr ok)
    with a Cons.IH show ?thesis
      by (simp split: prod.splits sum.splits)
  qed
qed

lemma find_jobs_folders_acc:
  "find_jobs_folders w r cs acc =
     (case find_jobs_folders w r cs [] of
        (Inl e, t) \<Rightarrow> (Inl e, t)
      | (Inr js, t) \<Rightarrow> (Inr (acc @ js), t))"
proof (induction cs arbitrary: acc)
  case Nil
  show ?case by simp
next
  case (Cons c cs)
  show ?case
  proof (cases c)
    case (Inl e)
    then show ?thesis by simp
  next
    case (Inr ps)
    obtain r0 t0 where b: "find_jobs_paths w r ps [] = (r0, t0)"
      by (cases "find_jobs_paths w r ps []")
    show ?thesis
    proof (cases r0)
      case (Inl e)
      with Inr b find_jobs_paths_acc [of w r ps acc] show ?thesis by simp
    next
      case js: (Inr js)
      obtain r2 t2 where c: "find_jobs_folders w r cs [] = (r2, t2)"
        by (cases "find_jobs_folders w r cs []")
      from js Inr b find_jobs_paths_acc [of w r ps acc]
      have 1: "find_jobs_paths w r ps acc = (Inr (acc @ js), t0)" by simp
      show ?thesis
      proof (cases r2)
        case (Inl e)
        with Inr b js 1 c Cons.IH [of "acc @ js"] Cons.IH [of js] show ?thesis by simp
      next
        case js2: (Inr js2)
        with Inr b js 1 c Cons.IH [of "acc @ js"] Cons.IH [of js] show ?thesis by simp
      qed
    qed
  qed
qed

lemma find_jobs_folders_append:
  "find_jobs_folders w r (cs1 @ cs2) acc =
     (case find_jobs_folders w r cs1 acc of
        (Inl e, t) \<Rightarrow> (Inl e, t)
      | (Inr mid, t) \<Rightarrow>
          (case find_jobs_folders w r cs2 mid of (res, t') \<Rightarrow> (res, t @ t')))"
proof (induction cs1 arbitrary: acc)
  case Nil
  show ?case by (simp split: prod.splits)
next
  case (Cons c cs1)
  show ?case
  proof (cases c)
    case (Inl e)
    then show ?thesis by simp
  next
    case (Inr ps)
    obtain r1 t1 where a: "find_jobs_paths w r ps acc = (r1, t1)"
      by (cases "find_jobs_paths w r ps acc")
    show ?thesis
    proof (cases r1)
      case (Inl e)
      with a Inr show ?thesis by simp
    next
      case mid: (Inr mid)
      with a Inr Cons.IH [of mid] show ?thesis
        by (simp split: prod.splits sum.splits)
    qed
  qed
qed

lemma find_jobs_rules_append:
  "find_jobs_rules lib w (rs1 @ rs2) acc =
     (case find_jobs_rules lib w rs1 acc of
        (Inl e, t) \<Rightarrow> (Inl e, t)
      | (Inr mid, t) \<Rightarrow>
          (case find_jobs_rules lib w rs2 mid of (res, t') \<Rightarrow> (res, t @ t')))"
proof (induction rs1 arbitrary: acc)
  case Nil
  show ?case by (simp split: prod.splits)
next
  case (Cons r rs1)
  obtain r1 t1 where a: "find_jobs_folders w r (all_pathes lib w r) acc = (r1, t1)"
    by (cases "find_jobs_folders w r (all_pathes lib w r) acc")
  show ?case
  proof (cases r1)
    case (Inl e)
    with a show ?thesis by simp
  next
    case (Inr mid)
    with a Cons.IH [of mid] show ?thesis
      by (simp split: prod.splits sum.splits)
  qed
qed

lemma find_jobs_rules_of_find_jobs:
  "find_jobs lib w rs = (Inr js, t) \<Longrightarrow> \<exists>u. find_jobs_rules lib w rs [] = (Inr u, t)"
  by (auto simp: find_jobs_def split: sum.splits prod.splits)

subsection \<open>Rules without filters, and the exceptions of the engine itself\<close>

lemma find_jobs_paths_no_filters:
  "filters r = [] \<Longrightarrow>
     find_jobs_paths w r ps result = (Inr (result @ map (\<lambda>p. Job p [] (actions r)) ps), [])"
  by (induction ps arbitrary: result) simp_all

lemma find_jobs_folders_no_filters:
  "filters r = [] \<Longrightarrow> \<forall>c\<in>set cs. \<exists>ps. c = Inr ps \<Longrightarrow>
     find_jobs_folders w r cs result =
       (Inr (result @ map (\<lambda>p. Job p [] (actions r))
                        (concat (map (\<lambda>c. case c of Inl e \<Rightarrow> [] | Inr ps \<Rightarrow> ps) cs))), [])"
proof (induction cs arbitrary: result)
  case Nil
  then show ?case by simp
next
  case (Cons c cs)
  from Cons.prems(2) obtain ps where c: "c = Inr ps" by auto
  from Cons.prems(2) have rest: "\<forall>c\<in>set cs. \<exists>ps. c = Inr ps" by simp
  from Cons.IH [OF Cons.prems(1) rest] c Cons.prems(1) show ?case
    by (simp add: find_jobs_paths_no_filters)
qed

lemma all_matches_Raised: "all_matches w fs p = (Inl err, t) \<Longrightarrow> \<exists>e. err = Raised e"
  by (induction fs arbitrary: t) (auto split: sum.splits if_splits prod.splits)

lemma find_jobs_paths_Raised:
  "find_jobs_paths w r ps result = (Inl err, t) \<Longrightarrow> \<exists>e. err = Raised e"
proof (induction ps arbitrary: result t)
  case Nil
  then show ?case by simp
next
  case (Cons p ps)
  obtain r1 t1 where a: "all_matches w (filters r) p = (r1, t1)"
    by (cases "all_matches w (filters r) p")
  show ?case
  proof (cases r1)
    case (Inl e)
    with a Cons.prems all_matches_Raised [of w "filters r" p err t1] show ?thesis by simp
  next
    case (Inr ok)
    obtain r2 t2 where b: "find_jobs_paths w r ps
          (if ok then result @ [Job p (filters r) (actions r)] else result) = (r2, t2)"
      by (cases "find_jobs_paths w r ps
          (if ok then result @ [Job p (filters r) (actions r)] else result)")
    with a Inr Cons.prems have "r2 = Inl err" by simp
    with b Cons.IH show ?thesis by blast
  qed
qed

lemma find_jobs_folders_Raised:
  "find_jobs_folders w r cs result = (Inl err, t) \<Longrightarrow> \<exists>e. err = Raised e"
proof (induction cs arbitrary: result t)
  case Nil
  then show ?case by simp
next
  case (Cons c cs)
  show ?case
  proof (cases c)
    case (Inl e)
    with Cons.prems show ?thesis by auto
  next
    case (Inr ps)
    obtain r1 t1 where a: "find_jobs_paths w r ps result = (r1, t1)"
      by (cases "find_jobs_paths w r ps result")
    show ?thesis
    proof (cases r1)
      case (Inl e)
      with a Inr Cons.prems find_jobs_paths_Raised [of w r ps result err t1] show ?thesis
        by simp
    next
      case mid: (Inr mid)
      obtain r2 t2 where b: "find_jobs_folders w r cs mid = (r2, t2)"
        by (cases "find_jobs_folders w r cs mid")
      with a mid Inr Cons.prems have "r2 = Inl err" by simp
      with b Cons.IH show ?thesis by blast
    qed
  qed
qed

lemma find_jobs_rules_Raised:
  "find_jobs_rules lib w rs result = (Inl err, t) \<Longrightarrow> \<exists>e. err = Raised e"
proof (induction rs arbitrary: result t)
  case Nil
  then show ?case by simp
next
  case (Cons r rs)
  obtain r1 t1 where a: "find_jobs_folders w r (all_pathes lib w r) result = (r1, t1)"
    by (cases "find_jobs_folders w r (all_pathes lib w r) result")
  show ?case
  proof (cases r1)
    case (Inl e)
    with a Cons.prems find_jobs_folders_Raised [of w r "all_pathes lib w r" result err t1]
    show ?thesis by simp
  next
    case (Inr mid)
    obtain r2 t2 where b: "find_jobs_rules lib w rs mid = (r2, t2)"
      by (cases "find_jobs_rules lib w rs mid")
    with a Inr Cons.prems have "r2 = Inl err" by simp
    with b Cons.IH show ?thesis by blast
  qed
qed

lemma find_jobs_Raised: "find_jobs lib w rules = (Inl err, t) \<Longrightarrow> \<exists>e. err = Raised e"
  by (auto simp: find_jobs_def split: sum.splits prod.splits dest: find_jobs_rules_Raised)

lemma run_actions_Raised:
  "run_actions simulate fa as cur w = (Inl err, w', t) \<Longrightarrow> \<exists>e. err = Raised e"
proof (induction as arbitrary: cur w w' t)
  case Nil
  then show ?case by simp
next
  case (Cons a as)
  obtain out w1 where r: "run a cur fa simulate w = (out, w1)"
    by (cases "run a cur fa simulate w")
  show ?case
  proof (cases out)
    case (Inl e)
    with r Cons.prems show ?thesis by auto
  next
    case (Inr np)
    let ?cur = "case np of None \<Rightarrow> cur | Some q \<Rightarrow> q"
    obtain res2 w2 t2 where rec: "run_actions simulate fa as ?cur w1 = (res2, w2, t2)"
      by (cases "run_actions simulate fa as ?cur w1")
    with r Inr Cons.prems have "res2 = Inl err" by simp
    with rec Cons.IH show ?thesis by blast
  qed
qed

lemma run_job_IndexError:
  "(fst (run_job lib simulate j w) = Inl IndexError) = (job_filters j = [])"
proof -
  obtain res w' t where a: "run_job lib simulate j w = (res, w', t)"
    by (cases "run_job lib simulate j w")
  from a show ?thesis
  proof (cases rule: run_job_cases)
    case no_filter
    with a show ?thesis by simp
  next
    case (parse_raises f fs e)
    with a show ?thesis by simp
  next
    case (resolve_raises f fs fa e)
    with a show ?thesis by simp
  next
    case (actions_run f fs fa cur t2)
    with a run_actions_Raised [of simulate fa "job_actions j" cur w _ w' t2] show ?thesis
      by auto
  qed
qed

lemma run_jobs_IndexError:
  "run_jobs lib simulate js w = (Inl IndexError, w', t) \<Longrightarrow> \<exists>j\<in>set js. job_filters j = []"
proof (induction js arbitrary: w w' t)
  case Nil
  then show ?case by simp
next
  case (Cons j js)
  obtain r1 w1 t1 where a: "run_job lib simulate j w = (r1, w1, t1)"
    by (cases "run_job lib simulate j w")
  show ?case
  proof (cases r1)
    case (Inl e)
    with a Cons.prems have "fst (run_job lib simulate j w) = Inl IndexError" by simp
    then show ?thesis by (simp add: run_job_IndexError)
  next
    case (Inr final)
    obtain r2 w2 t2 where b: "run_jobs lib simulate js w1 = (r2, w2, t2)"
      by (cases "run_jobs lib simulate js w1")
    with a Inr Cons.prems have "r2 = Inl IndexError" by simp
    with b Cons.IH show ?thesis by auto
  qed
qed

subsection \<open>The concrete installation, evaluated\<close>

lemma demo_rule_fields [simp]:
  "folders txt_rule = [[''~'']]"
  "filters txt_rule = [has_ext 1 ''.txt'']"
  "actions txt_rule = [move_to 1 [''/'', ''out''], echo 2, move_to 3 [''/'', ''arch'']]"
  "folders jpg_rule = [[''~'']]"
  "filters jpg_rule = [has_ext 2 ''.jpg'']"
  "actions jpg_rule = [echo 3, fragile 4, echo 5]"
  "folders a_rule = [[''~'']]"
  "filters a_rule = [has_ext 3 ''t'', has_ext 4 ''a.txt'']"
  "actions a_rule = [echo 6, echo 8]"
  "folders bare_rule = [[''~'']]"
  "filters bare_rule = []"
  "actions bare_rule = [echo 7]"
  "folders root_rule = [[''/'', ''root'']]"
  "filters root_rule = []"
  "actions root_rule = []"
  "folders sub_rule = [[''~''], [''/'', ''root'', ''sub'']]"
  "filters sub_rule = [has_ext 9 ''.jpg'']"
  "actions sub_rule = [echo 10]"
  "folders file_rule = [[''~'', ''a.txt'']]"
  "filters file_rule = []"
  "actions file_rule = []"
  "folders blind_rule = [[''~'']]"
  "filters blind_rule = [has_ext 7 ''.jpg'', unreadable 5]"
  "actions blind_rule = []"
  "folders spent_rule = [[''~'']]"
  "filters spent_rule = [exhausted 8]"
  "actions spent_rule = []"
  "folders opaque_rule = [[''~'']]"
  "filters opaque_rule = [opaque 6]"
  "actions opaque_rule = [echo 9]"
  by (simp_all add: txt_rule_def jpg_rule_def a_rule_def bare_rule_def root_rule_def
        sub_rule_def file_rule_def blind_rule_def spent_rule_def opaque_rule_def)

lemma demo_object_fields [simp]:
  "fid (has_ext i ext) = i"
  "matches (has_ext i ext) w p =
     Inr (p \<noteq> [] \<and> drop (length (last p) - length ext) (last p) = ext)"
  "parse (has_ext i ext) w p = Inr [(''ext'', ext)]"
  "fid (never i) = i"
  "matches (never i) w p = Inr False"
  "parse (never i) w p = Inr []"
  "fid (unreadable i) = i"
  "matches (unreadable i) w p = Inl ''OSError''"
  "parse (unreadable i) w p = Inl ''OSError''"
  "fid (exhausted i) = i"
  "matches (exhausted i) w p = Inl ''StopIteration''"
  "parse (exhausted i) w p = Inr []"
  "fid (opaque i) = i"
  "matches (opaque i) w p = Inr True"
  "parse (opaque i) w p = Inl ''ValueError''"
  "aid (move_to i dest) = i"
  "run (move_to i dest) p fa simulate w =
     (Inr (Some (dest @ [last p])),
      if simulate then w
      else map (\<lambda>(q, k). if q = p then (dest @ [last p], k) else (q, k)) w)"
  "aid (echo i) = i"
  "run (echo i) p fa simulate w = (Inr None, w)"
  "aid (fragile i) = i"
  "run (fragile i) p fa simulate w =
     (if simulate then (Inr None, w) else (Inl ''PermissionError'', w))"
  by (simp_all add: has_ext_def never_def unreadable_def exhausted_def opaque_def move_to_def
        echo_def fragile_def)

lemma home_listing:
  "folders r = [[''~'']] \<Longrightarrow>
     all_pathes demo_lib demo_world r =
       [Inr [[''/'', ''home'', ''a.txt''], [''/'', ''home'', ''b.jpg''], [''/'', ''home'', ''x.d'']]]"
  by (simp add: all_pathes_def demo_lib_def demo_world_def expanduser_def glob_def canon_def
        is_directory_def)

lemma home_enumerated:
  "folders r = [[''~'']] \<Longrightarrow>
     enumerated demo_lib demo_world r =
       [[''/'', ''home'', ''a.txt''], [''/'', ''home'', ''b.jpg''], [''/'', ''home'', ''x.d'']]"
  by (simp add: enumerated_def home_listing)

lemma find_jobs_txt_jpg:
  "find_jobs demo_lib demo_world [txt_rule, jpg_rule] =
     (Inr [Job [''/'', ''home'', ''a.txt''] (filters txt_rule) (actions txt_rule),
           Job [''/'', ''home'', ''b.jpg''] (filters jpg_rule) (actions jpg_rule)],
      [Matches 1 [''/'', ''home'', ''a.txt''] (Inr True),
       Matches 1 [''/'', ''home'', ''b.jpg''] (Inr False),
       Matches 1 [''/'', ''home'', ''x.d''] (Inr False),
       Matches 2 [''/'', ''home'', ''a.txt''] (Inr False),
       Matches 2 [''/'', ''home'', ''b.jpg''] (Inr True),
       Matches 2 [''/'', ''home'', ''x.d''] (Inr False)])"
  by (simp add: find_jobs_def home_listing)

lemma find_jobs_jpg_txt:
  "find_jobs demo_lib demo_world [jpg_rule, txt_rule] =
     (Inr [Job [''/'', ''home'', ''a.txt''] (filters txt_rule) (actions txt_rule),
           Job [''/'', ''home'', ''b.jpg''] (filters jpg_rule) (actions jpg_rule)],
      [Matches 2 [''/'', ''home'', ''a.txt''] (Inr False),
       Matches 2 [''/'', ''home'', ''b.jpg''] (Inr True),
       Matches 2 [''/'', ''home'', ''x.d''] (Inr False),
       Matches 1 [''/'', ''home'', ''a.txt''] (Inr True),
       Matches 1 [''/'', ''home'', ''b.jpg''] (Inr False),
       Matches 1 [''/'', ''home'', ''x.d''] (Inr False)])"
  by (simp add: find_jobs_def home_listing)

lemma find_jobs_never:
  "find_jobs demo_lib demo_world [txt_rule\<lparr>filters := [never 9]\<rparr>] =
     (Inr [],
      [Matches 9 [''/'', ''home'', ''a.txt''] (Inr False),
       Matches 9 [''/'', ''home'', ''b.jpg''] (Inr False),
       Matches 9 [''/'', ''home'', ''x.d''] (Inr False)])"
  by (simp add: find_jobs_def home_listing)

lemma run_job_txt:
  "run_job demo_lib False
     (Job [''/'', ''home'', ''a.txt''] (filters txt_rule) (actions txt_rule)) demo_world =
   (Inr [''/'', ''arch'', ''a.txt''],
    [([''/'', ''arch'', ''a.txt''], RegularFile),
     ([''/'', ''data'', ''b.jpg''], RegularFile),
     ([''/'', ''data'', ''x.d''], Directory),
     ([''/'', ''data'', ''README''], RegularFile),
     ([''/'', ''data'', ''x.d'', ''c.txt''], RegularFile)],
    [LogInfo [''/'', ''home'', ''a.txt''],
     Parse 1 [''/'', ''home'', ''a.txt''] (Inr [(''ext'', ''.txt'')]),
     Run 1 [''/'', ''data'', ''a.txt''] [(''ext'', ''.txt'')] False
       (Inr (Some [''/'', ''out'', ''a.txt''])),
     Run 2 [''/'', ''out'', ''a.txt''] [(''ext'', ''.txt'')] False (Inr None),
     Run 3 [''/'', ''out'', ''a.txt''] [(''ext'', ''.txt'')] False
       (Inr (Some [''/'', ''arch'', ''a.txt'']))])"
  by (simp add: run_job_def first_def demo_lib_def canon_def demo_world_def)

lemma run_job_a:
  "run_job demo_lib True
     (Job [''/'', ''home'', ''a.txt''] (filters a_rule) (actions a_rule)) demo_world =
   (Inr [''/'', ''data'', ''a.txt''], demo_world,
    [LogInfo [''/'', ''home'', ''a.txt''],
     Parse 3 [''/'', ''home'', ''a.txt''] (Inr [(''ext'', ''t'')]),
     Run 6 [''/'', ''data'', ''a.txt''] [(''ext'', ''t'')] True (Inr None),
     Run 8 [''/'', ''data'', ''a.txt''] [(''ext'', ''t'')] True (Inr None)])"
  by (simp add: run_job_def first_def demo_lib_def canon_def)

lemma find_jobs_a:
  "find_jobs demo_lib demo_world [a_rule] =
     (Inr [Job [''/'', ''home'', ''a.txt''] (filters a_rule) (actions a_rule)],
      [Matches 3 [''/'', ''home'', ''a.txt''] (Inr True),
       Matches 4 [''/'', ''home'', ''a.txt''] (Inr True),
       Matches 3 [''/'', ''home'', ''b.jpg''] (Inr False),
       Matches 3 [''/'', ''home'', ''x.d''] (Inr False)])"
  by (simp add: find_jobs_def home_listing)

lemma execute_a:
  "execute_rules demo_lib [a_rule] True demo_world =
     (Inr (), demo_world,
      [Matches 3 [''/'', ''home'', ''a.txt''] (Inr True),
       Matches 4 [''/'', ''home'', ''a.txt''] (Inr True),
       Matches 3 [''/'', ''home'', ''b.jpg''] (Inr False),
       Matches 3 [''/'', ''home'', ''x.d''] (Inr False),
       LogDebug [([''/'', ''home'', ''a.txt''], [3, 4], [6, 8])],
       LogInfo [''/'', ''home'', ''a.txt''],
       Parse 3 [''/'', ''home'', ''a.txt''] (Inr [(''ext'', ''t'')]),
       Run 6 [''/'', ''data'', ''a.txt''] [(''ext'', ''t'')] True (Inr None),
       Run 8 [''/'', ''data'', ''a.txt''] [(''ext'', ''t'')] True (Inr None)])"
  by (simp add: execute_rules_def find_jobs_a run_job_a [simplified] job_repr_def)

lemma find_jobs_txt:
  "find_jobs demo_lib demo_world [txt_rule] =
     (Inr [Job [''/'', ''home'', ''a.txt''] (filters txt_rule) (actions txt_rule)],
      [Matches 1 [''/'', ''home'', ''a.txt''] (Inr True),
       Matches 1 [''/'', ''home'', ''b.jpg''] (Inr False),
       Matches 1 [''/'', ''home'', ''x.d''] (Inr False)])"
  by (simp add: find_jobs_def home_listing)

lemma find_jobs_jpg:
  "find_jobs demo_lib demo_world [jpg_rule] =
     (Inr [Job [''/'', ''home'', ''b.jpg''] (filters jpg_rule) (actions jpg_rule)],
      [Matches 2 [''/'', ''home'', ''a.txt''] (Inr False),
       Matches 2 [''/'', ''home'', ''b.jpg''] (Inr True),
       Matches 2 [''/'', ''home'', ''x.d''] (Inr False)])"
  by (simp add: find_jobs_def home_listing)

lemma run_job_txt_simulated:
  "run_job demo_lib True
     (Job [''/'', ''home'', ''a.txt''] (filters txt_rule) (actions txt_rule)) demo_world =
   (Inr [''/'', ''arch'', ''a.txt''], demo_world,
    [LogInfo [''/'', ''home'', ''a.txt''],
     Parse 1 [''/'', ''home'', ''a.txt''] (Inr [(''ext'', ''.txt'')]),
     Run 1 [''/'', ''data'', ''a.txt''] [(''ext'', ''.txt'')] True
       (Inr (Some [''/'', ''out'', ''a.txt''])),
     Run 2 [''/'', ''out'', ''a.txt''] [(''ext'', ''.txt'')] True (Inr None),
     Run 3 [''/'', ''out'', ''a.txt''] [(''ext'', ''.txt'')] True
       (Inr (Some [''/'', ''arch'', ''a.txt'']))])"
  by (simp add: run_job_def first_def demo_lib_def canon_def)

lemma execute_txt:
  "execute_rules demo_lib [txt_rule] False demo_world =
     (Inr (),
      [([''/'', ''arch'', ''a.txt''], RegularFile),
       ([''/'', ''data'', ''b.jpg''], RegularFile),
       ([''/'', ''data'', ''x.d''], Directory),
       ([''/'', ''data'', ''README''], RegularFile),
       ([''/'', ''data'', ''x.d'', ''c.txt''], RegularFile)],
      [Matches 1 [''/'', ''home'', ''a.txt''] (Inr True),
       Matches 1 [''/'', ''home'', ''b.jpg''] (Inr False),
       Matches 1 [''/'', ''home'', ''x.d''] (Inr False),
       LogDebug [([''/'', ''home'', ''a.txt''], [1], [1, 2, 3])],
       LogInfo [''/'', ''home'', ''a.txt''],
       Parse 1 [''/'', ''home'', ''a.txt''] (Inr [(''ext'', ''.txt'')]),
       Run 1 [''/'', ''data'', ''a.txt''] [(''ext'', ''.txt'')] False
         (Inr (Some [''/'', ''out'', ''a.txt''])),
       Run 2 [''/'', ''out'', ''a.txt''] [(''ext'', ''.txt'')] False (Inr None),
       Run 3 [''/'', ''out'', ''a.txt''] [(''ext'', ''.txt'')] False
         (Inr (Some [''/'', ''arch'', ''a.txt'']))])"
  by (simp add: execute_rules_def find_jobs_txt run_job_txt [simplified] job_repr_def)

lemma execute_txt_simulated:
  "execute_rules demo_lib [txt_rule] True demo_world =
     (Inr (), demo_world,
      [Matches 1 [''/'', ''home'', ''a.txt''] (Inr True),
       Matches 1 [''/'', ''home'', ''b.jpg''] (Inr False),
       Matches 1 [''/'', ''home'', ''x.d''] (Inr False),
       LogDebug [([''/'', ''home'', ''a.txt''], [1], [1, 2, 3])],
       LogInfo [''/'', ''home'', ''a.txt''],
       Parse 1 [''/'', ''home'', ''a.txt''] (Inr [(''ext'', ''.txt'')]),
       Run 1 [''/'', ''data'', ''a.txt''] [(''ext'', ''.txt'')] True
         (Inr (Some [''/'', ''out'', ''a.txt''])),
       Run 2 [''/'', ''out'', ''a.txt''] [(''ext'', ''.txt'')] True (Inr None),
       Run 3 [''/'', ''out'', ''a.txt''] [(''ext'', ''.txt'')] True
         (Inr (Some [''/'', ''arch'', ''a.txt'']))])"
  by (simp add: execute_rules_def find_jobs_txt run_job_txt_simulated [simplified] job_repr_def)

lemma run_job_jpg:
  "run_job demo_lib simulate
     (Job [''/'', ''home'', ''b.jpg''] (filters jpg_rule) (actions jpg_rule)) w =
   (if simulate
    then (Inr [''/'', ''data'', ''b.jpg''], w,
          [LogInfo [''/'', ''home'', ''b.jpg''],
           Parse 2 [''/'', ''home'', ''b.jpg''] (Inr [(''ext'', ''.jpg'')]),
           Run 3 [''/'', ''data'', ''b.jpg''] [(''ext'', ''.jpg'')] True (Inr None),
           Run 4 [''/'', ''data'', ''b.jpg''] [(''ext'', ''.jpg'')] True (Inr None),
           Run 5 [''/'', ''data'', ''b.jpg''] [(''ext'', ''.jpg'')] True (Inr None)])
    else (Inl (Raised ''PermissionError''), w,
          [LogInfo [''/'', ''home'', ''b.jpg''],
           Parse 2 [''/'', ''home'', ''b.jpg''] (Inr [(''ext'', ''.jpg'')]),
           Run 3 [''/'', ''data'', ''b.jpg''] [(''ext'', ''.jpg'')] False (Inr None),
           Run 4 [''/'', ''data'', ''b.jpg''] [(''ext'', ''.jpg'')] False
             (Inl ''PermissionError'')]))"
  by (simp add: run_job_def first_def demo_lib_def canon_def)

lemma find_jobs_txt_a:
  "find_jobs demo_lib demo_world [txt_rule, a_rule] =
     (Inr [Job [''/'', ''home'', ''a.txt''] (filters txt_rule) (actions txt_rule),
           Job [''/'', ''home'', ''a.txt''] (filters a_rule) (actions a_rule)],
      [Matches 1 [''/'', ''home'', ''a.txt''] (Inr True),
       Matches 1 [''/'', ''home'', ''b.jpg''] (Inr False),
       Matches 1 [''/'', ''home'', ''x.d''] (Inr False),
       Matches 3 [''/'', ''home'', ''a.txt''] (Inr True),
       Matches 4 [''/'', ''home'', ''a.txt''] (Inr True),
       Matches 3 [''/'', ''home'', ''b.jpg''] (Inr False),
       Matches 3 [''/'', ''home'', ''x.d''] (Inr False)])"
  by (simp add: find_jobs_def home_listing)

lemma run_job_a_moved:
  "run_job demo_lib False
     (Job [''/'', ''home'', ''a.txt''] (filters a_rule) (actions a_rule))
     [([''/'', ''arch'', ''a.txt''], RegularFile),
      ([''/'', ''data'', ''b.jpg''], RegularFile),
      ([''/'', ''data'', ''x.d''], Directory),
      ([''/'', ''data'', ''README''], RegularFile),
      ([''/'', ''data'', ''x.d'', ''c.txt''], RegularFile)] =
   (Inr [''/'', ''data'', ''a.txt''],
    [([''/'', ''arch'', ''a.txt''], RegularFile),
     ([''/'', ''data'', ''b.jpg''], RegularFile),
     ([''/'', ''data'', ''x.d''], Directory),
     ([''/'', ''data'', ''README''], RegularFile),
     ([''/'', ''data'', ''x.d'', ''c.txt''], RegularFile)],
    [LogInfo [''/'', ''home'', ''a.txt''],
     Parse 3 [''/'', ''home'', ''a.txt''] (Inr [(''ext'', ''t'')]),
     Run 6 [''/'', ''data'', ''a.txt''] [(''ext'', ''t'')] False (Inr None),
     Run 8 [''/'', ''data'', ''a.txt''] [(''ext'', ''t'')] False (Inr None)])"
  by (simp add: run_job_def first_def demo_lib_def canon_def)

lemma execute_txt_a:
  "execute_rules demo_lib [txt_rule, a_rule] False demo_world =
     (Inr (),
      [([''/'', ''arch'', ''a.txt''], RegularFile),
       ([''/'', ''data'', ''b.jpg''], RegularFile),
       ([''/'', ''data'', ''x.d''], Directory),
       ([''/'', ''data'', ''README''], RegularFile),
       ([''/'', ''data'', ''x.d'', ''c.txt''], RegularFile)],
      [Matches 1 [''/'', ''home'', ''a.txt''] (Inr True),
       Matches 1 [''/'', ''home'', ''b.jpg''] (Inr False),
       Matches 1 [''/'', ''home'', ''x.d''] (Inr False),
       Matches 3 [''/'', ''home'', ''a.txt''] (Inr True),
       Matches 4 [''/'', ''home'', ''a.txt''] (Inr True),
       Matches 3 [''/'', ''home'', ''b.jpg''] (Inr False),
       Matches 3 [''/'', ''home'', ''x.d''] (Inr False),
       LogDebug [([''/'', ''home'', ''a.txt''], [1], [1, 2, 3]),
                 ([''/'', ''home'', ''a.txt''], [3, 4], [6, 8])],
       LogInfo [''/'', ''home'', ''a.txt''],
       Parse 1 [''/'', ''home'', ''a.txt''] (Inr [(''ext'', ''.txt'')]),
       Run 1 [''/'', ''data'', ''a.txt''] [(''ext'', ''.txt'')] False
         (Inr (Some [''/'', ''out'', ''a.txt''])),
       Run 2 [''/'', ''out'', ''a.txt''] [(''ext'', ''.txt'')] False (Inr None),
       Run 3 [''/'', ''out'', ''a.txt''] [(''ext'', ''.txt'')] False
         (Inr (Some [''/'', ''arch'', ''a.txt''])),
       LogInfo [''/'', ''home'', ''a.txt''],
       Parse 3 [''/'', ''home'', ''a.txt''] (Inr [(''ext'', ''t'')]),
       Run 6 [''/'', ''data'', ''a.txt''] [(''ext'', ''t'')] False (Inr None),
       Run 8 [''/'', ''data'', ''a.txt''] [(''ext'', ''t'')] False (Inr None)])"
  by (simp add: execute_rules_def find_jobs_txt_a run_job_txt [simplified]
        run_job_a_moved [simplified] job_repr_def)

lemma run_jobs_txt:
  "run_jobs demo_lib False
     [Job [''/'', ''home'', ''a.txt''] (filters txt_rule) (actions txt_rule)] demo_world =
   (Inr (),
    [([''/'', ''arch'', ''a.txt''], RegularFile),
     ([''/'', ''data'', ''b.jpg''], RegularFile),
     ([''/'', ''data'', ''x.d''], Directory),
     ([''/'', ''data'', ''README''], RegularFile),
     ([''/'', ''data'', ''x.d'', ''c.txt''], RegularFile)],
    [LogInfo [''/'', ''home'', ''a.txt''],
     Parse 1 [''/'', ''home'', ''a.txt''] (Inr [(''ext'', ''.txt'')]),
     Run 1 [''/'', ''data'', ''a.txt''] [(''ext'', ''.txt'')] False
       (Inr (Some [''/'', ''out'', ''a.txt''])),
     Run 2 [''/'', ''out'', ''a.txt''] [(''ext'', ''.txt'')] False (Inr None),
     Run 3 [''/'', ''out'', ''a.txt''] [(''ext'', ''.txt'')] False
       (Inr (Some [''/'', ''arch'', ''a.txt'']))])"
  by (simp add: run_job_txt [simplified])

lemma find_jobs_opaque:
  "find_jobs demo_lib demo_world [opaque_rule] =
     (Inr [Job [''/'', ''home'', ''a.txt''] (filters opaque_rule) (actions opaque_rule),
           Job [''/'', ''home'', ''b.jpg''] (filters opaque_rule) (actions opaque_rule),
           Job [''/'', ''home'', ''x.d''] (filters opaque_rule) (actions opaque_rule)],
      [Matches 6 [''/'', ''home'', ''a.txt''] (Inr True),
       Matches 6 [''/'', ''home'', ''b.jpg''] (Inr True),
       Matches 6 [''/'', ''home'', ''x.d''] (Inr True)])"
  by (simp add: find_jobs_def home_listing)

lemma root_listing: "all_pathes demo_lib demo_world root_rule = [Inr []]"
  by (simp add: all_pathes_def expanduser_def glob_def demo_lib_def is_directory_def)

lemma file_listing: "all_pathes demo_lib demo_world file_rule = [Inr []]"
  by (simp add: all_pathes_def expanduser_def glob_def demo_lib_def demo_world_def canon_def
        is_directory_def)

lemma sub_listing:
  "all_pathes demo_lib demo_world sub_rule =
     [Inr [[''/'', ''home'', ''a.txt''], [''/'', ''home'', ''b.jpg''], [''/'', ''home'', ''x.d'']],
      Inl ''PermissionError'']"
  by (simp add: all_pathes_def expanduser_def glob_def demo_lib_def demo_world_def canon_def
        is_directory_def in_generator_def)

lemma all_pathes_no_folders: "folders r = [] \<Longrightarrow> all_pathes lib w r = []"
  by (simp add: all_pathes_def)

lemma find_jobs_blind_head:
  "find_jobs_folders demo_world blind_rule ([] @ [Inr [[''/'', ''home'', ''a.txt'']]]) [] =
     (Inr [], [Matches 7 [''/'', ''home'', ''a.txt''] (Inr False)])"
  by simp

lemma find_jobs_sub_head:
  "find_jobs_folders demo_world sub_rule
     [Inr [[''/'', ''home'', ''a.txt''], [''/'', ''home'', ''b.jpg''], [''/'', ''home'', ''x.d'']]] [] =
     (Inr [Job [''/'', ''home'', ''b.jpg''] (filters sub_rule) (actions sub_rule)],
      [Matches 9 [''/'', ''home'', ''a.txt''] (Inr False),
       Matches 9 [''/'', ''home'', ''b.jpg''] (Inr True),
       Matches 9 [''/'', ''home'', ''x.d''] (Inr False)])"
  by simp

section \<open>The claims\<close>

text \<open>
  C1. When \<^verbatim>\<open>find_jobs\<close> returns, then for every rule and every path enumerated from
  the rule's folders, the job for that path is in the result if and only if every filter
  of the rule returns true for the path. And when one filter of a rule is replaced by a
  filter that always returns false, the result holds no job of that rule.
\<close>

theorem find_jobs_conjunction:
  assumes k: "k < length rules" and fj: "find_jobs lib w rules = (Inr jobs, t)"
  shows
    "(\<forall>p\<in>set (enumerated lib w (rules ! k)).
        (Job p (filters (rules ! k)) (actions (rules ! k)) \<in> set jobs) =
        (\<forall>f\<in>set (filters (rules ! k)). matches f w p = Inr True)) \<and>
     (\<forall>i ff jobs' t'.
        i < length (filters (rules ! k)) \<longrightarrow>
        (\<forall>p. matches ff w p = Inr False) \<longrightarrow>
        find_jobs lib w
          (rules[k := (rules ! k)\<lparr>filters := (filters (rules ! k))[i := ff]\<rparr>]) = (Inr jobs', t') \<longrightarrow>
        (\<forall>j\<in>set jobs'. job_filters j \<noteq> (filters (rules ! k))[i := ff]))"
proof (intro conjI ballI allI impI)
  fix p
  assume p: "p \<in> set (enumerated lib w (rules ! k))"
  let ?r = "rules ! k"
  have r: "?r \<in> set rules" using k by simp
  show "(Job p (filters ?r) (actions ?r) \<in> set jobs) = (\<forall>f\<in>set (filters ?r). matches f w p = Inr True)"
  proof
    assume "Job p (filters ?r) (actions ?r) \<in> set jobs"
    then have "accepts w (filters ?r) p"
      unfolding in_find_jobs [OF fj] by auto
    then show "\<forall>f\<in>set (filters ?r). matches f w p = Inr True"
      by (simp add: accepts_iff)
  next
    assume "\<forall>f\<in>set (filters ?r). matches f w p = Inr True"
    then have "accepts w (filters ?r) p" by (simp add: accepts_iff)
    with r p show "Job p (filters ?r) (actions ?r) \<in> set jobs"
      unfolding in_find_jobs [OF fj] by blast
  qed
next
  fix i ff jobs' t' j
  let ?fs = "(filters (rules ! k))[i := ff]"
  assume i: "i < length (filters (rules ! k))"
    and ff: "\<forall>p. matches ff w p = Inr False"
    and fj': "find_jobs lib w (rules[k := (rules ! k)\<lparr>filters := ?fs\<rparr>]) = (Inr jobs', t')"
    and j: "j \<in> set jobs'"
  from j have "\<exists>r'\<in>set (rules[k := (rules ! k)\<lparr>filters := ?fs\<rparr>]).
                 \<exists>p. accepts w (filters r') p \<and> job_filters j = filters r'"
    unfolding in_find_jobs [OF fj'] by auto
  then obtain r' p where "r' \<in> set (rules[k := (rules ! k)\<lparr>filters := ?fs\<rparr>])"
    and acc: "accepts w (filters r') p" and jf: "job_filters j = filters r'"
    by blast
  show "job_filters j \<noteq> ?fs"
  proof
    assume "job_filters j = ?fs"
    with jf have "ff \<in> set (filters r')"
      using i by (metis set_update_memI)
    with acc have "matches ff w p = Inr True" by (simp add: accepts_iff)
    with ff show False by simp
  qed
qed

theorem find_jobs_conjunction_witness:
  "(0::nat) < length [txt_rule, jpg_rule] \<and>
   find_jobs demo_lib demo_world [txt_rule, jpg_rule] =
     (Inr [Job [''/'', ''home'', ''a.txt''] (filters txt_rule) (actions txt_rule),
           Job [''/'', ''home'', ''b.jpg''] (filters jpg_rule) (actions jpg_rule)],
      [Matches 1 [''/'', ''home'', ''a.txt''] (Inr True),
       Matches 1 [''/'', ''home'', ''b.jpg''] (Inr False),
       Matches 1 [''/'', ''home'', ''x.d''] (Inr False),
       Matches 2 [''/'', ''home'', ''a.txt''] (Inr False),
       Matches 2 [''/'', ''home'', ''b.jpg''] (Inr True),
       Matches 2 [''/'', ''home'', ''x.d''] (Inr False)]) \<and>
   [''/'', ''home'', ''b.jpg''] \<in> set (enumerated demo_lib demo_world txt_rule) \<and>
   (Job [''/'', ''home'', ''b.jpg''] (filters txt_rule) (actions txt_rule)
      \<in> set [Job [''/'', ''home'', ''a.txt''] (filters txt_rule) (actions txt_rule),
              Job [''/'', ''home'', ''b.jpg''] (filters jpg_rule) (actions jpg_rule)]) =
   (\<forall>f\<in>set (filters txt_rule). matches f demo_world [''/'', ''home'', ''b.jpg''] = Inr True) \<and>
   [''/'', ''home'', ''a.txt''] \<in> set (enumerated demo_lib demo_world txt_rule) \<and>
   (Job [''/'', ''home'', ''a.txt''] (filters txt_rule) (actions txt_rule)
      \<in> set [Job [''/'', ''home'', ''a.txt''] (filters txt_rule) (actions txt_rule),
              Job [''/'', ''home'', ''b.jpg''] (filters jpg_rule) (actions jpg_rule)]) =
   (\<forall>f\<in>set (filters txt_rule). matches f demo_world [''/'', ''home'', ''a.txt''] = Inr True) \<and>
   list_all (\<lambda>f. matches f demo_world [''/'', ''home'', ''a.txt''] = Inr True) (filters txt_rule) \<and>
   (0::nat) < length (filters txt_rule) \<and>
   matches (never 9) demo_world [''/'', ''home'', ''a.txt''] = Inr False \<and>
   find_jobs demo_lib demo_world [txt_rule\<lparr>filters := [never 9]\<rparr>, jpg_rule] =
     (Inr [Job [''/'', ''home'', ''b.jpg''] (filters jpg_rule) (actions jpg_rule)],
      [Matches 9 [''/'', ''home'', ''a.txt''] (Inr False),
       Matches 9 [''/'', ''home'', ''b.jpg''] (Inr False),
       Matches 9 [''/'', ''home'', ''x.d''] (Inr False),
       Matches 2 [''/'', ''home'', ''a.txt''] (Inr False),
       Matches 2 [''/'', ''home'', ''b.jpg''] (Inr True),
       Matches 2 [''/'', ''home'', ''x.d''] (Inr False)]) \<and>
   job_filters (Job [''/'', ''home'', ''b.jpg''] (filters jpg_rule) (actions jpg_rule))
     \<noteq> (filters txt_rule)[0 := never 9]"
proof -
  have k: "(0::nat) < length [txt_rule, jpg_rule]" by simp
  have i: "(0::nat) < length (filters txt_rule)" by simp
  have ff: "\<forall>p. matches (never 9) demo_world p = Inr False" by simp
  have fj': "find_jobs demo_lib demo_world [txt_rule\<lparr>filters := [never 9]\<rparr>, jpg_rule] =
     (Inr [Job [''/'', ''home'', ''b.jpg''] (filters jpg_rule) (actions jpg_rule)],
      [Matches 9 [''/'', ''home'', ''a.txt''] (Inr False),
       Matches 9 [''/'', ''home'', ''b.jpg''] (Inr False),
       Matches 9 [''/'', ''home'', ''x.d''] (Inr False),
       Matches 2 [''/'', ''home'', ''a.txt''] (Inr False),
       Matches 2 [''/'', ''home'', ''b.jpg''] (Inr True),
       Matches 2 [''/'', ''home'', ''x.d''] (Inr False)])"
    by (simp add: find_jobs_def home_listing)
  have fj'': "find_jobs demo_lib demo_world
      ([txt_rule, jpg_rule][0 := ([txt_rule, jpg_rule] ! 0)
          \<lparr>filters := (filters ([txt_rule, jpg_rule] ! 0))[0 := never 9]\<rparr>]) =
     (Inr [Job [''/'', ''home'', ''b.jpg''] (filters jpg_rule) (actions jpg_rule)],
      [Matches 9 [''/'', ''home'', ''a.txt''] (Inr False),
       Matches 9 [''/'', ''home'', ''b.jpg''] (Inr False),
       Matches 9 [''/'', ''home'', ''x.d''] (Inr False),
       Matches 2 [''/'', ''home'', ''a.txt''] (Inr False),
       Matches 2 [''/'', ''home'', ''b.jpg''] (Inr True),
       Matches 2 [''/'', ''home'', ''x.d''] (Inr False)])"
    using fj' by simp
  have p: "[''/'', ''home'', ''b.jpg''] \<in> set (enumerated demo_lib demo_world txt_rule)"
    by (simp add: home_enumerated)
  note T = find_jobs_conjunction [OF k find_jobs_txt_jpg]
  have p': "[''/'', ''home'', ''b.jpg'']
              \<in> set (enumerated demo_lib demo_world ([txt_rule, jpg_rule] ! 0))"
    using p by simp
  from T [THEN conjunct1, THEN bspec, OF p'] have one:
    "(Job [''/'', ''home'', ''b.jpg''] (filters txt_rule) (actions txt_rule)
      \<in> set [Job [''/'', ''home'', ''a.txt''] (filters txt_rule) (actions txt_rule),
              Job [''/'', ''home'', ''b.jpg''] (filters jpg_rule) (actions jpg_rule)]) =
     (\<forall>f\<in>set (filters txt_rule). matches f demo_world [''/'', ''home'', ''b.jpg''] = Inr True)"
    by simp
  have q: "[''/'', ''home'', ''a.txt''] \<in> set (enumerated demo_lib demo_world txt_rule)"
    by (simp add: home_enumerated)
  have q': "[''/'', ''home'', ''a.txt'']
              \<in> set (enumerated demo_lib demo_world ([txt_rule, jpg_rule] ! 0))"
    using q by simp
  from T [THEN conjunct1, THEN bspec, OF q'] have one_a:
    "(Job [''/'', ''home'', ''a.txt''] (filters txt_rule) (actions txt_rule)
      \<in> set [Job [''/'', ''home'', ''a.txt''] (filters txt_rule) (actions txt_rule),
              Job [''/'', ''home'', ''b.jpg''] (filters jpg_rule) (actions jpg_rule)]) =
     (\<forall>f\<in>set (filters txt_rule). matches f demo_world [''/'', ''home'', ''a.txt''] = Inr True)"
    by simp
  have acc: "list_all (\<lambda>f. matches f demo_world [''/'', ''home'', ''a.txt''] = Inr True)
               (filters txt_rule)"
    by simp
  have ff1: "matches (never 9) demo_world [''/'', ''home'', ''a.txt''] = Inr False"
    by simp
  from T i ff fj'' have two:
    "job_filters (Job [''/'', ''home'', ''b.jpg''] (filters jpg_rule) (actions jpg_rule))
       \<noteq> (filters txt_rule)[0 := never 9]"
    by (auto simp del: Job_sel)
  show ?thesis
    by (intro conjI) (fact k find_jobs_txt_jpg p one q one_a acc i ff1 fj' two)+
qed

text \<open>
  C2. For a job that \<^verbatim>\<open>execute_rules\<close> runs, the first action is given the job's path
  as \<^verbatim>\<open>resolve\<close> returns it, and each later action is given the path that the latest
  action before it returned, or, where that action returned nothing, the path it was given
  itself. The actions are called in the order of the list. When the chain completes, the
  current path is the last path that an action returned (the resolved path when none
  returned one).
\<close>

theorem path_chaining:
  assumes rj: "run_job lib simulate j w = (res, w', t)"
    and rs: "resolve lib w (path j) = Inr cur"
  shows
    "run_inputs t = butlast (chain cur (run_returns t)) \<and>
     prefix (map fst (runs t)) (map aid (job_actions j)) \<and>
     (\<forall>final. res = Inr final \<longrightarrow>
        map fst (runs t) = map aid (job_actions j) \<and>
        final = last (chain cur (run_returns t)) \<and>
        final = last (cur # map the (filter (\<lambda>out. out \<noteq> None) (run_returns t))))"
  using rj
proof (cases rule: run_job_cases)
  case no_filter
  then show ?thesis by (simp add: run_inputs_def run_returns_def)
next
  case (parse_raises f fs e)
  then show ?thesis by (simp add: run_inputs_def run_returns_def)
next
  case (resolve_raises f fs fa e)
  then show ?thesis by (simp add: run_inputs_def run_returns_def)
next
  case (actions_run f fs fa cur' t2)
  with rs have c: "cur' = cur" by simp
  have t: "run_inputs t = run_inputs t2" "run_returns t = run_returns t2" "runs t = runs t2"
    using actions_run(5) by (simp_all add: run_inputs_def run_returns_def)
  from run_actions_chain [OF actions_run(4)] show ?thesis
    unfolding t c by (simp add: last_chain)
qed

theorem path_chaining_witness:
  "run_job demo_lib False
     (Job [''/'', ''home'', ''a.txt''] (filters txt_rule) (actions txt_rule)) demo_world =
   (Inr [''/'', ''arch'', ''a.txt''],
    [([''/'', ''arch'', ''a.txt''], RegularFile),
     ([''/'', ''data'', ''b.jpg''], RegularFile),
     ([''/'', ''data'', ''x.d''], Directory),
     ([''/'', ''data'', ''README''], RegularFile),
     ([''/'', ''data'', ''x.d'', ''c.txt''], RegularFile)],
    [LogInfo [''/'', ''home'', ''a.txt''],
     Parse 1 [''/'', ''home'', ''a.txt''] (Inr [(''ext'', ''.txt'')]),
     Run 1 [''/'', ''data'', ''a.txt''] [(''ext'', ''.txt'')] False
       (Inr (Some [''/'', ''out'', ''a.txt''])),
     Run 2 [''/'', ''out'', ''a.txt''] [(''ext'', ''.txt'')] False (Inr None),
     Run 3 [''/'', ''out'', ''a.txt''] [(''ext'', ''.txt'')] False
       (Inr (Some [''/'', ''arch'', ''a.txt'']))]) \<and>
   resolve demo_lib demo_world
     (path (Job [''/'', ''home'', ''a.txt''] (filters txt_rule) (actions txt_rule))) =
     Inr [''/'', ''data'', ''a.txt''] \<and>
   [[''/'', ''data'', ''a.txt''], [''/'', ''out'', ''a.txt''], [''/'', ''out'', ''a.txt'']] =
     butlast (chain [''/'', ''data'', ''a.txt'']
       [Some [''/'', ''out'', ''a.txt''], None, Some [''/'', ''arch'', ''a.txt'']]) \<and>
   [''/'', ''arch'', ''a.txt''] =
     last (chain [''/'', ''data'', ''a.txt'']
       [Some [''/'', ''out'', ''a.txt''], None, Some [''/'', ''arch'', ''a.txt'']])"
proof -
  let ?t = "[LogInfo [''/'', ''home'', ''a.txt''],
     Parse 1 [''/'', ''home'', ''a.txt''] (Inr [(''ext'', ''.txt'')]),
     Run 1 [''/'', ''data'', ''a.txt''] [(''ext'', ''.txt'')] False
       (Inr (Some [''/'', ''out'', ''a.txt''])),
     Run 2 [''/'', ''out'', ''a.txt''] [(''ext'', ''.txt'')] False (Inr None),
     Run 3 [''/'', ''out'', ''a.txt''] [(''ext'', ''.txt'')] False
       (Inr (Some [''/'', ''arch'', ''a.txt'']))]"
  have rs: "resolve demo_lib demo_world
     (path (Job [''/'', ''home'', ''a.txt''] (filters txt_rule) (actions txt_rule))) =
     Inr [''/'', ''data'', ''a.txt'']"
    by (simp add: demo_lib_def canon_def)
  have ri: "run_inputs ?t =
      [[''/'', ''data'', ''a.txt''], [''/'', ''out'', ''a.txt''], [''/'', ''out'', ''a.txt'']]"
    by (simp add: run_inputs_def)
  have rr: "run_returns ?t =
      [Some [''/'', ''out'', ''a.txt''], None, Some [''/'', ''arch'', ''a.txt'']]"
    by (simp add: run_returns_def)
  note T = path_chaining [OF run_job_txt rs]
  have one:
    "[[''/'', ''data'', ''a.txt''], [''/'', ''out'', ''a.txt''], [''/'', ''out'', ''a.txt'']] =
     butlast (chain [''/'', ''data'', ''a.txt'']
       [Some [''/'', ''out'', ''a.txt''], None, Some [''/'', ''arch'', ''a.txt'']])"
    using T [THEN conjunct1] unfolding ri rr .
  have two:
    "[''/'', ''arch'', ''a.txt''] =
     last (chain [''/'', ''data'', ''a.txt'']
       [Some [''/'', ''out'', ''a.txt''], None, Some [''/'', ''arch'', ''a.txt'']])"
    using T [THEN conjunct2, THEN conjunct2, rule_format, OF refl, THEN conjunct2, THEN conjunct1]
    unfolding rr .
  show ?thesis
    by (intro conjI) (fact run_job_txt rs one two)+
qed

text \<open>
  C3. The jobs that \<^verbatim>\<open>find_jobs\<close> returns are sorted by path, in the order of paths
  (lexicographic on the parts). Giving the rules in another order gives the same paths in
  the same order.
\<close>

theorem find_jobs_sorted:
  assumes fj: "find_jobs lib w rules = (Inr jobs, t)"
  shows
    "sorted (map path jobs) \<and>
     (\<forall>rules' jobs' t'.
        mset rules' = mset rules \<longrightarrow> find_jobs lib w rules' = (Inr jobs', t') \<longrightarrow>
        sorted (map path jobs') \<and> map path jobs' = map path jobs)"
proof (intro conjI allI impI)
  show "sorted (map path jobs)" by (rule sorted_paths_of_find_jobs [OF fj])
next
  fix rules' :: "('a, 'b) rule list" and jobs' :: "('a, 'b) job list" and t' :: "'b event list"
  assume fj': "find_jobs lib w rules' = (Inr jobs', t')"
  show "sorted (map path jobs')" by (rule sorted_paths_of_find_jobs [OF fj'])
next
  fix rules' :: "('a, 'b) rule list" and jobs' :: "('a, 'b) job list" and t' :: "'b event list"
  assume perm: "mset rules' = mset rules" and fj': "find_jobs lib w rules' = (Inr jobs', t')"
  let ?g = "\<lambda>r. jobs_of w r (enumerated lib w r)"
  have "mset (map path jobs') = image_mset path (mset (concat (map ?g rules')))"
    using find_jobs_Inr [OF fj'] by simp
  also have "\<dots> = image_mset path (mset (concat (map ?g rules)))"
    using mset_concat_map_cong [OF perm, of ?g] by simp
  also have "\<dots> = mset (map path jobs)"
    using find_jobs_Inr [OF fj] by simp
  finally have "mset (map path jobs') = mset (map path jobs)" .
  moreover have "sorted (map path jobs')" "sorted (map path jobs)"
    using sorted_paths_of_find_jobs [OF fj'] sorted_paths_of_find_jobs [OF fj] by simp_all
  ultimately show "map path jobs' = map path jobs"
    by (metis properties_for_sort)
qed

theorem find_jobs_sorted_witness:
  "find_jobs demo_lib demo_world [jpg_rule, txt_rule] =
     (Inr [Job [''/'', ''home'', ''a.txt''] (filters txt_rule) (actions txt_rule),
           Job [''/'', ''home'', ''b.jpg''] (filters jpg_rule) (actions jpg_rule)],
      [Matches 2 [''/'', ''home'', ''a.txt''] (Inr False),
       Matches 2 [''/'', ''home'', ''b.jpg''] (Inr True),
       Matches 2 [''/'', ''home'', ''x.d''] (Inr False),
       Matches 1 [''/'', ''home'', ''a.txt''] (Inr True),
       Matches 1 [''/'', ''home'', ''b.jpg''] (Inr False),
       Matches 1 [''/'', ''home'', ''x.d''] (Inr False)]) \<and>
   sorted (map path
     [Job [''/'', ''home'', ''a.txt''] (filters txt_rule) (actions txt_rule),
      Job [''/'', ''home'', ''b.jpg''] (filters jpg_rule) (actions jpg_rule)]) \<and>
   mset [txt_rule, jpg_rule] = mset [jpg_rule, txt_rule] \<and>
   fst (find_jobs demo_lib demo_world [txt_rule, jpg_rule]) =
     Inr [Job [''/'', ''home'', ''a.txt''] (filters txt_rule) (actions txt_rule),
          Job [''/'', ''home'', ''b.jpg''] (filters jpg_rule) (actions jpg_rule)] \<and>
   map path [Job [''/'', ''home'', ''a.txt''] (filters txt_rule) (actions txt_rule),
             Job [''/'', ''home'', ''b.jpg''] (filters jpg_rule) (actions jpg_rule)] =
     [[''/'', ''home'', ''a.txt''], [''/'', ''home'', ''b.jpg'']]"
proof -
  note T = find_jobs_sorted [OF find_jobs_jpg_txt]
  have perm: "mset [txt_rule, jpg_rule] = mset [jpg_rule, txt_rule]"
    by (simp add: add.commute)
  from T have s: "sorted (map path
     [Job [''/'', ''home'', ''a.txt''] (filters txt_rule) (actions txt_rule),
      Job [''/'', ''home'', ''b.jpg''] (filters jpg_rule) (actions jpg_rule)])"
    by blast
  from find_jobs_jpg_txt perm s find_jobs_txt_jpg show ?thesis
    by (simp del: sorted_wrt.simps)
qed

text \<open>
  C4. For a job that \<^verbatim>\<open>execute_rules\<close> runs, \<^verbatim>\<open>parse\<close> is called once, on the first
  filter of the job's filter list and on the job's path, and every call of \<^verbatim>\<open>run\<close> in
  the job's chain is given what that call returned. Over a whole run of
  \<^verbatim>\<open>execute_rules\<close>, every call of \<^verbatim>\<open>parse\<close> is on the first filter of a job.
\<close>

theorem bundle_from_first_filter:
  "(run_job lib simulate j w = (res, w', t) \<longrightarrow>
      parses t =
        (case job_filters j of [] \<Rightarrow> [] | f # fs \<Rightarrow> [(fid f, path j, parse f w (path j))]) \<and>
      (\<forall>(a, p, fa, s, out)\<in>set (runs t).
         \<exists>f fs. job_filters j = f # fs \<and> parse f w (path j) = Inr fa)) \<and>
   (execute_rules lib rules simulate w0 = (res0, w0', t0) \<longrightarrow>
    find_jobs lib w0 rules = (Inr jobs, tf) \<longrightarrow>
      (\<forall>(i, p, r)\<in>set (parses t0).
         \<exists>j\<in>set jobs. \<exists>f fs. job_filters j = f # fs \<and> i = fid f \<and> p = path j))"
proof (intro conjI impI)
  assume rj: "run_job lib simulate j w = (res, w', t)"
  show "parses t =
        (case job_filters j of [] \<Rightarrow> [] | f # fs \<Rightarrow> [(fid f, path j, parse f w (path j))])"
    by (rule run_job_parses [OF rj])
  from run_job_bundle [OF rj]
  show "\<forall>(a, p, fa, s, out)\<in>set (runs t).
         \<exists>f fs. job_filters j = f # fs \<and> parse f w (path j) = Inr fa"
    by fast
next
  assume ex: "execute_rules lib rules simulate w0 = (res0, w0', t0)"
    and fj: "find_jobs lib w0 rules = (Inr jobs, tf)"
  from ex show "\<forall>(i, p, r)\<in>set (parses t0).
         \<exists>j\<in>set jobs. \<exists>f fs. job_filters j = f # fs \<and> i = fid f \<and> p = path j"
  proof (cases rule: execute_rules_cases)
    case (discovery_raises e)
    with fj show ?thesis by simp
  next
    case (no_jobs tf')
    with find_jobs_events [OF no_jobs(1)] show ?thesis by simp
  next
    case (jobs_run jobs' tf' t2)
    with fj have "jobs' = jobs" by simp
    with jobs_run find_jobs_events [OF jobs_run(1)] run_jobs_parses [OF jobs_run(3)]
    show ?thesis by simp
  qed
qed

theorem bundle_from_first_filter_witness:
  "run_job demo_lib True
     (Job [''/'', ''home'', ''a.txt''] (filters a_rule) (actions a_rule)) demo_world =
   (Inr [''/'', ''data'', ''a.txt''], demo_world,
    [LogInfo [''/'', ''home'', ''a.txt''],
     Parse 3 [''/'', ''home'', ''a.txt''] (Inr [(''ext'', ''t'')]),
     Run 6 [''/'', ''data'', ''a.txt''] [(''ext'', ''t'')] True (Inr None),
     Run 8 [''/'', ''data'', ''a.txt''] [(''ext'', ''t'')] True (Inr None)]) \<and>
   filters a_rule = [has_ext 3 ''t'', has_ext 4 ''a.txt''] \<and>
   parses
    [LogInfo [''/'', ''home'', ''a.txt''],
     Parse 3 [''/'', ''home'', ''a.txt''] (Inr [(''ext'', ''t'')]),
     Run 6 [''/'', ''data'', ''a.txt''] [(''ext'', ''t'')] True (Inr None),
     Run 8 [''/'', ''data'', ''a.txt''] [(''ext'', ''t'')] True (Inr None)] =
     [(fid (has_ext 3 ''t''), [''/'', ''home'', ''a.txt''],
       parse (has_ext 3 ''t'') demo_world [''/'', ''home'', ''a.txt''])] \<and>
   parse (has_ext 3 ''t'') demo_world [''/'', ''home'', ''a.txt''] = Inr [(''ext'', ''t'')] \<and>
   parse (has_ext 4 ''a.txt'') demo_world [''/'', ''home'', ''a.txt''] = Inr [(''ext'', ''a.txt'')] \<and>
   execute_rules demo_lib [a_rule] True demo_world =
     (Inr (), demo_world,
      [Matches 3 [''/'', ''home'', ''a.txt''] (Inr True),
       Matches 4 [''/'', ''home'', ''a.txt''] (Inr True),
       Matches 3 [''/'', ''home'', ''b.jpg''] (Inr False),
       Matches 3 [''/'', ''home'', ''x.d''] (Inr False),
       LogDebug [([''/'', ''home'', ''a.txt''], [3, 4], [6, 8])],
       LogInfo [''/'', ''home'', ''a.txt''],
       Parse 3 [''/'', ''home'', ''a.txt''] (Inr [(''ext'', ''t'')]),
       Run 6 [''/'', ''data'', ''a.txt''] [(''ext'', ''t'')] True (Inr None),
       Run 8 [''/'', ''data'', ''a.txt''] [(''ext'', ''t'')] True (Inr None)]) \<and>
   fst (find_jobs demo_lib demo_world [a_rule]) =
     Inr [Job [''/'', ''home'', ''a.txt''] (filters a_rule) (actions a_rule)]"
proof -
  note T = bundle_from_first_filter [of demo_lib True
      "Job [''/'', ''home'', ''a.txt''] (filters a_rule) (actions a_rule)" demo_world]
  from T [THEN conjunct1, rule_format, OF run_job_a, THEN conjunct1]
  have one: "parses
    [LogInfo [''/'', ''home'', ''a.txt''],
     Parse 3 [''/'', ''home'', ''a.txt''] (Inr [(''ext'', ''t'')]),
     Run 6 [''/'', ''data'', ''a.txt''] [(''ext'', ''t'')] True (Inr None),
     Run 8 [''/'', ''data'', ''a.txt''] [(''ext'', ''t'')] True (Inr None)] =
     [(fid (has_ext 3 ''t''), [''/'', ''home'', ''a.txt''],
       parse (has_ext 3 ''t'') demo_world [''/'', ''home'', ''a.txt''])]"
    by simp
  have two: "filters a_rule = [has_ext 3 ''t'', has_ext 4 ''a.txt'']"
    "parse (has_ext 3 ''t'') demo_world [''/'', ''home'', ''a.txt''] = Inr [(''ext'', ''t'')]"
    "parse (has_ext 4 ''a.txt'') demo_world [''/'', ''home'', ''a.txt''] = Inr [(''ext'', ''a.txt'')]"
    by simp_all
  have three: "fst (find_jobs demo_lib demo_world [a_rule]) =
     Inr [Job [''/'', ''home'', ''a.txt''] (filters a_rule) (actions a_rule)]"
    by (simp add: find_jobs_a)
  from run_job_a two one execute_a three show ?thesis by (simp only: simp_thms)
qed

text \<open>
  C5 (as amended). For each declared folder, after expansion of a leading tilde,
  \<^verbatim>\<open>all_pathes\<close> yields exactly the direct children of the folder whose name contains a
  dot, one level deep. The kind of an entry plays no part: a directory whose name contains
  a dot is yielded like a file. A folder that is not a directory yields nothing, and
  neither does a directory whose listing is refused with \<^verbatim>\<open>PermissionError\<close>; any other
  exception of the expansion, of \<^verbatim>\<open>is_dir\<close> or of the listing is what the folder yields
  in place of paths.
\<close>

theorem all_pathes_dotted_children:
  "all_pathes lib w r =
     map (\<lambda>folder.
            case expanduser lib w folder of
              Inl e \<Rightarrow> Inl (in_generator e)
            | Inr d \<Rightarrow>
                (case is_dir lib w d of
                   Inl e \<Rightarrow> Inl (in_generator e)
                 | Inr dir \<Rightarrow>
                     if dir
                     then (case scandir lib w d of
                             Inl e \<Rightarrow>
                               if e = ''PermissionError'' then Inr [] else Inl (in_generator e)
                           | Inr entries \<Rightarrow>
                               Inr [d @ [name]. (name, kind) \<leftarrow> entries, CHR ''.'' \<in> set name])
                     else Inr []))
         (folders r) \<and>
   (p \<in> set (enumerated lib w r)) =
     (\<exists>folder\<in>set (folders r). \<exists>d entries name kind.
        expanduser lib w folder = Inr d \<and> is_dir lib w d = Inr True \<and>
        scandir lib w d = Inr entries \<and>
        (name, kind) \<in> set entries \<and> CHR ''.'' \<in> set name \<and> p = d @ [name]) \<and>
   expanduser lib w (''~'' # rest) =
     (case gethomedir lib w [] of Inl e \<Rightarrow> Inl e | Inr home \<Rightarrow> Inr (home @ rest))"
proof (intro conjI)
  show "all_pathes lib w r =
     map (\<lambda>folder.
            case expanduser lib w folder of
              Inl e \<Rightarrow> Inl (in_generator e)
            | Inr d \<Rightarrow>
                (case is_dir lib w d of
                   Inl e \<Rightarrow> Inl (in_generator e)
                 | Inr dir \<Rightarrow>
                     if dir
                     then (case scandir lib w d of
                             Inl e \<Rightarrow>
                               if e = ''PermissionError'' then Inr [] else Inl (in_generator e)
                           | Inr entries \<Rightarrow>
                               Inr [d @ [name]. (name, kind) \<leftarrow> entries, CHR ''.'' \<in> set name])
                     else Inr []))
         (folders r)"
    unfolding all_pathes_def glob_def
    by (rule map_cong [OF refl])
       (simp add: fnmatch_star_dot_star in_generator_def split: sum.splits)
next
  show "(p \<in> set (enumerated lib w r)) =
     (\<exists>folder\<in>set (folders r). \<exists>d entries name kind.
        expanduser lib w folder = Inr d \<and> is_dir lib w d = Inr True \<and>
        scandir lib w d = Inr entries \<and>
        (name, kind) \<in> set entries \<and> CHR ''.'' \<in> set name \<and> p = d @ [name])"
    by (rule in_enumerated)
next
  show "expanduser lib w (''~'' # rest) =
     (case gethomedir lib w [] of Inl e \<Rightarrow> Inl e | Inr home \<Rightarrow> Inr (home @ rest))"
    by (simp add: expanduser_def)
qed

theorem all_pathes_dotted_children_witness:
  "all_pathes demo_lib demo_world txt_rule =
     [Inr [[''/'', ''home'', ''a.txt''], [''/'', ''home'', ''b.jpg''], [''/'', ''home'', ''x.d'']]] \<and>
   expanduser demo_lib demo_world [''~''] = Inr [''/'', ''home''] \<and>
   is_dir demo_lib demo_world [''/'', ''home''] = Inr True \<and>
   scandir demo_lib demo_world [''/'', ''home''] =
     Inr [(''a.txt'', RegularFile), (''b.jpg'', RegularFile), (''x.d'', Directory),
          (''README'', RegularFile)] \<and>
   is_dir demo_lib demo_world [''/'', ''root''] = Inr True \<and>
   scandir demo_lib demo_world [''/'', ''root''] = Inl ''PermissionError'' \<and>
   all_pathes demo_lib demo_world root_rule = [Inr []] \<and>
   expanduser demo_lib demo_world [''~'', ''a.txt''] = Inr [''/'', ''home'', ''a.txt''] \<and>
   is_dir demo_lib demo_world [''/'', ''home'', ''a.txt''] = Inr False \<and>
   all_pathes demo_lib demo_world file_rule = [Inr []] \<and>
   is_dir demo_lib demo_world [''/'', ''root'', ''sub''] = Inl ''PermissionError'' \<and>
   all_pathes demo_lib demo_world sub_rule =
     [Inr [[''/'', ''home'', ''a.txt''], [''/'', ''home'', ''b.jpg''], [''/'', ''home'', ''x.d'']],
      Inl ''PermissionError''] \<and>
   glob demo_lib demo_world [''/'', ''root''] ''*.*'' = Inr [] \<and>
   glob demo_lib demo_world [''/'', ''home'', ''a.txt''] ''*.*'' = Inr [] \<and>
   glob demo_lib demo_world [''/'', ''root'', ''sub''] ''*.*'' = Inl ''PermissionError''"
proof -
  have s: "scandir demo_lib demo_world [''/'', ''home''] =
     Inr [(''a.txt'', RegularFile), (''b.jpg'', RegularFile), (''x.d'', Directory),
          (''README'', RegularFile)]"
    by (simp add: demo_lib_def demo_world_def canon_def is_directory_def)
  have d: "is_dir demo_lib demo_world [''/'', ''home''] = Inr True"
    by (simp add: demo_lib_def canon_def is_directory_def)
  have g: "gethomedir demo_lib demo_world [] = Inr [''/'', ''home'']"
    by (simp add: demo_lib_def)
  from all_pathes_dotted_children [of demo_lib demo_world txt_rule _ "[]"] g
  have e: "expanduser demo_lib demo_world [''~''] = Inr [''/'', ''home'']"
    by simp
  from all_pathes_dotted_children [of demo_lib demo_world txt_rule] e d s
  have one: "all_pathes demo_lib demo_world txt_rule =
     [Inr [[''/'', ''home'', ''a.txt''], [''/'', ''home'', ''b.jpg''], [''/'', ''home'', ''x.d'']]]"
    by simp
  have rd: "is_dir demo_lib demo_world [''/'', ''root''] = Inr True"
    by (simp add: demo_lib_def is_directory_def)
  have rs: "scandir demo_lib demo_world [''/'', ''root''] = Inl ''PermissionError''"
    by (simp add: demo_lib_def)
  have re: "expanduser demo_lib demo_world [''/'', ''root''] = Inr [''/'', ''root'']"
    by (simp add: expanduser_def)
  from all_pathes_dotted_children [of demo_lib demo_world root_rule] re rd rs
  have two: "all_pathes demo_lib demo_world root_rule = [Inr []]"
    by simp
  from all_pathes_dotted_children [of demo_lib demo_world file_rule _ "[''a.txt'']"] g
  have fe: "expanduser demo_lib demo_world [''~'', ''a.txt''] = Inr [''/'', ''home'', ''a.txt'']"
    by simp
  have fd: "is_dir demo_lib demo_world [''/'', ''home'', ''a.txt''] = Inr False"
    by (simp add: demo_lib_def demo_world_def canon_def is_directory_def)
  from all_pathes_dotted_children [of demo_lib demo_world file_rule] fe fd
  have three: "all_pathes demo_lib demo_world file_rule = [Inr []]"
    by simp
  have sd: "is_dir demo_lib demo_world [''/'', ''root'', ''sub''] = Inl ''PermissionError''"
    by (simp add: demo_lib_def)
  have se: "expanduser demo_lib demo_world [''/'', ''root'', ''sub''] =
              Inr [''/'', ''root'', ''sub'']"
    by (simp add: expanduser_def)
  from all_pathes_dotted_children [of demo_lib demo_world sub_rule] e d s se sd
  have four: "all_pathes demo_lib demo_world sub_rule =
     [Inr [[''/'', ''home'', ''a.txt''], [''/'', ''home'', ''b.jpg''], [''/'', ''home'', ''x.d'']],
      Inl ''PermissionError'']"
    by (simp add: in_generator_def)
  have g1: "glob demo_lib demo_world [''/'', ''root''] ''*.*'' = Inr []"
    by (simp add: glob_def demo_lib_def is_directory_def)
  have g2: "glob demo_lib demo_world [''/'', ''home'', ''a.txt''] ''*.*'' = Inr []"
    by (simp add: glob_def demo_lib_def demo_world_def canon_def is_directory_def)
  have g3: "glob demo_lib demo_world [''/'', ''root'', ''sub''] ''*.*'' = Inl ''PermissionError''"
    by (simp add: glob_def demo_lib_def in_generator_def)
  show ?thesis
    by (intro conjI) (fact one e d s rd rs two fe fd three sd four g1 g2 g3)+
qed

text \<open>
  Against C5 as it was stated, which says that only files are candidates. In the concrete
  installation the home directory holds the directory \<^verbatim>\<open>x.d\<close>, and it is enumerated.
\<close>

theorem all_pathes_yields_directory:
  "scandir demo_lib demo_world [''/'', ''home''] =
     Inr [(''a.txt'', RegularFile), (''b.jpg'', RegularFile), (''x.d'', Directory),
          (''README'', RegularFile)] \<and>
   enumerated demo_lib demo_world txt_rule =
     [[''/'', ''home'', ''a.txt''], [''/'', ''home'', ''b.jpg''], [''/'', ''home'', ''x.d'']]"
  by (simp add: home_enumerated) (simp add: demo_lib_def demo_world_def canon_def is_directory_def)

text \<open>
  C6 (as amended). In a run of \<^verbatim>\<open>execute_rules\<close> with simulate flag \<open>s\<close>, every call
  of \<^verbatim>\<open>run\<close> is given \<open>s\<close>, and the world the run leaves is reached from the world it
  started in by calls of \<^verbatim>\<open>run\<close> on actions of the rules with flag \<open>s\<close> alone: the engine
  changes nothing itself. The calls a run makes are an initial part of a sequence that does
  not depend on the flag, and the whole of it when the run returns normally; so two runs
  from the same world with different flags make the same calls (same methods of the same
  objects, in the same order) as far as both get, and the same calls altogether when
  neither raises.
\<close>

theorem simulate_flag_passed_through:
  assumes ex: "execute_rules lib rules simulate w = (res, w', t)"
  shows
    "(\<forall>(a, p, fa, s, out)\<in>set (runs t). s = simulate) \<and>
     mutated_by (\<Union>r\<in>set rules. set (actions r)) simulate w w' \<and>
     prefix (calls t) (planned_calls lib w rules) \<and>
     (res = Inr () \<longrightarrow> calls t = planned_calls lib w rules) \<and>
     (\<forall>simulate2 res2 w2 t2.
        execute_rules lib rules simulate2 w = (res2, w2, t2) \<longrightarrow>
        (prefix (calls t) (calls t2) \<or> prefix (calls t2) (calls t)) \<and>
        (res = Inr () \<longrightarrow> res2 = Inr () \<longrightarrow> calls t = calls t2))"
proof (intro conjI allI impI)
  from ex show "\<forall>(a, p, fa, s, out)\<in>set (runs t). s = simulate"
  proof (cases rule: execute_rules_cases)
    case (discovery_raises e)
    with find_jobs_events [OF discovery_raises(1)] show ?thesis by simp
  next
    case (no_jobs tf)
    with find_jobs_events [OF no_jobs(1)] show ?thesis by simp
  next
    case (jobs_run jobs tf t2)
    with find_jobs_events [OF jobs_run(1)] run_jobs_flags [OF jobs_run(3)] show ?thesis by simp
  qed
next
  from ex show "mutated_by (\<Union>r\<in>set rules. set (actions r)) simulate w w'"
  proof (cases rule: execute_rules_cases)
    case (discovery_raises e)
    then show ?thesis by (simp add: mutated_by.unchanged)
  next
    case (no_jobs tf)
    then show ?thesis by (simp add: mutated_by.unchanged)
  next
    case (jobs_run jobs tf t2)
    have "\<forall>j\<in>set jobs. set (job_actions j) \<subseteq> (\<Union>r\<in>set rules. set (actions r))"
      using find_jobs_actions [OF jobs_run(1)] by blast
    from run_jobs_mutated [OF jobs_run(3) this mutated_by.unchanged] show ?thesis .
  qed
next
  show "prefix (calls t) (planned_calls lib w rules)"
    using execute_rules_planned [OF ex] by simp
next
  assume "res = Inr ()"
  then show "calls t = planned_calls lib w rules"
    using execute_rules_planned [OF ex] by simp
next
  fix simulate2 res2 w2 t2
  assume ex2: "execute_rules lib rules simulate2 w = (res2, w2, t2)"
  from execute_rules_planned [OF ex] execute_rules_planned [OF ex2]
  have "prefix (calls t) (planned_calls lib w rules)" "prefix (calls t2) (planned_calls lib w rules)"
    by simp_all
  then show "prefix (calls t) (calls t2) \<or> prefix (calls t2) (calls t)"
    by (rule prefix_same_cases)
next
  fix simulate2 res2 w2 t2
  assume ex2: "execute_rules lib rules simulate2 w = (res2, w2, t2)"
    and "res = Inr ()" "res2 = Inr ()"
  with execute_rules_planned [OF ex] execute_rules_planned [OF ex2]
  show "calls t = calls t2" by simp
qed

theorem simulate_flag_passed_through_witness:
  "execute_rules demo_lib [txt_rule] False demo_world =
     (Inr (),
      [([''/'', ''arch'', ''a.txt''], RegularFile),
       ([''/'', ''data'', ''b.jpg''], RegularFile),
       ([''/'', ''data'', ''x.d''], Directory),
       ([''/'', ''data'', ''README''], RegularFile),
       ([''/'', ''data'', ''x.d'', ''c.txt''], RegularFile)],
      [Matches 1 [''/'', ''home'', ''a.txt''] (Inr True),
       Matches 1 [''/'', ''home'', ''b.jpg''] (Inr False),
       Matches 1 [''/'', ''home'', ''x.d''] (Inr False),
       LogDebug [([''/'', ''home'', ''a.txt''], [1], [1, 2, 3])],
       LogInfo [''/'', ''home'', ''a.txt''],
       Parse 1 [''/'', ''home'', ''a.txt''] (Inr [(''ext'', ''.txt'')]),
       Run 1 [''/'', ''data'', ''a.txt''] [(''ext'', ''.txt'')] False
         (Inr (Some [''/'', ''out'', ''a.txt''])),
       Run 2 [''/'', ''out'', ''a.txt''] [(''ext'', ''.txt'')] False (Inr None),
       Run 3 [''/'', ''out'', ''a.txt''] [(''ext'', ''.txt'')] False
         (Inr (Some [''/'', ''arch'', ''a.txt'']))]) \<and>
   list_all (\<lambda>(a, p, fa, s, out). s = False)
     (runs
      [Matches 1 [''/'', ''home'', ''a.txt''] (Inr True),
       Matches 1 [''/'', ''home'', ''b.jpg''] (Inr False),
       Matches 1 [''/'', ''home'', ''x.d''] (Inr False),
       LogDebug [([''/'', ''home'', ''a.txt''], [1], [1, 2, 3])],
       LogInfo [''/'', ''home'', ''a.txt''],
       Parse 1 [''/'', ''home'', ''a.txt''] (Inr [(''ext'', ''.txt'')]),
       Run 1 [''/'', ''data'', ''a.txt''] [(''ext'', ''.txt'')] False
         (Inr (Some [''/'', ''out'', ''a.txt''])),
       Run 2 [''/'', ''out'', ''a.txt''] [(''ext'', ''.txt'')] False (Inr None),
       Run 3 [''/'', ''out'', ''a.txt''] [(''ext'', ''.txt'')] False
         (Inr (Some [''/'', ''arch'', ''a.txt'']))]) \<and>
   mutated_by (\<Union>r\<in>set [txt_rule]. set (actions r)) False demo_world
      [([''/'', ''arch'', ''a.txt''], RegularFile),
       ([''/'', ''data'', ''b.jpg''], RegularFile),
       ([''/'', ''data'', ''x.d''], Directory),
       ([''/'', ''data'', ''README''], RegularFile),
       ([''/'', ''data'', ''x.d'', ''c.txt''], RegularFile)] \<and>
   fst (execute_rules demo_lib [txt_rule] True demo_world) = Inr () \<and>
   calls (snd (snd (execute_rules demo_lib [txt_rule] False demo_world))) =
     calls (snd (snd (execute_rules demo_lib [txt_rule] True demo_world)))"
proof -
  note T = simulate_flag_passed_through [OF execute_txt]
  note flags = T [THEN conjunct1, folded list_all_iff]
  note mut = T [THEN conjunct2, THEN conjunct1]
  have ok: "fst (execute_rules demo_lib [txt_rule] True demo_world) = Inr ()"
    by (simp add: execute_txt_simulated)
  have same: "calls (snd (snd (execute_rules demo_lib [txt_rule] False demo_world))) =
     calls (snd (snd (execute_rules demo_lib [txt_rule] True demo_world)))"
    using T [THEN conjunct2, THEN conjunct2, THEN conjunct2, THEN conjunct2, rule_format,
        OF execute_txt_simulated, THEN conjunct2, rule_format, OF refl refl]
    by (simp only: execute_txt execute_txt_simulated snd_conv)
  show ?thesis
    by (intro conjI) (fact execute_txt flags mut ok same)+
qed

text \<open>
  Against C6 as it was stated, which says that a simulated run makes the same calls as a
  real run. An action that the file system refuses in a real run, and that only reports when
  simulated, ends the real run early: the simulated run goes on to call the last action.
\<close>

theorem simulated_run_calls_more:
  "calls (snd (snd (execute_rules demo_lib [jpg_rule] True demo_world))) =
     [MatchesCall 2 [''/'', ''home'', ''a.txt''],
      MatchesCall 2 [''/'', ''home'', ''b.jpg''],
      MatchesCall 2 [''/'', ''home'', ''x.d''],
      ParseCall 2 [''/'', ''home'', ''b.jpg''], RunCall 3, RunCall 4, RunCall 5] \<and>
   calls (snd (snd (execute_rules demo_lib [jpg_rule] False demo_world))) =
     [MatchesCall 2 [''/'', ''home'', ''a.txt''],
      MatchesCall 2 [''/'', ''home'', ''b.jpg''],
      MatchesCall 2 [''/'', ''home'', ''x.d''],
      ParseCall 2 [''/'', ''home'', ''b.jpg''], RunCall 3, RunCall 4] \<and>
   fst (execute_rules demo_lib [jpg_rule] True demo_world) = Inr () \<and>
   fst (execute_rules demo_lib [jpg_rule] False demo_world) = Inl (Raised ''PermissionError'')"
  by (simp add: execute_rules_def find_jobs_jpg run_job_jpg [simplified] job_repr_def)

text \<open>
  C7. When \<^verbatim>\<open>find_jobs\<close> returns the empty list, \<^verbatim>\<open>execute_rules\<close> prints
  "Nothing to do." and returns normally, leaving the world as it was, and calls neither
  \<^verbatim>\<open>parse\<close> nor \<^verbatim>\<open>run\<close>. The list is empty when no rule has a folder, and when no
  enumerated path is accepted by all filters of its rule.
\<close>

theorem nothing_to_do:
  "(find_jobs lib w rules = (Inr [], t) \<longrightarrow>
      execute_rules lib rules simulate w = (Inr (), w, t @ [Print ''Nothing to do.'']) \<and>
      parses (t @ [Print ''Nothing to do.'']) = [] \<and>
      runs (t @ [Print ''Nothing to do.'']) = []) \<and>
   ((\<forall>r\<in>set rules. folders r = []) \<longrightarrow> find_jobs lib w rules = (Inr [], [])) \<and>
   (find_jobs lib w rules = (Inr jobs, t) \<longrightarrow>
      (\<forall>r\<in>set rules. \<forall>p\<in>set (enumerated lib w r).
         \<exists>f\<in>set (filters r). matches f w p \<noteq> Inr True) \<longrightarrow>
      jobs = [])"
proof (intro conjI impI)
  assume fj: "find_jobs lib w rules = (Inr [], t)"
  then show "execute_rules lib rules simulate w = (Inr (), w, t @ [Print ''Nothing to do.''])"
    by (simp add: execute_rules_def)
  from find_jobs_events [OF fj]
  show "parses (t @ [Print ''Nothing to do.'']) = []" "runs (t @ [Print ''Nothing to do.'']) = []"
    by simp_all
next
  assume nf: "\<forall>r\<in>set rules. folders r = []"
  have "\<And>result. \<forall>r\<in>set rules. folders r = [] \<Longrightarrow>
          find_jobs_rules lib w rules result = (Inr result, [])"
    by (induction rules) (simp_all add: all_pathes_def)
  with nf show "find_jobs lib w rules = (Inr [], [])"
    by (simp add: find_jobs_def)
next
  assume fj: "find_jobs lib w rules = (Inr jobs, t)"
    and no: "\<forall>r\<in>set rules. \<forall>p\<in>set (enumerated lib w r). \<exists>f\<in>set (filters r). matches f w p \<noteq> Inr True"
  show "jobs = []"
  proof (cases jobs)
    case Nil
    then show ?thesis .
  next
    case (Cons j js)
    then have "j \<in> set jobs" by simp
    then have "\<exists>r\<in>set rules. \<exists>p\<in>set (enumerated lib w r). accepts w (filters r) p"
      unfolding in_find_jobs [OF fj] by blast
    with no show ?thesis by (auto simp: accepts_iff)
  qed
qed

theorem nothing_to_do_witness:
  "find_jobs demo_lib demo_world [txt_rule\<lparr>filters := [never 9]\<rparr>] =
     (Inr [],
      [Matches 9 [''/'', ''home'', ''a.txt''] (Inr False),
       Matches 9 [''/'', ''home'', ''b.jpg''] (Inr False),
       Matches 9 [''/'', ''home'', ''x.d''] (Inr False)]) \<and>
   execute_rules demo_lib [txt_rule\<lparr>filters := [never 9]\<rparr>] False demo_world =
     (Inr (), demo_world,
      [Matches 9 [''/'', ''home'', ''a.txt''] (Inr False),
       Matches 9 [''/'', ''home'', ''b.jpg''] (Inr False),
       Matches 9 [''/'', ''home'', ''x.d''] (Inr False),
       Print ''Nothing to do.'']) \<and>
   folders (txt_rule\<lparr>folders := []\<rparr>) = [] \<and>
   find_jobs demo_lib demo_world [txt_rule\<lparr>folders := []\<rparr>] = (Inr [], []) \<and>
   enumerated demo_lib demo_world (txt_rule\<lparr>filters := [never 9]\<rparr>) =
     [[''/'', ''home'', ''a.txt''], [''/'', ''home'', ''b.jpg''], [''/'', ''home'', ''x.d'']] \<and>
   filters (txt_rule\<lparr>filters := [never 9]\<rparr>) = [never 9] \<and>
   matches (never 9) demo_world [''/'', ''home'', ''a.txt''] \<noteq> Inr True \<and>
   matches (never 9) demo_world [''/'', ''home'', ''b.jpg''] \<noteq> Inr True \<and>
   matches (never 9) demo_world [''/'', ''home'', ''x.d''] \<noteq> Inr True \<and>
   fst (find_jobs demo_lib demo_world [txt_rule\<lparr>filters := [never 9]\<rparr>]) = Inr []"
proof -
  note T = nothing_to_do [of demo_lib demo_world "[txt_rule\<lparr>filters := [never 9]\<rparr>]" _ False]
  note U = nothing_to_do [of demo_lib demo_world "[txt_rule\<lparr>folders := []\<rparr>]"]
  have f: "folders (txt_rule\<lparr>folders := []\<rparr>) = []" by simp
  from T find_jobs_never have one:
    "execute_rules demo_lib [txt_rule\<lparr>filters := [never 9]\<rparr>] False demo_world =
     (Inr (), demo_world,
      [Matches 9 [''/'', ''home'', ''a.txt''] (Inr False),
       Matches 9 [''/'', ''home'', ''b.jpg''] (Inr False),
       Matches 9 [''/'', ''home'', ''x.d''] (Inr False),
       Print ''Nothing to do.''])"
    by simp
  from U f have two: "find_jobs demo_lib demo_world [txt_rule\<lparr>folders := []\<rparr>] = (Inr [], [])"
    by simp
  have en: "enumerated demo_lib demo_world (txt_rule\<lparr>filters := [never 9]\<rparr>) =
     [[''/'', ''home'', ''a.txt''], [''/'', ''home'', ''b.jpg''], [''/'', ''home'', ''x.d'']]"
    by (simp add: home_enumerated)
  obtain jobs t where fj:
    "find_jobs demo_lib demo_world [txt_rule\<lparr>filters := [never 9]\<rparr>] = (Inr jobs, t)"
    using find_jobs_never by blast
  have no: "\<forall>r\<in>set [txt_rule\<lparr>filters := [never 9]\<rparr>].
              \<forall>p\<in>set (enumerated demo_lib demo_world r).
                \<exists>f\<in>set (filters r). matches f demo_world p \<noteq> Inr True"
    by simp
  from nothing_to_do [of demo_lib demo_world "[txt_rule\<lparr>filters := [never 9]\<rparr>]" t _ jobs]
    fj no
  have "jobs = []" by blast
  with fj have three:
    "fst (find_jobs demo_lib demo_world [txt_rule\<lparr>filters := [never 9]\<rparr>]) = Inr []"
    by simp
  have m: "matches (never 9) demo_world [''/'', ''home'', ''a.txt''] \<noteq> Inr True"
    "matches (never 9) demo_world [''/'', ''home'', ''b.jpg''] \<noteq> Inr True"
    "matches (never 9) demo_world [''/'', ''home'', ''x.d''] \<noteq> Inr True"
    "filters (txt_rule\<lparr>filters := [never 9]\<rparr>) = [never 9]"
    by simp_all
  from find_jobs_never one f two en m three show ?thesis by (simp only: simp_thms)
qed

text \<open>
  C8. When a path is enumerated for two rules and accepted by all filters of each,
  \<^verbatim>\<open>find_jobs\<close> returns two jobs for the path, the first with the filters and the
  actions of the earlier rule and, after it, one with the filters and the actions of the
  later rule; so the path is not deduplicated, and the jobs are sorted by path. A run of
  \<^verbatim>\<open>execute_rules\<close> writes one line for each job it starts, in that order, and nothing
  else: no warning. When the run completes, its calls are those of discovery followed by
  those of every job in that order; for each of the two jobs these are \<^verbatim>\<open>parse\<close> on the
  first filter of its rule and \<^verbatim>\<open>run\<close> on every action of its rule, in order.
\<close>

theorem same_path_two_rules:
  assumes fj: "find_jobs lib w rules = (Inr jobs, tf)"
    and ik: "i < k" "k < length rules"
    and pi: "p \<in> set (enumerated lib w (rules ! i))"
    and pk: "p \<in> set (enumerated lib w (rules ! k))"
    and ai: "\<forall>f\<in>set (filters (rules ! i)). matches f w p = Inr True"
    and ak: "\<forall>f\<in>set (filters (rules ! k)). matches f w p = Inr True"
  shows
    "(\<exists>J1 ja J2 jb J3.
        jobs = J1 @ ja # J2 @ jb # J3 \<and>
        path ja = p \<and> job_filters ja = filters (rules ! i) \<and>
        job_actions ja = actions (rules ! i) \<and>
        path jb = p \<and> job_filters jb = filters (rules ! k) \<and>
        job_actions jb = actions (rules ! k) \<and>
        (\<forall>simulate res w' t.
           execute_rules lib rules simulate w = (res, w', t) \<longrightarrow> res = Inr () \<longrightarrow>
           (\<exists>fi fsi fk fsk.
              filters (rules ! i) = fi # fsi \<and> filters (rules ! k) = fk # fsk \<and>
              calls t =
                calls tf @ concat (map job_calls J1) @
                (ParseCall (fid fi) p # map (\<lambda>a. RunCall (aid a)) (actions (rules ! i))) @
                concat (map job_calls J2) @
                (ParseCall (fid fk) p # map (\<lambda>a. RunCall (aid a)) (actions (rules ! k))) @
                concat (map job_calls J3)))) \<and>
     2 \<le> length (filter (\<lambda>j. path j = p) jobs) \<and>
     sorted (map path jobs) \<and>
     (\<forall>simulate res w' t.
        execute_rules lib rules simulate w = (res, w', t) \<longrightarrow>
        prefix (printed t) (map LogInfo (map path jobs)) \<and>
        prefix (calls t) (calls tf @ concat (map job_calls jobs)) \<and>
        (res = Inr () \<longrightarrow>
           printed t = map LogInfo (map path jobs) \<and>
           calls t = calls tf @ concat (map job_calls jobs)))"
proof -
  let ?P = "\<lambda>j. path j = p"
  let ?g = "\<lambda>r. jobs_of w r (enumerated lib w r)"
  let ?Ji = "Job p (filters (rules ! i)) (actions (rules ! i))"
  let ?Jk = "Job p (filters (rules ! k)) (actions (rules ! k))"
  from two_rules_split [OF ik] obtain xs ys zs where
    rules: "rules = xs @ rules ! i # ys @ rules ! k # zs" by blast
  from ai have "accepts w (filters (rules ! i)) p" by (simp add: accepts_iff)
  from filter_path_jobs_of [OF pi this] obtain A1 B1 where
    1: "filter ?P (?g (rules ! i)) = A1 @ ?Ji # B1"
    by blast
  from ak have "accepts w (filters (rules ! k)) p" by (simp add: accepts_iff)
  from filter_path_jobs_of [OF pk this] obtain A2 B2 where
    2: "filter ?P (?g (rules ! k)) = A2 @ ?Jk # B2"
    by blast
  have "filter ?P (concat (map ?g rules)) =
          filter ?P (concat (map ?g xs)) @ filter ?P (?g (rules ! i)) @
          filter ?P (concat (map ?g ys)) @ filter ?P (?g (rules ! k)) @
          filter ?P (concat (map ?g zs))"
    by (subst rules) simp
  with 1 2 have split: "filter ?P jobs =
          (filter ?P (concat (map ?g xs)) @ A1) @ ?Ji #
          (B1 @ filter ?P (concat (map ?g ys)) @ A2) @ ?Jk #
          (B2 @ filter ?P (concat (map ?g zs)))"
    by (simp add: find_jobs_same_path [OF fj])
  from filter_split_two [OF split] obtain J1 J2 J3 where
    jobs: "jobs = J1 @ ?Ji # J2 @ ?Jk # J3" by blast
  from split have two: "2 \<le> length (filter ?P jobs)"
    by simp
  then have ne: "jobs \<noteq> []" by auto
  have sorted: "sorted (map path jobs)"
    by (rule sorted_paths_of_find_jobs [OF fj])
  have run: "\<forall>simulate res w' t.
        execute_rules lib rules simulate w = (res, w', t) \<longrightarrow>
        prefix (printed t) (map LogInfo (map path jobs)) \<and>
        prefix (calls t) (calls tf @ concat (map job_calls jobs)) \<and>
        (res = Inr () \<longrightarrow>
           printed t = map LogInfo (map path jobs) \<and>
           calls t = calls tf @ concat (map job_calls jobs))"
  proof (intro allI impI)
    fix simulate res w' t
    assume ex: "execute_rules lib rules simulate w = (res, w', t)"
    from ex show "prefix (printed t) (map LogInfo (map path jobs)) \<and>
        prefix (calls t) (calls tf @ concat (map job_calls jobs)) \<and>
        (res = Inr () \<longrightarrow>
           printed t = map LogInfo (map path jobs) \<and>
           calls t = calls tf @ concat (map job_calls jobs))"
    proof (cases rule: execute_rules_cases)
      case (discovery_raises e)
      with fj show ?thesis by simp
    next
      case (no_jobs tf')
      with fj ne show ?thesis by simp
    next
      case (jobs_run jobs' tf' t2)
      with fj have eq: "jobs' = jobs" "tf' = tf" by simp_all
      from run_jobs_calls [OF jobs_run(3)] find_jobs_events [OF fj] jobs_run(4) eq
      show ?thesis by simp
    qed
  qed
  have ran: "\<forall>simulate res w' t.
           execute_rules lib rules simulate w = (res, w', t) \<longrightarrow> res = Inr () \<longrightarrow>
           (\<exists>fi fsi fk fsk.
              filters (rules ! i) = fi # fsi \<and> filters (rules ! k) = fk # fsk \<and>
              calls t =
                calls tf @ concat (map job_calls J1) @
                (ParseCall (fid fi) p # map (\<lambda>a. RunCall (aid a)) (actions (rules ! i))) @
                concat (map job_calls J2) @
                (ParseCall (fid fk) p # map (\<lambda>a. RunCall (aid a)) (actions (rules ! k))) @
                concat (map job_calls J3))"
  proof (intro allI impI)
    fix simulate res w' t
    assume ex: "execute_rules lib rules simulate w = (res, w', t)" and res: "res = Inr ()"
    from run ex res have c: "calls t = calls tf @ concat (map job_calls jobs)" by blast
    from ex have nf: "\<forall>j\<in>set jobs. job_filters j \<noteq> []"
    proof (cases rule: execute_rules_cases)
      case (discovery_raises e)
      with fj show ?thesis by simp
    next
      case (no_jobs tf')
      with fj ne show ?thesis by simp
    next
      case (jobs_run jobs' tf' t2)
      with fj have eq: "jobs' = jobs" by simp
      from run_jobs_Inr_filters [OF jobs_run(3) [unfolded res eq]] show ?thesis .
    qed
    from nf jobs have "filters (rules ! i) \<noteq> []" "filters (rules ! k) \<noteq> []"
      by auto
    then obtain fi fsi fk fsk where
      f: "filters (rules ! i) = fi # fsi" "filters (rules ! k) = fk # fsk"
      by (auto simp: neq_Nil_conv)
    have "job_calls ?Ji = ParseCall (fid fi) p # map (\<lambda>a. RunCall (aid a)) (actions (rules ! i))"
      "job_calls ?Jk = ParseCall (fid fk) p # map (\<lambda>a. RunCall (aid a)) (actions (rules ! k))"
      using f by (simp_all add: job_calls_def)
    with c have "calls t =
                calls tf @ concat (map job_calls J1) @
                (ParseCall (fid fi) p # map (\<lambda>a. RunCall (aid a)) (actions (rules ! i))) @
                concat (map job_calls J2) @
                (ParseCall (fid fk) p # map (\<lambda>a. RunCall (aid a)) (actions (rules ! k))) @
                concat (map job_calls J3)"
      by (simp add: jobs)
    with f show "\<exists>fi fsi fk fsk.
              filters (rules ! i) = fi # fsi \<and> filters (rules ! k) = fk # fsk \<and>
              calls t =
                calls tf @ concat (map job_calls J1) @
                (ParseCall (fid fi) p # map (\<lambda>a. RunCall (aid a)) (actions (rules ! i))) @
                concat (map job_calls J2) @
                (ParseCall (fid fk) p # map (\<lambda>a. RunCall (aid a)) (actions (rules ! k))) @
                concat (map job_calls J3)"
      by blast
  qed
  have fields: "path ?Ji = p" "job_filters ?Ji = filters (rules ! i)"
    "job_actions ?Ji = actions (rules ! i)"
    "path ?Jk = p" "job_filters ?Jk = filters (rules ! k)"
    "job_actions ?Jk = actions (rules ! k)"
    unfolding Job_def by simp_all
  from jobs fields ran have both: "\<exists>J1 ja J2 jb J3.
        jobs = J1 @ ja # J2 @ jb # J3 \<and>
        path ja = p \<and> job_filters ja = filters (rules ! i) \<and>
        job_actions ja = actions (rules ! i) \<and>
        path jb = p \<and> job_filters jb = filters (rules ! k) \<and>
        job_actions jb = actions (rules ! k) \<and>
        (\<forall>simulate res w' t.
           execute_rules lib rules simulate w = (res, w', t) \<longrightarrow> res = Inr () \<longrightarrow>
           (\<exists>fi fsi fk fsk.
              filters (rules ! i) = fi # fsi \<and> filters (rules ! k) = fk # fsk \<and>
              calls t =
                calls tf @ concat (map job_calls J1) @
                (ParseCall (fid fi) p # map (\<lambda>a. RunCall (aid a)) (actions (rules ! i))) @
                concat (map job_calls J2) @
                (ParseCall (fid fk) p # map (\<lambda>a. RunCall (aid a)) (actions (rules ! k))) @
                concat (map job_calls J3)))"
    by blast
  from both two sorted run show ?thesis by (intro conjI)
qed

theorem same_path_two_rules_witness:
  "find_jobs demo_lib demo_world [txt_rule, a_rule] =
     (Inr [Job [''/'', ''home'', ''a.txt''] (filters txt_rule) (actions txt_rule),
           Job [''/'', ''home'', ''a.txt''] (filters a_rule) (actions a_rule)],
      [Matches 1 [''/'', ''home'', ''a.txt''] (Inr True),
       Matches 1 [''/'', ''home'', ''b.jpg''] (Inr False),
       Matches 1 [''/'', ''home'', ''x.d''] (Inr False),
       Matches 3 [''/'', ''home'', ''a.txt''] (Inr True),
       Matches 4 [''/'', ''home'', ''a.txt''] (Inr True),
       Matches 3 [''/'', ''home'', ''b.jpg''] (Inr False),
       Matches 3 [''/'', ''home'', ''x.d''] (Inr False)]) \<and>
   (0::nat) < 1 \<and> (1::nat) < length [txt_rule, a_rule] \<and>
   [''/'', ''home'', ''a.txt''] \<in> set (enumerated demo_lib demo_world ([txt_rule, a_rule] ! 0)) \<and>
   [''/'', ''home'', ''a.txt''] \<in> set (enumerated demo_lib demo_world ([txt_rule, a_rule] ! 1)) \<and>
   list_all (\<lambda>f. matches f demo_world [''/'', ''home'', ''a.txt''] = Inr True)
     (filters ([txt_rule, a_rule] ! 0)) \<and>
   list_all (\<lambda>f. matches f demo_world [''/'', ''home'', ''a.txt''] = Inr True)
     (filters ([txt_rule, a_rule] ! 1)) \<and>
   (\<exists>ja jb.
      [Job [''/'', ''home'', ''a.txt''] (filters txt_rule) (actions txt_rule),
       Job [''/'', ''home'', ''a.txt''] (filters a_rule) (actions a_rule)] = [ja, jb] \<and>
      path ja = [''/'', ''home'', ''a.txt''] \<and>
      job_filters ja = [has_ext 1 ''.txt''] \<and>
      job_actions ja = [move_to 1 [''/'', ''out''], echo 2, move_to 3 [''/'', ''arch'']] \<and>
      path jb = [''/'', ''home'', ''a.txt''] \<and>
      job_filters jb = [has_ext 3 ''t'', has_ext 4 ''a.txt''] \<and>
      job_actions jb = [echo 6, echo 8]) \<and>
   map job_repr
     [Job [''/'', ''home'', ''a.txt''] (filters txt_rule) (actions txt_rule),
      Job [''/'', ''home'', ''a.txt''] (filters a_rule) (actions a_rule)] =
     [([''/'', ''home'', ''a.txt''], [1], [1, 2, 3]), ([''/'', ''home'', ''a.txt''], [3, 4], [6, 8])] \<and>
   2 \<le> length (filter (\<lambda>j. path j = [''/'', ''home'', ''a.txt''])
               [Job [''/'', ''home'', ''a.txt''] (filters txt_rule) (actions txt_rule),
                Job [''/'', ''home'', ''a.txt''] (filters a_rule) (actions a_rule)]) \<and>
   fst (execute_rules demo_lib [txt_rule, a_rule] False demo_world) = Inr () \<and>
   printed
      [Matches 1 [''/'', ''home'', ''a.txt''] (Inr True),
       Matches 1 [''/'', ''home'', ''b.jpg''] (Inr False),
       Matches 1 [''/'', ''home'', ''x.d''] (Inr False),
       Matches 3 [''/'', ''home'', ''a.txt''] (Inr True),
       Matches 4 [''/'', ''home'', ''a.txt''] (Inr True),
       Matches 3 [''/'', ''home'', ''b.jpg''] (Inr False),
       Matches 3 [''/'', ''home'', ''x.d''] (Inr False),
       LogDebug [([''/'', ''home'', ''a.txt''], [1], [1, 2, 3]),
                 ([''/'', ''home'', ''a.txt''], [3, 4], [6, 8])],
       LogInfo [''/'', ''home'', ''a.txt''],
       Parse 1 [''/'', ''home'', ''a.txt''] (Inr [(''ext'', ''.txt'')]),
       Run 1 [''/'', ''data'', ''a.txt''] [(''ext'', ''.txt'')] False
         (Inr (Some [''/'', ''out'', ''a.txt''])),
       Run 2 [''/'', ''out'', ''a.txt''] [(''ext'', ''.txt'')] False (Inr None),
       Run 3 [''/'', ''out'', ''a.txt''] [(''ext'', ''.txt'')] False
         (Inr (Some [''/'', ''arch'', ''a.txt''])),
       LogInfo [''/'', ''home'', ''a.txt''],
       Parse 3 [''/'', ''home'', ''a.txt''] (Inr [(''ext'', ''t'')]),
       Run 6 [''/'', ''data'', ''a.txt''] [(''ext'', ''t'')] False (Inr None),
       Run 8 [''/'', ''data'', ''a.txt''] [(''ext'', ''t'')] False (Inr None)] =
     [LogInfo [''/'', ''home'', ''a.txt''], LogInfo [''/'', ''home'', ''a.txt'']] \<and>
   snd (snd (execute_rules demo_lib [txt_rule, a_rule] False demo_world)) =
      [Matches 1 [''/'', ''home'', ''a.txt''] (Inr True),
       Matches 1 [''/'', ''home'', ''b.jpg''] (Inr False),
       Matches 1 [''/'', ''home'', ''x.d''] (Inr False),
       Matches 3 [''/'', ''home'', ''a.txt''] (Inr True),
       Matches 4 [''/'', ''home'', ''a.txt''] (Inr True),
       Matches 3 [''/'', ''home'', ''b.jpg''] (Inr False),
       Matches 3 [''/'', ''home'', ''x.d''] (Inr False),
       LogDebug [([''/'', ''home'', ''a.txt''], [1], [1, 2, 3]),
                 ([''/'', ''home'', ''a.txt''], [3, 4], [6, 8])],
       LogInfo [''/'', ''home'', ''a.txt''],
       Parse 1 [''/'', ''home'', ''a.txt''] (Inr [(''ext'', ''.txt'')]),
       Run 1 [''/'', ''data'', ''a.txt''] [(''ext'', ''.txt'')] False
         (Inr (Some [''/'', ''out'', ''a.txt''])),
       Run 2 [''/'', ''out'', ''a.txt''] [(''ext'', ''.txt'')] False (Inr None),
       Run 3 [''/'', ''out'', ''a.txt''] [(''ext'', ''.txt'')] False
         (Inr (Some [''/'', ''arch'', ''a.txt''])),
       LogInfo [''/'', ''home'', ''a.txt''],
       Parse 3 [''/'', ''home'', ''a.txt''] (Inr [(''ext'', ''t'')]),
       Run 6 [''/'', ''data'', ''a.txt''] [(''ext'', ''t'')] False (Inr None),
       Run 8 [''/'', ''data'', ''a.txt''] [(''ext'', ''t'')] False (Inr None)] \<and>
   printed (snd (snd (execute_rules demo_lib [txt_rule, a_rule] False demo_world))) =
     [LogInfo [''/'', ''home'', ''a.txt''], LogInfo [''/'', ''home'', ''a.txt'']] \<and>
   calls (snd (snd (execute_rules demo_lib [txt_rule, a_rule] False demo_world))) =
     [MatchesCall 1 [''/'', ''home'', ''a.txt''],
      MatchesCall 1 [''/'', ''home'', ''b.jpg''],
      MatchesCall 1 [''/'', ''home'', ''x.d''],
      MatchesCall 3 [''/'', ''home'', ''a.txt''],
      MatchesCall 4 [''/'', ''home'', ''a.txt''],
      MatchesCall 3 [''/'', ''home'', ''b.jpg''],
      MatchesCall 3 [''/'', ''home'', ''x.d''],
      ParseCall 1 [''/'', ''home'', ''a.txt''], RunCall 1, RunCall 2, RunCall 3,
      ParseCall 3 [''/'', ''home'', ''a.txt''], RunCall 6, RunCall 8] \<and>
   runs (snd (snd (execute_rules demo_lib [txt_rule, a_rule] False demo_world))) =
     [(1, [''/'', ''data'', ''a.txt''], [(''ext'', ''.txt'')], False,
       Inr (Some [''/'', ''out'', ''a.txt''])),
      (2, [''/'', ''out'', ''a.txt''], [(''ext'', ''.txt'')], False, Inr None),
      (3, [''/'', ''out'', ''a.txt''], [(''ext'', ''.txt'')], False,
       Inr (Some [''/'', ''arch'', ''a.txt''])),
      (6, [''/'', ''data'', ''a.txt''], [(''ext'', ''t'')], False, Inr None),
      (8, [''/'', ''data'', ''a.txt''], [(''ext'', ''t'')], False, Inr None)]"
proof -
  let ?jt = "Job [''/'', ''home'', ''a.txt''] (filters txt_rule) (actions txt_rule)"
  let ?ja = "Job [''/'', ''home'', ''a.txt''] (filters a_rule) (actions a_rule)"
  have ik: "(0::nat) < 1" "(1::nat) < length [txt_rule, a_rule]" by simp_all
  have p0: "[''/'', ''home'', ''a.txt'']
              \<in> set (enumerated demo_lib demo_world ([txt_rule, a_rule] ! 0))"
    by (simp add: home_enumerated)
  have p1: "[''/'', ''home'', ''a.txt'']
              \<in> set (enumerated demo_lib demo_world ([txt_rule, a_rule] ! 1))"
    by (simp add: home_enumerated)
  have a0: "list_all (\<lambda>f. matches f demo_world [''/'', ''home'', ''a.txt''] = Inr True)
     (filters ([txt_rule, a_rule] ! 0))"
    by simp
  have a1: "list_all (\<lambda>f. matches f demo_world [''/'', ''home'', ''a.txt''] = Inr True)
     (filters ([txt_rule, a_rule] ! 1))"
    by simp
  note T = same_path_two_rules [OF find_jobs_txt_a ik p0 p1
      a0 [unfolded list_all_iff] a1 [unfolded list_all_iff]]
  from T [THEN conjunct1] obtain J1 ja J2 jb J3 where
    split: "[?jt, ?ja] = J1 @ ja # J2 @ jb # J3" and
    fields: "path ja = [''/'', ''home'', ''a.txt'']"
      "job_filters ja = filters ([txt_rule, a_rule] ! 0)"
      "job_actions ja = actions ([txt_rule, a_rule] ! 0)"
      "path jb = [''/'', ''home'', ''a.txt'']"
      "job_filters jb = filters ([txt_rule, a_rule] ! 1)"
      "job_actions jb = actions ([txt_rule, a_rule] ! 1)"
    by blast
  from arg_cong [OF split, of length] have "J1 = []" "J2 = []" "J3 = []" by simp_all
  with split have "[?jt, ?ja] = [ja, jb]" by simp
  with fields have both: "\<exists>ja jb.
      [?jt, ?ja] = [ja, jb] \<and>
      path ja = [''/'', ''home'', ''a.txt''] \<and>
      job_filters ja = [has_ext 1 ''.txt''] \<and>
      job_actions ja = [move_to 1 [''/'', ''out''], echo 2, move_to 3 [''/'', ''arch'']] \<and>
      path jb = [''/'', ''home'', ''a.txt''] \<and>
      job_filters jb = [has_ext 3 ''t'', has_ext 4 ''a.txt''] \<and>
      job_actions jb = [echo 6, echo 8]"
    by (intro exI [of _ ja] exI [of _ jb]) simp
  have repr: "map job_repr [?jt, ?ja] =
     [([''/'', ''home'', ''a.txt''], [1], [1, 2, 3]), ([''/'', ''home'', ''a.txt''], [3, 4], [6, 8])]"
    unfolding Job_def job_repr_def by simp
  note two = T [THEN conjunct2, THEN conjunct1]
  have ok: "fst (execute_rules demo_lib [txt_rule, a_rule] False demo_world) = Inr ()"
    by (simp add: execute_txt_a)
  obtain res w' t where ex: "execute_rules demo_lib [txt_rule, a_rule] False demo_world = (res, w', t)"
    by (cases "execute_rules demo_lib [txt_rule, a_rule] False demo_world")
  with ok have res: "res = Inr ()" by simp
  note U = T [THEN conjunct2, THEN conjunct2, THEN conjunct2, rule_format, OF ex, THEN conjunct2,
      THEN conjunct2, rule_format, OF res]
  have out: "printed (snd (snd (execute_rules demo_lib [txt_rule, a_rule] False demo_world))) =
     [LogInfo [''/'', ''home'', ''a.txt''], LogInfo [''/'', ''home'', ''a.txt'']]"
    using U [THEN conjunct1] ex by simp
  have cs: "calls (snd (snd (execute_rules demo_lib [txt_rule, a_rule] False demo_world))) =
     [MatchesCall 1 [''/'', ''home'', ''a.txt''],
      MatchesCall 1 [''/'', ''home'', ''b.jpg''],
      MatchesCall 1 [''/'', ''home'', ''x.d''],
      MatchesCall 3 [''/'', ''home'', ''a.txt''],
      MatchesCall 4 [''/'', ''home'', ''a.txt''],
      MatchesCall 3 [''/'', ''home'', ''b.jpg''],
      MatchesCall 3 [''/'', ''home'', ''x.d''],
      ParseCall 1 [''/'', ''home'', ''a.txt''], RunCall 1, RunCall 2, RunCall 3,
      ParseCall 3 [''/'', ''home'', ''a.txt''], RunCall 6, RunCall 8]"
    using U [THEN conjunct2] ex unfolding Job_def job_calls_def by simp
  have rn: "runs (snd (snd (execute_rules demo_lib [txt_rule, a_rule] False demo_world))) =
     [(1, [''/'', ''data'', ''a.txt''], [(''ext'', ''.txt'')], False,
       Inr (Some [''/'', ''out'', ''a.txt''])),
      (2, [''/'', ''out'', ''a.txt''], [(''ext'', ''.txt'')], False, Inr None),
      (3, [''/'', ''out'', ''a.txt''], [(''ext'', ''.txt'')], False,
       Inr (Some [''/'', ''arch'', ''a.txt''])),
      (6, [''/'', ''data'', ''a.txt''], [(''ext'', ''t'')], False, Inr None),
      (8, [''/'', ''data'', ''a.txt''], [(''ext'', ''t'')], False, Inr None)]"
    by (simp add: execute_txt_a)
  have tr: "snd (snd (execute_rules demo_lib [txt_rule, a_rule] False demo_world)) =
      [Matches 1 [''/'', ''home'', ''a.txt''] (Inr True),
       Matches 1 [''/'', ''home'', ''b.jpg''] (Inr False),
       Matches 1 [''/'', ''home'', ''x.d''] (Inr False),
       Matches 3 [''/'', ''home'', ''a.txt''] (Inr True),
       Matches 4 [''/'', ''home'', ''a.txt''] (Inr True),
       Matches 3 [''/'', ''home'', ''b.jpg''] (Inr False),
       Matches 3 [''/'', ''home'', ''x.d''] (Inr False),
       LogDebug [([''/'', ''home'', ''a.txt''], [1], [1, 2, 3]),
                 ([''/'', ''home'', ''a.txt''], [3, 4], [6, 8])],
       LogInfo [''/'', ''home'', ''a.txt''],
       Parse 1 [''/'', ''home'', ''a.txt''] (Inr [(''ext'', ''.txt'')]),
       Run 1 [''/'', ''data'', ''a.txt''] [(''ext'', ''.txt'')] False
         (Inr (Some [''/'', ''out'', ''a.txt''])),
       Run 2 [''/'', ''out'', ''a.txt''] [(''ext'', ''.txt'')] False (Inr None),
       Run 3 [''/'', ''out'', ''a.txt''] [(''ext'', ''.txt'')] False
         (Inr (Some [''/'', ''arch'', ''a.txt''])),
       LogInfo [''/'', ''home'', ''a.txt''],
       Parse 3 [''/'', ''home'', ''a.txt''] (Inr [(''ext'', ''t'')]),
       Run 6 [''/'', ''data'', ''a.txt''] [(''ext'', ''t'')] False (Inr None),
       Run 8 [''/'', ''data'', ''a.txt''] [(''ext'', ''t'')] False (Inr None)]"
    by (simp add: execute_txt_a)
  have pr: "printed
      [Matches 1 [''/'', ''home'', ''a.txt''] (Inr True),
       Matches 1 [''/'', ''home'', ''b.jpg''] (Inr False),
       Matches 1 [''/'', ''home'', ''x.d''] (Inr False),
       Matches 3 [''/'', ''home'', ''a.txt''] (Inr True),
       Matches 4 [''/'', ''home'', ''a.txt''] (Inr True),
       Matches 3 [''/'', ''home'', ''b.jpg''] (Inr False),
       Matches 3 [''/'', ''home'', ''x.d''] (Inr False),
       LogDebug [([''/'', ''home'', ''a.txt''], [1], [1, 2, 3]),
                 ([''/'', ''home'', ''a.txt''], [3, 4], [6, 8])],
       LogInfo [''/'', ''home'', ''a.txt''],
       Parse 1 [''/'', ''home'', ''a.txt''] (Inr [(''ext'', ''.txt'')]),
       Run 1 [''/'', ''data'', ''a.txt''] [(''ext'', ''.txt'')] False
         (Inr (Some [''/'', ''out'', ''a.txt''])),
       Run 2 [''/'', ''out'', ''a.txt''] [(''ext'', ''.txt'')] False (Inr None),
       Run 3 [''/'', ''out'', ''a.txt''] [(''ext'', ''.txt'')] False
         (Inr (Some [''/'', ''arch'', ''a.txt''])),
       LogInfo [''/'', ''home'', ''a.txt''],
       Parse 3 [''/'', ''home'', ''a.txt''] (Inr [(''ext'', ''t'')]),
       Run 6 [''/'', ''data'', ''a.txt''] [(''ext'', ''t'')] False (Inr None),
       Run 8 [''/'', ''data'', ''a.txt''] [(''ext'', ''t'')] False (Inr None)] =
     [LogInfo [''/'', ''home'', ''a.txt''], LogInfo [''/'', ''home'', ''a.txt'']]"
    by simp
  show ?thesis
    by (intro conjI) (fact find_jobs_txt_a ik p0 p1 a0 a1 both repr two ok pr tr out cs rn)+
qed

text \<open>
  C9. \<^verbatim>\<open>execute_rules\<close> catches nothing. When an action raises, the run ends with that
  exception: the events end with the call that raised, so no later action of the chain
  and no later job is run, and the world is the one that call left, with everything the
  earlier calls did. When \<^verbatim>\<open>parse\<close> raises, the run ends in the same way before any
  action of that job. When discovery raises, \<^verbatim>\<open>execute_rules\<close> ends with the same
  exception and the world as it was. Discovery raises when the enumeration of a folder
  raises and when a filter that is asked raises; it ends at the first of these, whichever
  rule, folder and path it is reached at, with the exception of the enumeration, or with
  the exception of the filter as it leaves the generator expression (a
  \<^verbatim>\<open>StopIteration\<close> as \<^verbatim>\<open>RuntimeError\<close>, any other unchanged), and with the events up
  to the call that raised. The enumeration of a folder raises what the expansion of the
  folder, \<^verbatim>\<open>is_dir\<close>, or the listing raises, except the \<^verbatim>\<open>PermissionError\<close> of the
  listing, which pathlib handles itself.
\<close>

theorem failures_propagate:
  "(find_jobs lib w rules = (Inr (js1 @ j # js2), tf) \<longrightarrow>
    run_jobs lib simulate js1 w = (Inr (), w1, t1) \<longrightarrow>
    job_filters j = f # fs \<longrightarrow>
    parse f w1 (path j) = Inr fa \<longrightarrow>
    resolve lib w1 (path j) = Inr cur \<longrightarrow>
    job_actions j = as1 @ a # as2 \<longrightarrow>
    run_actions simulate fa as1 cur w1 = (Inr c1, w2, t2) \<longrightarrow>
    run a c1 fa simulate w2 = (Inl e, w3) \<longrightarrow>
      execute_rules lib rules simulate w =
        (Inl (Raised e), w3,
         tf @ LogDebug (map job_repr (js1 @ j # js2)) # t1 @
         LogInfo (path j) # Parse (fid f) (path j) (Inr fa) # t2 @
         [Run (aid a) c1 fa simulate (Inl e)])) \<and>
   (find_jobs lib w rules = (Inr (js1 @ j # js2), tf) \<longrightarrow>
    run_jobs lib simulate js1 w = (Inr (), w1, t1) \<longrightarrow>
    job_filters j = f # fs \<longrightarrow>
    parse f w1 (path j) = Inl e' \<longrightarrow>
      execute_rules lib rules simulate w =
        (Inl (Raised e'), w1,
         tf @ LogDebug (map job_repr (js1 @ j # js2)) # t1 @
         [LogInfo (path j), Parse (fid f) (path j) (Inl e')])) \<and>
   (find_jobs lib w rules = (Inl err, tf') \<longrightarrow>
      execute_rules lib rules simulate w = (Inl err, w, tf')) \<and>
   (r \<in> set rules \<longrightarrow> Inl e1 \<in> set (all_pathes lib w r) \<longrightarrow>
      (\<exists>err t. find_jobs lib w rules = (Inl err, t))) \<and>
   (r \<in> set rules \<longrightarrow> p \<in> set (enumerated lib w r) \<longrightarrow> filters r = fs1 @ g # fs2 \<longrightarrow>
    (\<forall>h\<in>set fs1. matches h w p = Inr True) \<longrightarrow> matches g w p = Inl e2 \<longrightarrow>
      (\<exists>err t. find_jobs lib w rules = (Inl err, t))) \<and>
   (folders r0 = fo1 @ folder # fo2 \<longrightarrow>
    (expanduser lib w folder = Inl e3 \<or>
     (\<exists>d. expanduser lib w folder = Inr d \<and>
        (is_dir lib w d = Inl e3 \<or>
         is_dir lib w d = Inr True \<and> scandir lib w d = Inl e3 \<and> e3 \<noteq> ''PermissionError''))) \<longrightarrow>
      all_pathes lib w r0 =
        all_pathes lib w (r0\<lparr>folders := fo1\<rparr>) @ Inl (in_generator e3) #
        all_pathes lib w (r0\<lparr>folders := fo2\<rparr>)) \<and>
   (find_jobs lib w rs1 = (Inr js3, t3) \<longrightarrow>
    all_pathes lib w r0 = cs1 @ Inl e4 # cs2 \<longrightarrow>
    find_jobs_folders w r0 cs1 [] = (Inr js4, t4) \<longrightarrow>
      find_jobs lib w (rs1 @ r0 # rs2) = (Inl (Raised e4), t3 @ t4)) \<and>
   (find_jobs lib w rs1 = (Inr js3, t3) \<longrightarrow>
    all_pathes lib w r0 = cs1 @ Inr (ps1 @ p0 # ps2) # cs2 \<longrightarrow>
    find_jobs_folders w r0 (cs1 @ [Inr ps1]) [] = (Inr js4, t4) \<longrightarrow>
    filters r0 = gs1 @ g0 # gs2 \<longrightarrow>
    (\<forall>h\<in>set gs1. matches h w p0 = Inr True) \<longrightarrow> matches g0 w p0 = Inl e5 \<longrightarrow>
      find_jobs lib w (rs1 @ r0 # rs2) =
        (Inl (Raised (in_generator e5)),
         t3 @ t4 @ map (\<lambda>h. Matches (fid h) p0 (Inr True)) gs1 @
         [Matches (fid g0) p0 (Inl e5)])) \<and>
   in_generator ''StopIteration'' = ''RuntimeError'' \<and>
   (e6 \<noteq> ''StopIteration'' \<longrightarrow> in_generator e6 = e6)"
proof (intro conjI impI)
  assume fj: "find_jobs lib w rules = (Inr (js1 @ j # js2), tf)"
    and rj: "run_jobs lib simulate js1 w = (Inr (), w1, t1)"
    and f: "job_filters j = f # fs"
    and pa: "parse f w1 (path j) = Inr fa"
    and rs: "resolve lib w1 (path j) = Inr cur"
    and as: "job_actions j = as1 @ a # as2"
    and ra: "run_actions simulate fa as1 cur w1 = (Inr c1, w2, t2)"
    and ru: "run a c1 fa simulate w2 = (Inl e, w3)"
  from ra ru have "run_actions simulate fa (as1 @ a # as2) cur w1 =
      (Inl (Raised e), w3, t2 @ [Run (aid a) c1 fa simulate (Inl e)])"
    by (simp add: run_actions_append)
  with f pa rs as have "run_job lib simulate j w1 =
      (Inl (Raised e), w3,
       LogInfo (path j) # Parse (fid f) (path j) (Inr fa) # t2 @
       [Run (aid a) c1 fa simulate (Inl e)])"
    by (simp add: run_job_def first_def)
  with rj have "run_jobs lib simulate (js1 @ j # js2) w =
      (Inl (Raised e), w3,
       t1 @ LogInfo (path j) # Parse (fid f) (path j) (Inr fa) # t2 @
       [Run (aid a) c1 fa simulate (Inl e)])"
    by (simp add: run_jobs_append)
  with fj show "execute_rules lib rules simulate w =
        (Inl (Raised e), w3,
         tf @ LogDebug (map job_repr (js1 @ j # js2)) # t1 @
         LogInfo (path j) # Parse (fid f) (path j) (Inr fa) # t2 @
         [Run (aid a) c1 fa simulate (Inl e)])"
    by (simp add: execute_rules_def)
next
  assume fj: "find_jobs lib w rules = (Inr (js1 @ j # js2), tf)"
    and rj: "run_jobs lib simulate js1 w = (Inr (), w1, t1)"
    and f: "job_filters j = f # fs"
    and pa: "parse f w1 (path j) = Inl e'"
  from f pa have "run_job lib simulate j w1 =
      (Inl (Raised e'), w1, [LogInfo (path j), Parse (fid f) (path j) (Inl e')])"
    by (simp add: run_job_def first_def)
  with rj have "run_jobs lib simulate (js1 @ j # js2) w =
      (Inl (Raised e'), w1, t1 @ [LogInfo (path j), Parse (fid f) (path j) (Inl e')])"
    by (simp add: run_jobs_append)
  with fj show "execute_rules lib rules simulate w =
        (Inl (Raised e'), w1,
         tf @ LogDebug (map job_repr (js1 @ j # js2)) # t1 @
         [LogInfo (path j), Parse (fid f) (path j) (Inl e')])"
    by (simp add: execute_rules_def)
next
  assume "find_jobs lib w rules = (Inl err, tf')"
  then show "execute_rules lib rules simulate w = (Inl err, w, tf')"
    by (simp add: execute_rules_def)
next
  assume r: "r \<in> set rules" and c: "Inl e1 \<in> set (all_pathes lib w r)"
  show "\<exists>err t. find_jobs lib w rules = (Inl err, t)"
  proof (rule ccontr)
    assume "\<not> (\<exists>err t. find_jobs lib w rules = (Inl err, t))"
    with find_jobs_total [of lib w rules] obtain jobs t where
      "find_jobs lib w rules = (Inr jobs, t)" by blast
    from find_jobs_Inr_chunks [OF this r c] show False by simp
  qed
next
  assume r: "r \<in> set rules" and p: "p \<in> set (enumerated lib w r)"
    and fs: "filters r = fs1 @ g # fs2"
    and ok: "\<forall>h\<in>set fs1. matches h w p = Inr True" and bad: "matches g w p = Inl e2"
  show "\<exists>err t. find_jobs lib w rules = (Inl err, t)"
  proof (rule ccontr)
    assume "\<not> (\<exists>err t. find_jobs lib w rules = (Inl err, t))"
    with find_jobs_total [of lib w rules] obtain jobs t where
      "find_jobs lib w rules = (Inr jobs, t)" by blast
    from find_jobs_asked [OF this r p] all_matches_raises [OF ok bad, of fs2] fs
    show False by simp
  qed
next
  assume fo: "folders r0 = fo1 @ folder # fo2"
    and bad: "expanduser lib w folder = Inl e3 \<or>
     (\<exists>d. expanduser lib w folder = Inr d \<and>
        (is_dir lib w d = Inl e3 \<or>
         is_dir lib w d = Inr True \<and> scandir lib w d = Inl e3 \<and> e3 \<noteq> ''PermissionError''))"
  have "(case expanduser lib w folder of
           Inl e \<Rightarrow> Inl (in_generator e)
         | Inr d \<Rightarrow>
             (case glob lib w d ''*.*'' of
                Inl e \<Rightarrow> Inl (in_generator e)
              | Inr ps \<Rightarrow> Inr ps)) = Inl (in_generator e3)"
    using bad unfolding glob_def by (auto simp: in_generator_def)
  then show "all_pathes lib w r0 =
        all_pathes lib w (r0\<lparr>folders := fo1\<rparr>) @ Inl (in_generator e3) #
        all_pathes lib w (r0\<lparr>folders := fo2\<rparr>)"
    by (simp add: all_pathes_def fo)
next
  assume fj: "find_jobs lib w rs1 = (Inr js3, t3)"
    and ap: "all_pathes lib w r0 = cs1 @ Inl e4 # cs2"
    and ff: "find_jobs_folders w r0 cs1 [] = (Inr js4, t4)"
  from find_jobs_rules_of_find_jobs [OF fj] obtain u where
    u: "find_jobs_rules lib w rs1 [] = (Inr u, t3)" by blast
  from ff have 1: "find_jobs_folders w r0 cs1 u = (Inr (u @ js4), t4)"
    by (subst find_jobs_folders_acc) simp
  have "find_jobs_folders w r0 (Inl e4 # cs2) (u @ js4) = (Inl (Raised e4), [])"
    by simp
  then have "find_jobs_folders w r0 (all_pathes lib w r0) u = (Inl (Raised e4), t4)"
    unfolding ap find_jobs_folders_append 1 by simp
  then have "find_jobs_rules lib w (r0 # rs2) u = (Inl (Raised e4), t4)"
    by simp
  then have "find_jobs_rules lib w (rs1 @ r0 # rs2) [] = (Inl (Raised e4), t3 @ t4)"
    unfolding find_jobs_rules_append u by simp
  then show "find_jobs lib w (rs1 @ r0 # rs2) = (Inl (Raised e4), t3 @ t4)"
    by (simp add: find_jobs_def)
next
  assume fj: "find_jobs lib w rs1 = (Inr js3, t3)"
    and ap: "all_pathes lib w r0 = cs1 @ Inr (ps1 @ p0 # ps2) # cs2"
    and ff: "find_jobs_folders w r0 (cs1 @ [Inr ps1]) [] = (Inr js4, t4)"
    and fs: "filters r0 = gs1 @ g0 # gs2"
    and ok: "\<forall>h\<in>set gs1. matches h w p0 = Inr True"
    and bad: "matches g0 w p0 = Inl e5"
  let ?tm = "map (\<lambda>h. Matches (fid h) p0 (Inr True)) gs1 @ [Matches (fid g0) p0 (Inl e5)]"
  have "all_matches w (gs1 @ g0 # gs2) p0 = (Inl (Raised (in_generator e5)), ?tm)"
    using ok bad by (induction gs1) simp_all
  with fs have am: "all_matches w (filters r0) p0 = (Inl (Raised (in_generator e5)), ?tm)"
    by simp
  from find_jobs_rules_of_find_jobs [OF fj] obtain u where
    u: "find_jobs_rules lib w rs1 [] = (Inr u, t3)" by blast
  from ff have 1: "find_jobs_folders w r0 (cs1 @ [Inr ps1]) u = (Inr (u @ js4), t4)"
    by (subst find_jobs_folders_acc) simp
  from am have 2: "find_jobs_paths w r0 (p0 # ps2) (u @ js4) = (Inl (Raised (in_generator e5)), ?tm)"
    by simp
  obtain r3 t5 where 3: "find_jobs_folders w r0 cs1 u = (r3, t5)"
    by (cases "find_jobs_folders w r0 cs1 u")
  from 1 3 obtain mid where mid: "r3 = Inr mid"
    unfolding find_jobs_folders_append by (cases r3) simp_all
  obtain r4 t6 where 4: "find_jobs_paths w r0 ps1 mid = (r4, t6)"
    by (cases "find_jobs_paths w r0 ps1 mid")
  from 1 3 mid 4 have 5: "r4 = Inr (u @ js4)" "t4 = t5 @ t6"
    unfolding find_jobs_folders_append by (cases r4; simp)+
  have "find_jobs_paths w r0 (ps1 @ p0 # ps2) mid = (Inl (Raised (in_generator e5)), t6 @ ?tm)"
    unfolding find_jobs_paths_append 4 5 using 2 by simp
  then have "find_jobs_folders w r0 (Inr (ps1 @ p0 # ps2) # cs2) mid =
               (Inl (Raised (in_generator e5)), t6 @ ?tm)"
    by simp
  then have "find_jobs_folders w r0 (all_pathes lib w r0) u =
               (Inl (Raised (in_generator e5)), t4 @ ?tm)"
    unfolding ap find_jobs_folders_append 3 mid 5 by simp
  then have "find_jobs_rules lib w (r0 # rs2) u = (Inl (Raised (in_generator e5)), t4 @ ?tm)"
    by simp
  then have "find_jobs_rules lib w (rs1 @ r0 # rs2) [] =
               (Inl (Raised (in_generator e5)), t3 @ t4 @ ?tm)"
    unfolding find_jobs_rules_append u by simp
  then show "find_jobs lib w (rs1 @ r0 # rs2) =
        (Inl (Raised (in_generator e5)),
         t3 @ t4 @ map (\<lambda>h. Matches (fid h) p0 (Inr True)) gs1 @
         [Matches (fid g0) p0 (Inl e5)])"
    by (simp add: find_jobs_def)
next
  show "in_generator ''StopIteration'' = ''RuntimeError''"
    by (simp add: in_generator_def)
next
  assume "e6 \<noteq> ''StopIteration''"
  then show "in_generator e6 = e6" by (simp add: in_generator_def)
qed

theorem failures_propagate_witness:
  "find_jobs demo_lib demo_world [txt_rule, jpg_rule] =
     (Inr ([Job [''/'', ''home'', ''a.txt''] (filters txt_rule) (actions txt_rule)] @
           Job [''/'', ''home'', ''b.jpg''] (filters jpg_rule) (actions jpg_rule) # []),
      [Matches 1 [''/'', ''home'', ''a.txt''] (Inr True),
       Matches 1 [''/'', ''home'', ''b.jpg''] (Inr False),
       Matches 1 [''/'', ''home'', ''x.d''] (Inr False),
       Matches 2 [''/'', ''home'', ''a.txt''] (Inr False),
       Matches 2 [''/'', ''home'', ''b.jpg''] (Inr True),
       Matches 2 [''/'', ''home'', ''x.d''] (Inr False)]) \<and>
   run_jobs demo_lib False
     [Job [''/'', ''home'', ''a.txt''] (filters txt_rule) (actions txt_rule)] demo_world =
     (Inr (),
      [([''/'', ''arch'', ''a.txt''], RegularFile),
       ([''/'', ''data'', ''b.jpg''], RegularFile),
       ([''/'', ''data'', ''x.d''], Directory),
       ([''/'', ''data'', ''README''], RegularFile),
       ([''/'', ''data'', ''x.d'', ''c.txt''], RegularFile)],
      [LogInfo [''/'', ''home'', ''a.txt''],
       Parse 1 [''/'', ''home'', ''a.txt''] (Inr [(''ext'', ''.txt'')]),
       Run 1 [''/'', ''data'', ''a.txt''] [(''ext'', ''.txt'')] False
         (Inr (Some [''/'', ''out'', ''a.txt''])),
       Run 2 [''/'', ''out'', ''a.txt''] [(''ext'', ''.txt'')] False (Inr None),
       Run 3 [''/'', ''out'', ''a.txt''] [(''ext'', ''.txt'')] False
         (Inr (Some [''/'', ''arch'', ''a.txt'']))]) \<and>
   job_filters (Job [''/'', ''home'', ''b.jpg''] (filters jpg_rule) (actions jpg_rule)) =
     has_ext 2 ''.jpg'' # [] \<and>
   job_actions (Job [''/'', ''home'', ''b.jpg''] (filters jpg_rule) (actions jpg_rule)) =
     [echo 3] @ fragile 4 # [echo 5] \<and>
   parse (has_ext 2 ''.jpg'')
      [([''/'', ''arch'', ''a.txt''], RegularFile),
       ([''/'', ''data'', ''b.jpg''], RegularFile),
       ([''/'', ''data'', ''x.d''], Directory),
       ([''/'', ''data'', ''README''], RegularFile),
       ([''/'', ''data'', ''x.d'', ''c.txt''], RegularFile)]
      (path (Job [''/'', ''home'', ''b.jpg''] (filters jpg_rule) (actions jpg_rule))) =
     Inr [(''ext'', ''.jpg'')] \<and>
   resolve demo_lib
      [([''/'', ''arch'', ''a.txt''], RegularFile),
       ([''/'', ''data'', ''b.jpg''], RegularFile),
       ([''/'', ''data'', ''x.d''], Directory),
       ([''/'', ''data'', ''README''], RegularFile),
       ([''/'', ''data'', ''x.d'', ''c.txt''], RegularFile)]
      (path (Job [''/'', ''home'', ''b.jpg''] (filters jpg_rule) (actions jpg_rule))) =
     Inr [''/'', ''data'', ''b.jpg''] \<and>
   run_actions False [(''ext'', ''.jpg'')] [echo 3] [''/'', ''data'', ''b.jpg'']
      [([''/'', ''arch'', ''a.txt''], RegularFile),
       ([''/'', ''data'', ''b.jpg''], RegularFile),
       ([''/'', ''data'', ''x.d''], Directory),
       ([''/'', ''data'', ''README''], RegularFile),
       ([''/'', ''data'', ''x.d'', ''c.txt''], RegularFile)] =
     (Inr [''/'', ''data'', ''b.jpg''],
      [([''/'', ''arch'', ''a.txt''], RegularFile),
       ([''/'', ''data'', ''b.jpg''], RegularFile),
       ([''/'', ''data'', ''x.d''], Directory),
       ([''/'', ''data'', ''README''], RegularFile),
       ([''/'', ''data'', ''x.d'', ''c.txt''], RegularFile)],
      [Run 3 [''/'', ''data'', ''b.jpg''] [(''ext'', ''.jpg'')] False (Inr None)]) \<and>
   run (fragile 4) [''/'', ''data'', ''b.jpg''] [(''ext'', ''.jpg'')] False
      [([''/'', ''arch'', ''a.txt''], RegularFile),
       ([''/'', ''data'', ''b.jpg''], RegularFile),
       ([''/'', ''data'', ''x.d''], Directory),
       ([''/'', ''data'', ''README''], RegularFile),
       ([''/'', ''data'', ''x.d'', ''c.txt''], RegularFile)] =
     (Inl ''PermissionError'',
      [([''/'', ''arch'', ''a.txt''], RegularFile),
       ([''/'', ''data'', ''b.jpg''], RegularFile),
       ([''/'', ''data'', ''x.d''], Directory),
       ([''/'', ''data'', ''README''], RegularFile),
       ([''/'', ''data'', ''x.d'', ''c.txt''], RegularFile)]) \<and>
   execute_rules demo_lib [txt_rule, jpg_rule] False demo_world =
     (Inl (Raised ''PermissionError''),
      [([''/'', ''arch'', ''a.txt''], RegularFile),
       ([''/'', ''data'', ''b.jpg''], RegularFile),
       ([''/'', ''data'', ''x.d''], Directory),
       ([''/'', ''data'', ''README''], RegularFile),
       ([''/'', ''data'', ''x.d'', ''c.txt''], RegularFile)],
      [Matches 1 [''/'', ''home'', ''a.txt''] (Inr True),
       Matches 1 [''/'', ''home'', ''b.jpg''] (Inr False),
       Matches 1 [''/'', ''home'', ''x.d''] (Inr False),
       Matches 2 [''/'', ''home'', ''a.txt''] (Inr False),
       Matches 2 [''/'', ''home'', ''b.jpg''] (Inr True),
       Matches 2 [''/'', ''home'', ''x.d''] (Inr False),
       LogDebug [([''/'', ''home'', ''a.txt''], [1], [1, 2, 3]),
                 ([''/'', ''home'', ''b.jpg''], [2], [3, 4, 5])],
       LogInfo [''/'', ''home'', ''a.txt''],
       Parse 1 [''/'', ''home'', ''a.txt''] (Inr [(''ext'', ''.txt'')]),
       Run 1 [''/'', ''data'', ''a.txt''] [(''ext'', ''.txt'')] False
         (Inr (Some [''/'', ''out'', ''a.txt''])),
       Run 2 [''/'', ''out'', ''a.txt''] [(''ext'', ''.txt'')] False (Inr None),
       Run 3 [''/'', ''out'', ''a.txt''] [(''ext'', ''.txt'')] False
         (Inr (Some [''/'', ''arch'', ''a.txt''])),
       LogInfo [''/'', ''home'', ''b.jpg''],
       Parse 2 [''/'', ''home'', ''b.jpg''] (Inr [(''ext'', ''.jpg'')]),
       Run 3 [''/'', ''data'', ''b.jpg''] [(''ext'', ''.jpg'')] False (Inr None),
       Run 4 [''/'', ''data'', ''b.jpg''] [(''ext'', ''.jpg'')] False
         (Inl ''PermissionError'')]) \<and>
   parse (opaque 6) demo_world [''/'', ''home'', ''a.txt''] = Inl ''ValueError'' \<and>
   execute_rules demo_lib [opaque_rule] False demo_world =
     (Inl (Raised ''ValueError''), demo_world,
      [Matches 6 [''/'', ''home'', ''a.txt''] (Inr True),
       Matches 6 [''/'', ''home'', ''b.jpg''] (Inr True),
       Matches 6 [''/'', ''home'', ''x.d''] (Inr True),
       LogDebug [([''/'', ''home'', ''a.txt''], [6], [9]),
                 ([''/'', ''home'', ''b.jpg''], [6], [9]),
                 ([''/'', ''home'', ''x.d''], [6], [9])],
       LogInfo [''/'', ''home'', ''a.txt''],
       Parse 6 [''/'', ''home'', ''a.txt''] (Inl ''ValueError'')]) \<and>
   folders sub_rule = [[''~'']] @ [''/'', ''root'', ''sub''] # [] \<and>
   expanduser demo_lib demo_world [''/'', ''root'', ''sub''] = Inr [''/'', ''root'', ''sub''] \<and>
   is_dir demo_lib demo_world [''/'', ''root'', ''sub''] = Inl ''PermissionError'' \<and>
   all_pathes demo_lib demo_world sub_rule =
     [Inr [[''/'', ''home'', ''a.txt''], [''/'', ''home'', ''b.jpg''], [''/'', ''home'', ''x.d'']]] @
     Inl ''PermissionError'' # [] \<and>
   find_jobs demo_lib demo_world [txt_rule] =
     (Inr [Job [''/'', ''home'', ''a.txt''] (filters txt_rule) (actions txt_rule)],
      [Matches 1 [''/'', ''home'', ''a.txt''] (Inr True),
       Matches 1 [''/'', ''home'', ''b.jpg''] (Inr False),
       Matches 1 [''/'', ''home'', ''x.d''] (Inr False)]) \<and>
   find_jobs_folders demo_world sub_rule
     [Inr [[''/'', ''home'', ''a.txt''], [''/'', ''home'', ''b.jpg''], [''/'', ''home'', ''x.d'']]] [] =
     (Inr [Job [''/'', ''home'', ''b.jpg''] (filters sub_rule) (actions sub_rule)],
      [Matches 9 [''/'', ''home'', ''a.txt''] (Inr False),
       Matches 9 [''/'', ''home'', ''b.jpg''] (Inr True),
       Matches 9 [''/'', ''home'', ''x.d''] (Inr False)]) \<and>
   find_jobs demo_lib demo_world ([txt_rule] @ sub_rule # [jpg_rule]) =
     (Inl (Raised ''PermissionError''),
      [Matches 1 [''/'', ''home'', ''a.txt''] (Inr True),
       Matches 1 [''/'', ''home'', ''b.jpg''] (Inr False),
       Matches 1 [''/'', ''home'', ''x.d''] (Inr False)] @
      [Matches 9 [''/'', ''home'', ''a.txt''] (Inr False),
       Matches 9 [''/'', ''home'', ''b.jpg''] (Inr True),
       Matches 9 [''/'', ''home'', ''x.d''] (Inr False)]) \<and>
   execute_rules demo_lib ([txt_rule] @ sub_rule # [jpg_rule]) False demo_world =
     (Inl (Raised ''PermissionError''), demo_world,
      [Matches 1 [''/'', ''home'', ''a.txt''] (Inr True),
       Matches 1 [''/'', ''home'', ''b.jpg''] (Inr False),
       Matches 1 [''/'', ''home'', ''x.d''] (Inr False)] @
      [Matches 9 [''/'', ''home'', ''a.txt''] (Inr False),
       Matches 9 [''/'', ''home'', ''b.jpg''] (Inr True),
       Matches 9 [''/'', ''home'', ''x.d''] (Inr False)]) \<and>
   (\<exists>err t. find_jobs demo_lib demo_world [txt_rule, sub_rule] = (Inl err, t)) \<and>
   all_pathes demo_lib demo_world blind_rule =
     [] @ Inr ([[''/'', ''home'', ''a.txt'']] @ [''/'', ''home'', ''b.jpg''] #
               [[''/'', ''home'', ''x.d'']]) # [] \<and>
   find_jobs_folders demo_world blind_rule ([] @ [Inr [[''/'', ''home'', ''a.txt'']]]) [] =
     (Inr [], [Matches 7 [''/'', ''home'', ''a.txt''] (Inr False)]) \<and>
   filters blind_rule = [has_ext 7 ''.jpg''] @ unreadable 5 # [] \<and>
   list_all (\<lambda>h. matches h demo_world [''/'', ''home'', ''b.jpg''] = Inr True)
     [has_ext 7 ''.jpg''] \<and>
   matches (unreadable 5) demo_world [''/'', ''home'', ''b.jpg''] = Inl ''OSError'' \<and>
   find_jobs demo_lib demo_world ([txt_rule] @ blind_rule # [jpg_rule]) =
     (Inl (Raised ''OSError''),
      [Matches 1 [''/'', ''home'', ''a.txt''] (Inr True),
       Matches 1 [''/'', ''home'', ''b.jpg''] (Inr False),
       Matches 1 [''/'', ''home'', ''x.d''] (Inr False),
       Matches 7 [''/'', ''home'', ''a.txt''] (Inr False),
       Matches 7 [''/'', ''home'', ''b.jpg''] (Inr True),
       Matches 5 [''/'', ''home'', ''b.jpg''] (Inl ''OSError'')]) \<and>
   (\<exists>err t. find_jobs demo_lib demo_world [txt_rule, blind_rule] = (Inl err, t)) \<and>
   find_jobs demo_lib demo_world [] = (Inr [], []) \<and>
   all_pathes demo_lib demo_world spent_rule =
     [] @ Inr ([] @ [''/'', ''home'', ''a.txt''] #
               [[''/'', ''home'', ''b.jpg''], [''/'', ''home'', ''x.d'']]) # [] \<and>
   find_jobs_folders demo_world spent_rule ([] @ [Inr []]) [] = (Inr [], []) \<and>
   filters spent_rule = [] @ exhausted 8 # [] \<and>
   matches (exhausted 8) demo_world [''/'', ''home'', ''a.txt''] = Inl ''StopIteration'' \<and>
   find_jobs demo_lib demo_world ([] @ spent_rule # [txt_rule]) =
     (Inl (Raised ''RuntimeError''),
      [Matches 8 [''/'', ''home'', ''a.txt''] (Inl ''StopIteration'')]) \<and>
   execute_rules demo_lib ([] @ spent_rule # [txt_rule]) False demo_world =
     (Inl (Raised ''RuntimeError''), demo_world,
      [Matches 8 [''/'', ''home'', ''a.txt''] (Inl ''StopIteration'')]) \<and>
   in_generator ''OSError'' = ''OSError'' \<and>
   fst (find_jobs demo_lib demo_world [txt_rule, sub_rule, jpg_rule]) =
     Inl (Raised ''PermissionError'') \<and>
   fst (find_jobs demo_lib demo_world [txt_rule, blind_rule, jpg_rule]) = Inl (Raised ''OSError'') \<and>
   fst (find_jobs demo_lib demo_world [spent_rule, txt_rule]) = Inl (Raised ''RuntimeError'')"
proof -
  let ?w1 = "[([''/'', ''arch'', ''a.txt''], RegularFile),
       ([''/'', ''data'', ''b.jpg''], RegularFile),
       ([''/'', ''data'', ''x.d''], Directory),
       ([''/'', ''data'', ''README''], RegularFile),
       ([''/'', ''data'', ''x.d'', ''c.txt''], RegularFile)]"
  let ?jt = "Job [''/'', ''home'', ''a.txt''] (filters txt_rule) (actions txt_rule)"
  let ?jj = "Job [''/'', ''home'', ''b.jpg''] (filters jpg_rule) (actions jpg_rule)"
  let ?fa = "[(''ext'', ''.jpg'')]"
  let ?home = "[[''/'', ''home'', ''a.txt''], [''/'', ''home'', ''b.jpg''], [''/'', ''home'', ''x.d'']]"
  note at_action = failures_propagate [THEN conjunct1]
  note at_parse = failures_propagate [THEN conjunct2, THEN conjunct1]
  note at_discovery = failures_propagate [THEN conjunct2, THEN conjunct2, THEN conjunct1]
  note some_folder = failures_propagate [THEN conjunct2, THEN conjunct2, THEN conjunct2,
      THEN conjunct1]
  note some_filter = failures_propagate [THEN conjunct2, THEN conjunct2, THEN conjunct2,
      THEN conjunct2, THEN conjunct1]
  note at_listing = failures_propagate [THEN conjunct2, THEN conjunct2, THEN conjunct2,
      THEN conjunct2, THEN conjunct2, THEN conjunct1]
  note at_folder = failures_propagate [THEN conjunct2, THEN conjunct2, THEN conjunct2,
      THEN conjunct2, THEN conjunct2, THEN conjunct2, THEN conjunct1]
  note at_filter = failures_propagate [THEN conjunct2, THEN conjunct2, THEN conjunct2,
      THEN conjunct2, THEN conjunct2, THEN conjunct2, THEN conjunct2, THEN conjunct1]
  note unchanged = failures_propagate [THEN conjunct2, THEN conjunct2, THEN conjunct2,
      THEN conjunct2, THEN conjunct2, THEN conjunct2, THEN conjunct2, THEN conjunct2,
      THEN conjunct2]
  have fj: "find_jobs demo_lib demo_world [txt_rule, jpg_rule] =
     (Inr ([?jt] @ ?jj # []),
      [Matches 1 [''/'', ''home'', ''a.txt''] (Inr True),
       Matches 1 [''/'', ''home'', ''b.jpg''] (Inr False),
       Matches 1 [''/'', ''home'', ''x.d''] (Inr False),
       Matches 2 [''/'', ''home'', ''a.txt''] (Inr False),
       Matches 2 [''/'', ''home'', ''b.jpg''] (Inr True),
       Matches 2 [''/'', ''home'', ''x.d''] (Inr False)])"
    using find_jobs_txt_jpg by simp
  have f: "job_filters ?jj = has_ext 2 ''.jpg'' # []" by simp
  have pa: "parse (has_ext 2 ''.jpg'') ?w1 (path ?jj) = Inr ?fa" by simp
  have rs: "resolve demo_lib ?w1 (path ?jj) = Inr [''/'', ''data'', ''b.jpg'']"
    by (simp add: demo_lib_def canon_def)
  have as: "job_actions ?jj = [echo 3] @ fragile 4 # [echo 5]" by simp
  have ra: "run_actions False ?fa [echo 3] [''/'', ''data'', ''b.jpg''] ?w1 =
      (Inr [''/'', ''data'', ''b.jpg''], ?w1,
       [Run 3 [''/'', ''data'', ''b.jpg''] ?fa False (Inr None)])"
    by simp
  have ru: "run (fragile 4) [''/'', ''data'', ''b.jpg''] ?fa False ?w1 = (Inl ''PermissionError'', ?w1)"
    by simp
  note T1 = at_action [rule_format, OF fj run_jobs_txt f pa rs as ra ru]
  have one: "execute_rules demo_lib [txt_rule, jpg_rule] False demo_world =
     (Inl (Raised ''PermissionError''), ?w1,
      [Matches 1 [''/'', ''home'', ''a.txt''] (Inr True),
       Matches 1 [''/'', ''home'', ''b.jpg''] (Inr False),
       Matches 1 [''/'', ''home'', ''x.d''] (Inr False),
       Matches 2 [''/'', ''home'', ''a.txt''] (Inr False),
       Matches 2 [''/'', ''home'', ''b.jpg''] (Inr True),
       Matches 2 [''/'', ''home'', ''x.d''] (Inr False),
       LogDebug [([''/'', ''home'', ''a.txt''], [1], [1, 2, 3]),
                 ([''/'', ''home'', ''b.jpg''], [2], [3, 4, 5])],
       LogInfo [''/'', ''home'', ''a.txt''],
       Parse 1 [''/'', ''home'', ''a.txt''] (Inr [(''ext'', ''.txt'')]),
       Run 1 [''/'', ''data'', ''a.txt''] [(''ext'', ''.txt'')] False
         (Inr (Some [''/'', ''out'', ''a.txt''])),
       Run 2 [''/'', ''out'', ''a.txt''] [(''ext'', ''.txt'')] False (Inr None),
       Run 3 [''/'', ''out'', ''a.txt''] [(''ext'', ''.txt'')] False
         (Inr (Some [''/'', ''arch'', ''a.txt''])),
       LogInfo [''/'', ''home'', ''b.jpg''],
       Parse 2 [''/'', ''home'', ''b.jpg''] (Inr [(''ext'', ''.jpg'')]),
       Run 3 [''/'', ''data'', ''b.jpg''] [(''ext'', ''.jpg'')] False (Inr None),
       Run 4 [''/'', ''data'', ''b.jpg''] [(''ext'', ''.jpg'')] False
         (Inl ''PermissionError'')])"
    using T1 by (simp add: job_repr_def)
  let ?ja = "Job [''/'', ''home'', ''a.txt''] (filters opaque_rule) (actions opaque_rule)"
  have fjo: "find_jobs demo_lib demo_world [opaque_rule] =
     (Inr ([] @ ?ja #
           [Job [''/'', ''home'', ''b.jpg''] (filters opaque_rule) (actions opaque_rule),
            Job [''/'', ''home'', ''x.d''] (filters opaque_rule) (actions opaque_rule)]),
      [Matches 6 [''/'', ''home'', ''a.txt''] (Inr True),
       Matches 6 [''/'', ''home'', ''b.jpg''] (Inr True),
       Matches 6 [''/'', ''home'', ''x.d''] (Inr True)])"
    using find_jobs_opaque by simp
  have rj0: "run_jobs demo_lib False [] demo_world = (Inr (), demo_world, [])" by simp
  have fo: "job_filters ?ja = opaque 6 # []" by simp
  have po: "parse (opaque 6) demo_world (path ?ja) = Inl ''ValueError''" by simp
  note T2 = at_parse [rule_format, OF fjo rj0 fo po]
  have two: "execute_rules demo_lib [opaque_rule] False demo_world =
     (Inl (Raised ''ValueError''), demo_world,
      [Matches 6 [''/'', ''home'', ''a.txt''] (Inr True),
       Matches 6 [''/'', ''home'', ''b.jpg''] (Inr True),
       Matches 6 [''/'', ''home'', ''x.d''] (Inr True),
       LogDebug [([''/'', ''home'', ''a.txt''], [6], [9]),
                 ([''/'', ''home'', ''b.jpg''], [6], [9]),
                 ([''/'', ''home'', ''x.d''], [6], [9])],
       LogInfo [''/'', ''home'', ''a.txt''],
       Parse 6 [''/'', ''home'', ''a.txt''] (Inl ''ValueError'')])"
    using T2 by (simp add: job_repr_def)
  have po': "parse (opaque 6) demo_world [''/'', ''home'', ''a.txt''] = Inl ''ValueError''"
    by simp
  have sf: "folders sub_rule = [[''~'']] @ [''/'', ''root'', ''sub''] # []" by simp
  have se: "expanduser demo_lib demo_world [''/'', ''root'', ''sub''] =
              Inr [''/'', ''root'', ''sub'']"
    by (simp add: expanduser_def)
  have sd: "is_dir demo_lib demo_world [''/'', ''root'', ''sub''] = Inl ''PermissionError''"
    by (simp add: demo_lib_def)
  from se sd have sbad:
    "expanduser demo_lib demo_world [''/'', ''root'', ''sub''] = Inl ''PermissionError'' \<or>
     (\<exists>d. expanduser demo_lib demo_world [''/'', ''root'', ''sub''] = Inr d \<and>
        (is_dir demo_lib demo_world d = Inl ''PermissionError'' \<or>
         is_dir demo_lib demo_world d = Inr True \<and>
         scandir demo_lib demo_world d = Inl ''PermissionError'' \<and>
         ''PermissionError'' \<noteq> ''PermissionError''))"
    by simp
  have sl: "all_pathes demo_lib demo_world sub_rule = [Inr ?home] @ Inl ''PermissionError'' # []"
    using at_listing [THEN mp, OF sf, THEN mp, OF sbad]
    by (simp add: home_listing all_pathes_no_folders in_generator_def)
  note three = at_folder [rule_format, OF find_jobs_txt sl find_jobs_sub_head, of "[jpg_rule]"]
  note four = at_discovery [rule_format, OF three, of False]
  have r5: "sub_rule \<in> set [txt_rule, sub_rule]" by simp
  have c5: "Inl ''PermissionError'' \<in> set (all_pathes demo_lib demo_world sub_rule)"
    by (simp add: sl)
  note five = some_folder [rule_format, OF r5 c5]
  have bl: "all_pathes demo_lib demo_world blind_rule =
     [] @ Inr ([[''/'', ''home'', ''a.txt'']] @ [''/'', ''home'', ''b.jpg''] #
               [[''/'', ''home'', ''x.d'']]) # []"
    by (simp add: home_listing)
  have bf: "filters blind_rule = [has_ext 7 ''.jpg''] @ unreadable 5 # []" by simp
  have bh: "list_all (\<lambda>h. matches h demo_world [''/'', ''home'', ''b.jpg''] = Inr True)
     [has_ext 7 ''.jpg'']"
    by simp
  have bm: "matches (unreadable 5) demo_world [''/'', ''home'', ''b.jpg''] = Inl ''OSError''"
    by simp
  note ot = unchanged [of "''OSError''", THEN mp]
  have io: "in_generator ''OSError'' = ''OSError''"
    by (rule ot) simp
  have six: "find_jobs demo_lib demo_world ([txt_rule] @ blind_rule # [jpg_rule]) =
     (Inl (Raised ''OSError''),
      [Matches 1 [''/'', ''home'', ''a.txt''] (Inr True),
       Matches 1 [''/'', ''home'', ''b.jpg''] (Inr False),
       Matches 1 [''/'', ''home'', ''x.d''] (Inr False),
       Matches 7 [''/'', ''home'', ''a.txt''] (Inr False),
       Matches 7 [''/'', ''home'', ''b.jpg''] (Inr True),
       Matches 5 [''/'', ''home'', ''b.jpg''] (Inl ''OSError'')])"
    using at_filter [THEN mp, OF find_jobs_txt, THEN mp, OF bl, THEN mp, OF find_jobs_blind_head,
        THEN mp, OF bf, THEN mp, OF bh [unfolded list_all_iff], THEN mp, OF bm, of "[jpg_rule]"]
    by (simp add: io)
  have r7: "blind_rule \<in> set [txt_rule, blind_rule]" by simp
  have p7: "[''/'', ''home'', ''b.jpg''] \<in> set (enumerated demo_lib demo_world blind_rule)"
    by (simp add: home_enumerated)
  note seven = some_filter [THEN mp, OF r7, THEN mp, OF p7, THEN mp, OF bf, THEN mp,
      OF bh [unfolded list_all_iff], THEN mp, OF bm]
  have e0: "find_jobs demo_lib demo_world [] = (Inr [], [])"
    by (simp add: find_jobs_def)
  have spl: "all_pathes demo_lib demo_world spent_rule =
     [] @ Inr ([] @ [''/'', ''home'', ''a.txt''] #
               [[''/'', ''home'', ''b.jpg''], [''/'', ''home'', ''x.d'']]) # []"
    by (simp add: home_listing)
  have sp0: "find_jobs_folders demo_world spent_rule ([] @ [Inr []]) [] = (Inr [], [])"
    by simp
  have spf: "filters spent_rule = [] @ exhausted 8 # []" by simp
  have sph: "\<forall>h\<in>set ([] :: (demo_world, demo_attrs) filter_obj list).
              matches h demo_world [''/'', ''home'', ''a.txt''] = Inr True"
    by simp
  have spm: "matches (exhausted 8) demo_world [''/'', ''home'', ''a.txt''] = Inl ''StopIteration''"
    by simp
  have eight: "find_jobs demo_lib demo_world ([] @ spent_rule # [txt_rule]) =
     (Inl (Raised ''RuntimeError''),
      [Matches 8 [''/'', ''home'', ''a.txt''] (Inl ''StopIteration'')])"
    using at_filter [THEN mp, OF e0, THEN mp, OF spl, THEN mp, OF sp0, THEN mp, OF spf,
        THEN mp, OF sph, THEN mp, OF spm, of "[txt_rule]"]
    by (simp add: in_generator_def)
  note nine = at_discovery [rule_format, OF eight, of False]
  have ev1: "fst (find_jobs demo_lib demo_world [txt_rule, sub_rule, jpg_rule]) =
     Inl (Raised ''PermissionError'')"
    by (simp add: find_jobs_def all_pathes_def expanduser_def glob_def demo_lib_def
          demo_world_def canon_def is_directory_def in_generator_def)
  have ev2: "fst (find_jobs demo_lib demo_world [txt_rule, blind_rule, jpg_rule]) =
     Inl (Raised ''OSError'')"
    by (simp add: find_jobs_def all_pathes_def expanduser_def glob_def demo_lib_def
          demo_world_def canon_def is_directory_def in_generator_def)
  have ev3: "fst (find_jobs demo_lib demo_world [spent_rule, txt_rule]) =
     Inl (Raised ''RuntimeError'')"
    by (simp add: find_jobs_def all_pathes_def expanduser_def glob_def demo_lib_def
          demo_world_def canon_def is_directory_def in_generator_def)
  show ?thesis
    by (intro conjI)
      (fact fj run_jobs_txt f as pa rs ra ru one po' two sf se sd sl find_jobs_txt
         find_jobs_sub_head three four five bl find_jobs_blind_head bf bh bm six seven
         e0 spl sp0 spf spm eight nine io ev1 ev2 ev3)+
qed

text \<open>
  C10. A rule whose filter list is empty accepts every path enumerated for it, so each
  becomes a job (with no filter). When \<^verbatim>\<open>execute_rules\<close> reaches such a job, the access to
  the first filter raises \<^verbatim>\<open>IndexError\<close> after the job has been logged, before any call
  of \<^verbatim>\<open>parse\<close> or \<^verbatim>\<open>run\<close> for it. The access raises exactly when the list is empty, and
  \<^verbatim>\<open>execute_rules\<close> ends with the engine's \<^verbatim>\<open>IndexError\<close> only when some job has an empty
  filter list.
\<close>

theorem empty_filter_list:
  "(filters r = [] \<longrightarrow> (\<forall>c\<in>set (all_pathes lib w r). \<exists>ps. c = Inr ps) \<longrightarrow>
      find_jobs lib w [r] =
        (Inr (sort_key path (map (\<lambda>p. Job p [] (actions r)) (enumerated lib w r))), [])) \<and>
   (find_jobs lib w rules = (Inr jobs, tf) \<longrightarrow> r \<in> set rules \<longrightarrow> filters r = [] \<longrightarrow>
      (\<forall>p\<in>set (enumerated lib w r). Job p [] (actions r) \<in> set jobs)) \<and>
   (job_filters j = [] \<longrightarrow>
      run_job lib simulate j w1 = (Inl IndexError, w1, [LogInfo (path j)])) \<and>
   (fst (run_job lib simulate j w1) = Inl IndexError) = (job_filters j = []) \<and>
   (first (job_filters j) = Inl IndexError) = (job_filters j = []) \<and>
   (find_jobs lib w rules = (Inr (js1 @ j # js2), tf) \<longrightarrow>
    run_jobs lib simulate js1 w = (Inr (), w1, t1) \<longrightarrow> job_filters j = [] \<longrightarrow>
      execute_rules lib rules simulate w =
        (Inl IndexError, w1,
         tf @ LogDebug (map job_repr (js1 @ j # js2)) # t1 @ [LogInfo (path j)])) \<and>
   (fst (execute_rules lib rules simulate w) = Inl IndexError \<longrightarrow>
      (\<exists>jobs' tf'. find_jobs lib w rules = (Inr jobs', tf') \<and>
         (\<exists>j'\<in>set jobs'. job_filters j' = [])))"
proof (intro conjI impI)
  assume nf: "filters r = []" and ok: "\<forall>c\<in>set (all_pathes lib w r). \<exists>ps. c = Inr ps"
  from find_jobs_folders_no_filters [OF nf ok, of w "[]"]
  show "find_jobs lib w [r] =
        (Inr (sort_key path (map (\<lambda>p. Job p [] (actions r)) (enumerated lib w r))), [])"
    by (simp add: find_jobs_def enumerated_def)
next
  assume fj: "find_jobs lib w rules = (Inr jobs, tf)" and r: "r \<in> set rules"
    and nf: "filters r = []"
  show "\<forall>p\<in>set (enumerated lib w r). Job p [] (actions r) \<in> set jobs"
  proof
    fix p
    assume p: "p \<in> set (enumerated lib w r)"
    from nf have "accepts w (filters r) p" by (simp add: accepts_def)
    with r p nf show "Job p [] (actions r) \<in> set jobs"
      unfolding in_find_jobs [OF fj] by force
  qed
next
  assume "job_filters j = []"
  then show "run_job lib simulate j w1 = (Inl IndexError, w1, [LogInfo (path j)])"
    by (simp add: run_job_def first_def)
next
  show "(fst (run_job lib simulate j w1) = Inl IndexError) = (job_filters j = [])"
    by (rule run_job_IndexError)
next
  show "(first (job_filters j) = Inl IndexError) = (job_filters j = [])"
    by (simp add: first_def)
next
  assume fj: "find_jobs lib w rules = (Inr (js1 @ j # js2), tf)"
    and rj: "run_jobs lib simulate js1 w = (Inr (), w1, t1)" and nf: "job_filters j = []"
  from nf have "run_job lib simulate j w1 = (Inl IndexError, w1, [LogInfo (path j)])"
    by (simp add: run_job_def first_def)
  with rj have "run_jobs lib simulate (js1 @ j # js2) w =
      (Inl IndexError, w1, t1 @ [LogInfo (path j)])"
    by (simp add: run_jobs_append)
  with fj show "execute_rules lib rules simulate w =
        (Inl IndexError, w1,
         tf @ LogDebug (map job_repr (js1 @ j # js2)) # t1 @ [LogInfo (path j)])"
    by (simp add: execute_rules_def)
next
  assume ie: "fst (execute_rules lib rules simulate w) = Inl IndexError"
  obtain res w' t where ex: "execute_rules lib rules simulate w = (res, w', t)"
    by (cases "execute_rules lib rules simulate w")
  with ie have res: "res = Inl IndexError" by simp
  from ex show "\<exists>jobs' tf'. find_jobs lib w rules = (Inr jobs', tf') \<and>
         (\<exists>j'\<in>set jobs'. job_filters j' = [])"
  proof (cases rule: execute_rules_cases)
    case (discovery_raises e)
    with res find_jobs_Raised [OF discovery_raises(1)] show ?thesis by simp
  next
    case (no_jobs tf')
    with res show ?thesis by simp
  next
    case (jobs_run jobs' tf' t2)
    with res run_jobs_IndexError [of lib simulate jobs' w w' t2] show ?thesis by simp
  qed
qed

theorem empty_filter_list_witness:
  "filters bare_rule = [] \<and>
   all_pathes demo_lib demo_world bare_rule =
     [Inr [[''/'', ''home'', ''a.txt''], [''/'', ''home'', ''b.jpg''], [''/'', ''home'', ''x.d'']]] \<and>
   find_jobs demo_lib demo_world [bare_rule] =
     (Inr ([] @ Job [''/'', ''home'', ''a.txt''] [] (actions bare_rule) #
           [Job [''/'', ''home'', ''b.jpg''] [] (actions bare_rule),
            Job [''/'', ''home'', ''x.d''] [] (actions bare_rule)]), []) \<and>
   bare_rule \<in> set [bare_rule] \<and>
   [''/'', ''home'', ''b.jpg''] \<in> set (enumerated demo_lib demo_world bare_rule) \<and>
   Job [''/'', ''home'', ''b.jpg''] [] (actions bare_rule)
     \<in> set ([] @ Job [''/'', ''home'', ''a.txt''] [] (actions bare_rule) #
           [Job [''/'', ''home'', ''b.jpg''] [] (actions bare_rule),
            Job [''/'', ''home'', ''x.d''] [] (actions bare_rule)]) \<and>
   job_filters (Job [''/'', ''home'', ''a.txt''] [] (actions bare_rule)) = [] \<and>
   run_job demo_lib False (Job [''/'', ''home'', ''a.txt''] [] (actions bare_rule)) demo_world =
     (Inl IndexError, demo_world,
      [LogInfo (path (Job [''/'', ''home'', ''a.txt''] [] (actions bare_rule)))]) \<and>
   run_jobs demo_lib False [] demo_world = (Inr (), demo_world, []) \<and>
   execute_rules demo_lib [bare_rule] False demo_world =
     (Inl IndexError, demo_world,
      [LogDebug [([''/'', ''home'', ''a.txt''], [], [7]),
                 ([''/'', ''home'', ''b.jpg''], [], [7]),
                 ([''/'', ''home'', ''x.d''], [], [7])],
       LogInfo [''/'', ''home'', ''a.txt'']]) \<and>
   fst (execute_rules demo_lib [bare_rule] False demo_world) = Inl IndexError \<and>
   (\<exists>jobs' tf'. find_jobs demo_lib demo_world [bare_rule] = (Inr jobs', tf') \<and>
      (\<exists>j'\<in>set jobs'. job_filters j' = []))"
proof -
  let ?ja = "Job [''/'', ''home'', ''a.txt''] [] (actions bare_rule)"
  let ?rest = "[Job [''/'', ''home'', ''b.jpg''] [] (actions bare_rule),
            Job [''/'', ''home'', ''x.d''] [] (actions bare_rule)]"
  have nf: "filters bare_rule = []" by simp
  have ls: "all_pathes demo_lib demo_world bare_rule =
     [Inr [[''/'', ''home'', ''a.txt''], [''/'', ''home'', ''b.jpg''], [''/'', ''home'', ''x.d'']]]"
    by (simp add: home_listing)
  have ok: "\<forall>c\<in>set (all_pathes demo_lib demo_world bare_rule). \<exists>ps. c = Inr ps"
    by (simp add: ls)
  have fj: "find_jobs demo_lib demo_world [bare_rule] = (Inr ([] @ ?ja # ?rest), [])"
    using empty_filter_list [THEN conjunct1, THEN mp, OF nf, THEN mp, OF ok]
    by (simp add: home_enumerated)
  have r: "bare_rule \<in> set [bare_rule]" by simp
  have p: "[''/'', ''home'', ''b.jpg''] \<in> set (enumerated demo_lib demo_world bare_rule)"
    by (simp add: home_enumerated)
  have two: "Job [''/'', ''home'', ''b.jpg''] [] (actions bare_rule) \<in> set ([] @ ?ja # ?rest)"
    using empty_filter_list [THEN conjunct2, THEN conjunct1, THEN mp, OF fj, THEN mp, OF r,
        THEN mp, OF nf, THEN bspec, OF p] .
  have jf: "job_filters ?ja = []" by simp
  note three = empty_filter_list [THEN conjunct2, THEN conjunct2, THEN conjunct1, THEN mp,
      OF jf, of demo_lib False demo_world]
  have rj0: "run_jobs demo_lib False [] demo_world = (Inr (), demo_world, [])" by simp
  have six: "execute_rules demo_lib [bare_rule] False demo_world =
     (Inl IndexError, demo_world,
      [LogDebug [([''/'', ''home'', ''a.txt''], [], [7]),
                 ([''/'', ''home'', ''b.jpg''], [], [7]),
                 ([''/'', ''home'', ''x.d''], [], [7])],
       LogInfo [''/'', ''home'', ''a.txt'']])"
    using empty_filter_list [THEN conjunct2, THEN conjunct2, THEN conjunct2, THEN conjunct2,
        THEN conjunct2, THEN conjunct1, THEN mp, OF fj, THEN mp, OF rj0, THEN mp, OF jf]
    by (simp add: job_repr_def)
  have ie: "fst (execute_rules demo_lib [bare_rule] False demo_world) = Inl IndexError"
    by (simp add: six)
  note seven = empty_filter_list [THEN conjunct2, THEN conjunct2, THEN conjunct2, THEN conjunct2,
      THEN conjunct2, THEN conjunct2, THEN mp, OF ie]
  show ?thesis
    by (intro conjI) (fact nf ls fj r p two jf three rj0 six ie seven)+
qed

end
